theory Spec2Isabelle
  imports Main "HOL-Library.Word" "HOL-Library.Monad_Syntax"
begin

unbundle bit_operations_syntax

section \<open>Byte buffers (Node.js Buffer)\<close>

text \<open>
  A datagram is a list of bytes. Node's \<^verbatim>\<open>buf.readUInt8(off)\<close>, \<^verbatim>\<open>readUInt16LE\<close>,
  \<^verbatim>\<open>readUInt32LE\<close>, \<^verbatim>\<open>readBigUInt64LE\<close>, \<^verbatim>\<open>readInt8\<close> and \<^verbatim>\<open>readFloatLE\<close> throw a
  RangeError when the bytes to read do not lie inside the buffer. A read is therefore an
  \<open>option\<close>: \<open>None\<close> is the thrown RangeError. No handler of server.js catches it, so a
  \<open>None\<close> of a handler is an exception that escapes the UDP message callback.
  A 32-bit float is kept as its raw bits: no claim computes with one.
\<close>

type_synonym byte = "8 word"
type_synonym buffer = "byte list"

text \<open>
  A JavaScript string, as the list of its Unicode code points (a code point above
  \<open>0xFFFF\<close> stands for its surrogate pair).
\<close>

type_synonym jsstring = "nat list"

datatype float32 = FloatBits "32 word"

fun leNat :: "byte list \<Rightarrow> nat" where
  "leNat [] = 0"
| "leNat (x # xs) = unat x + 256 * leNat xs"

definition readLE :: "nat \<Rightarrow> buffer \<Rightarrow> nat \<Rightarrow> nat option" where
  "readLE n buf off = (if off + n \<le> length buf then Some (leNat (take n (drop off buf))) else None)"

definition readUInt8 :: "buffer \<Rightarrow> nat \<Rightarrow> nat option" where
  "readUInt8 buf off = readLE 1 buf off"

definition readUInt16LE :: "buffer \<Rightarrow> nat \<Rightarrow> nat option" where
  "readUInt16LE buf off = readLE 2 buf off"

definition readUInt32LE :: "buffer \<Rightarrow> nat \<Rightarrow> nat option" where
  "readUInt32LE buf off = readLE 4 buf off"

definition readBigUInt64LE :: "buffer \<Rightarrow> nat \<Rightarrow> nat option" where
  "readBigUInt64LE buf off = readLE 8 buf off"

definition readInt8 :: "buffer \<Rightarrow> nat \<Rightarrow> int option" where
  "readInt8 buf off = (if off + 1 \<le> length buf then Some (sint (buf ! off)) else None)"

definition readFloatLE :: "buffer \<Rightarrow> nat \<Rightarrow> float32 option" where
  "readFloatLE buf off = map_option (\<lambda>n. FloatBits (word_of_nat n)) (readLE 4 buf off)"

section \<open>Protocol constants\<close>

definition PACKET_ID_SESSION :: nat where "PACKET_ID_SESSION = 1"
definition PACKET_ID_LAP_DATA :: nat where "PACKET_ID_LAP_DATA = 2"
definition PACKET_ID_PARTICIPANTS :: nat where "PACKET_ID_PARTICIPANTS = 4"
definition PACKET_ID_CAR_TELEMETRY :: nat where "PACKET_ID_CAR_TELEMETRY = 6"
definition PACKET_ID_SESSION_HISTORY :: nat where "PACKET_ID_SESSION_HISTORY = 11"
definition PACKET_ID_CAR_STATUS :: nat where "PACKET_ID_CAR_STATUS = 7"
definition PACKET_ID_CAR_DAMAGE :: nat where "PACKET_ID_CAR_DAMAGE = 10"
definition HEADER_SIZE :: nat where "HEADER_SIZE = 29"
definition NUM_CARS :: nat where "NUM_CARS = 22"
definition LAP_DATA_SIZE :: nat where "LAP_DATA_SIZE = 57"
definition CAR_STATUS_DATA_SIZE :: nat where "CAR_STATUS_DATA_SIZE = 55"
definition CAR_TELEMETRY_DATA_SIZE :: nat where "CAR_TELEMETRY_DATA_SIZE = 60"
definition PARTICIPANT_DATA_SIZE :: nat where "PARTICIPANT_DATA_SIZE = 57"
definition LAP_HISTORY_DATA_SIZE :: nat where "LAP_HISTORY_DATA_SIZE = 14"
definition CAR_DAMAGE_DATA_SIZE :: nat where "CAR_DAMAGE_DATA_SIZE = 46"

section \<open>JavaScript Map\<close>

text \<open>
  A \<^verbatim>\<open>Map\<close> iterates in insertion order: \<^verbatim>\<open>set\<close> of a present key keeps its place,
  \<^verbatim>\<open>set\<close> of a new key appends, \<^verbatim>\<open>delete\<close> removes. It is an association list with
  these three operations.
\<close>

type_synonym ('k, 'v) jsmap = "('k \<times> 'v) list"

definition Map_get :: "('k, 'v) jsmap \<Rightarrow> 'k \<Rightarrow> 'v option" where
  "Map_get m k = map_of m k"

definition Map_has :: "('k, 'v) jsmap \<Rightarrow> 'k \<Rightarrow> bool" where
  "Map_has m k = (k \<in> set (map fst m))"

fun Map_set :: "('k, 'v) jsmap \<Rightarrow> 'k \<Rightarrow> 'v \<Rightarrow> ('k, 'v) jsmap" where
  "Map_set [] k v = [(k, v)]"
| "Map_set ((k', v') # m) k v = (if k' = k then (k, v) # m else (k', v') # Map_set m k v)"

definition Map_delete :: "('k, 'v) jsmap \<Rightarrow> 'k \<Rightarrow> ('k, 'v) jsmap" where
  "Map_delete m k = filter (\<lambda>kv. fst kv \<noteq> k) m"

definition Map_keys :: "('k, 'v) jsmap \<Rightarrow> 'k list" where
  "Map_keys m = map fst m"

definition Map_values :: "('k, 'v) jsmap \<Rightarrow> 'v list" where
  "Map_values m = map snd m"

section \<open>Records of the data model\<close>

record Header =
  packetFormat :: nat
  gameYear :: nat
  gameMajorVersion :: nat
  gameMinorVersion :: nat
  packetVersion :: nat
  packetId :: nat
  sessionUID :: nat
  sessionTime :: float32
  frameIdentifier :: nat
  overallFrameIdentifier :: nat
  playerCarIndex :: nat
  secondaryPlayerCarIndex :: nat

record LapData =
  lastLapTimeInMS :: int
  currentLapTimeInMS :: int
  sector1TimeMs :: "int option"
  sector2TimeMs :: "int option"
  sector3TimeMs :: "int option"
  deltaToRaceLeaderMs :: "int option"
  deltaToCarInFrontMs :: "int option"
  lapDistance :: float32
  totalDistance :: float32
  safetyCarDelta :: float32
  carPosition :: nat
  currentLapNum :: nat
  pitStatus :: nat
  numPitStops :: nat
  sector :: nat
  currentLapInvalid :: nat
  penaltiesSec :: nat
  totalWarnings :: nat
  cornerCuttingWarnings :: nat
  numUnservedDriveThroughPens :: nat
  numUnservedStopGoPens :: nat
  gridPosition :: nat
  driverStatus :: nat
  resultStatus :: nat
  pitLaneTimerActive :: nat
  pitLaneTimeInLaneInMS :: int
  pitStopTimerInMS :: int
  pitStopShouldServePen :: nat
  speedTrapFastestSpeed :: float32
  speedTrapFastestLap :: nat

record Colour =
  r :: nat
  g :: nat
  b :: nat

record ParticipantMeta =
  teamId :: nat
  numColours :: nat
  colour :: Colour

record HistoryEntry =
  lapTimeMs :: "int option"
  sector1TimeMs :: "int option"
  sector2TimeMs :: "int option"
  sector3TimeMs :: "int option"
  validFlags :: nat

record CarStatus =
  tractionControl :: nat
  antiLockBrakes :: nat
  fuelMix :: nat
  frontBrakeBias :: nat
  pitLimiterStatus :: nat
  fuelInTank :: float32
  fuelCapacity :: float32
  fuelRemainingLaps :: float32
  maxRPM :: nat
  idleRPM :: nat
  maxGears :: nat
  drsAllowed :: nat
  drsActivationDistance :: nat
  actualTyreCompound :: nat
  visualTyreCompound :: nat
  tyresAgeLaps :: nat
  vehicleFIAFlags :: int
  enginePowerICE :: float32
  enginePowerMGUK :: float32
  ersStoreEnergy :: float32
  ersDeployMode :: nat
  ersHarvestedThisLapMGUK :: float32
  ersHarvestedThisLapMGUH :: float32
  ersDeployedThisLap :: float32
  networkPaused :: nat

record CarTelemetry =
  speedKph :: nat
  throttle :: float32
  steer :: float32
  brake :: float32
  clutch :: nat
  gear :: int
  engineRPM :: nat
  drs :: nat
  revLightsPercent :: nat
  revLightsBitValue :: nat
  brakesTemperature :: "nat list"
  tyresSurfaceTemperature :: "nat list"
  tyresInnerTemperature :: "nat list"
  engineTemperature :: nat
  tyresPressure :: "float32 list"
  surfaceType :: "nat list"

record CarDamage =
  tyresWear :: "float32 list"
  tyresDamage :: "nat list"
  brakesDamage :: "nat list"
  tyreBlisters :: "nat list"
  frontLeftWingDamage :: nat
  frontRightWingDamage :: nat
  rearWingDamage :: nat
  floorDamage :: nat
  diffuserDamage :: nat
  sidepodDamage :: nat
  drsFault :: nat
  ersFault :: nat
  gearBoxDamage :: nat
  engineDamage :: nat
  engineMGUHWear :: nat
  engineESWear :: nat
  engineCEWear :: nat
  engineICEWear :: nat
  engineMGUKWear :: nat
  engineTCWear :: nat
  engineBlown :: nat
  engineSeized :: nat

record PitStint =
  active :: bool
  startLapNum :: "nat option"
  maxTimeMs :: int
  statusMax :: nat
  lastTimeMs :: "int option"
  lastStatusMax :: nat
  lastLapNum :: "nat option"

record SectorCache =
  sector1TimeMs :: "int option"
  sector2TimeMs :: "int option"
  sector3TimeMs :: "int option"

record TyreSnapshot =
  tyreActualCompound :: "nat option"
  tyreVisualCompound :: "nat option"
  tyresAgeLaps :: "nat option"

text \<open>
  A lap of the personal table: an entry of \<^verbatim>\<open>lapsByNumber\<close>, and the live row
  \<^verbatim>\<open>lapsState.currentLap\<close>, which has the same fields.
\<close>

record LapEntry =
  lapNumber :: nat
  lapTimeMs :: "int option"
  deltaMs :: "int option"
  valid :: bool
  isBest :: bool
  sector1TimeMs :: "int option"
  sector2TimeMs :: "int option"
  sector3TimeMs :: "int option"
  tyreActualCompound :: "nat option"
  tyreVisualCompound :: "nat option"
  tyresAgeLaps :: "nat option"
  pitStatus :: nat
  pitLaneTimeMs :: "int option"
  numPitStops :: nat

record Penalties =
  penaltiesSec :: nat
  totalWarnings :: nat
  cornerCuttingWarnings :: nat
  numUnservedDriveThroughPens :: nat
  numUnservedStopGoPens :: nat
  pitStopShouldServePen :: nat

record RaceCar =
  carIndex :: nat
  name :: "jsstring option"
  teamId :: "nat option"
  teamColour :: "Colour option"
  position :: nat
  lapNumber :: nat
  lapTimeMs :: "int option"
  bestLapTimeMs :: "int option"
  bestLapNum :: "nat option"
  gapToLeaderMs :: "int option"
  gapToCarAheadMs :: "int option"
  sector1TimeMs :: "int option"
  sector2TimeMs :: "int option"
  sector3TimeMs :: "int option"
  tyreActualCompound :: "nat option"
  tyreVisualCompound :: "nat option"
  tyresAgeLaps :: "nat option"
  pitStatus :: nat
  pitLaneTimeMs :: "int option"
  stops :: nat
  lapDistance :: float32

datatype SessionKind = time_trial | race | time_attack

text \<open>
  \<^verbatim>\<open>lapsState\<close>, the snapshot sent to the viewers. A field that the source leaves
  \<^verbatim>\<open>null\<close> or undefined is \<open>None\<close>.
\<close>

record LapsState =
  liveLapTimeMs :: int
  liveDeltaToBestMs :: "int option"
  bestLapTimeMs :: "int option"
  bestLapNumber :: "nat option"
  bestSector1TimeMs :: "int option"
  bestSector2TimeMs :: "int option"
  bestSector3TimeMs :: "int option"
  isConnected :: bool
  sessionKind :: "SessionKind option"
  sessionType :: "nat option"
  totalLaps :: "nat option"
  trackId :: "int option"
  trackLengthM :: "nat option"
  formula :: "nat option"
  weather :: "nat option"
  trackTemperatureC :: "int option"
  airTemperatureC :: "int option"
  sessionTimeLeftSec :: "nat option"
  sessionDurationSec :: "nat option"
  pitSpeedLimitKph :: "nat option"
  currentLap :: "LapEntry option"
  laps :: "LapEntry list"
  raceCars :: "RaceCar list"
  playerCarIndex :: "nat option"
  raceBestSector1TimeMs :: "int option"
  raceBestSector2TimeMs :: "int option"
  raceBestSector3TimeMs :: "int option"
  raceBestSector1CarIndex :: "nat option"
  raceBestSector2CarIndex :: "nat option"
  raceBestSector3CarIndex :: "nat option"
  raceBestLapTimeMs :: "int option"
  raceBestLapCarIndex :: "nat option"
  raceBestLapNum :: "int option"
  currentCarStatus :: "CarStatus option"
  currentCarTelemetry :: "CarTelemetry option"
  currentPenalties :: "Penalties option"
  currentCarDamage :: "CarDamage option"

record PlayerState =
  sessionUID :: "nat option"
  currentLapNum :: "nat option"
  currentLapInvalid :: nat
  currentSector1TimeMs :: "int option"
  currentSector2TimeMs :: "int option"
  currentTyreActualCompound :: "nat option"
  currentTyreVisualCompound :: "nat option"
  currentTyresAgeLaps :: "nat option"
  pitLaneActive :: bool
  pitLaneStartLapNum :: "nat option"
  pitLaneMaxTimeMs :: int
  pitLanePitStatusMax :: nat

text \<open>The module's global variables, one field each.\<close>

record State =
  lapsState :: LapsState
  playerState :: PlayerState
  numActiveCars :: "nat option"
  raceBestSector1TimeMs :: "int option"
  raceBestSector2TimeMs :: "int option"
  raceBestSector3TimeMs :: "int option"
  raceBestSector1CarIndex :: "nat option"
  raceBestSector2CarIndex :: "nat option"
  raceBestSector3CarIndex :: "nat option"
  raceBestLapTimeMs :: "int option"
  raceBestLapCarIndex :: "nat option"
  raceBestLapNum :: "int option"
  pitLaneTimeByLap :: "(nat, int) jsmap"
  pitLaneStatusByLap :: "(nat, nat) jsmap"
  lapsByNumber :: "(nat, LapEntry) jsmap"
  tyreByLapStart :: "(nat, TyreSnapshot) jsmap"
  participantsNameByIndex :: "(nat, jsstring) jsmap"
  participantsTeamIdByIndex :: "(nat, nat) jsmap"
  participantsColorByIndex :: "(nat, Colour) jsmap"
  carStatusByIndex :: "(nat, CarStatus) jsmap"
  carTelemetryByIndex :: "(nat, CarTelemetry) jsmap"
  carDamageByIndex :: "(nat, CarDamage) jsmap"
  lapDataByIndex :: "(nat, LapData) jsmap"
  sectorCacheByIndex :: "(nat, SectorCache) jsmap"
  pitLaneStintByIndex :: "(nat, PitStint) jsmap"
  sessionHistoryByCarIndex :: "(nat, (nat, HistoryEntry) jsmap) jsmap"


section \<open>Helpers for JavaScript idioms\<close>

text \<open>\<^verbatim>\<open>a ?? b\<close> on values that may be \<^verbatim>\<open>null\<close>.\<close>

definition orElse :: "'a option \<Rightarrow> 'a option \<Rightarrow> 'a option" where
  "orElse x y = (case x of Some v \<Rightarrow> Some v | None \<Rightarrow> y)"

text \<open>\<^verbatim>\<open>best == null || x < best\<close>.\<close>

definition nullOrLess :: "int option \<Rightarrow> int \<Rightarrow> bool" where
  "nullOrLess best x = (case best of None \<Rightarrow> True | Some v \<Rightarrow> x < v)"

text \<open>A \<^verbatim>\<open>for\<close> loop whose body may throw: the first exception ends the loop.\<close>

fun forEachM :: "'a list \<Rightarrow> ('s \<Rightarrow> 'a \<Rightarrow> 's option) \<Rightarrow> 's \<Rightarrow> 's option" where
  "forEachM [] f s = Some s"
| "forEachM (x # xs) f s = (case f s x of None \<Rightarrow> None | Some s' \<Rightarrow> forEachM xs f s')"

text \<open>
  \<^verbatim>\<open>Array.prototype.sort(cmp)\<close> is stable; for a comparator that is a total preorder
  its result is the stable insertion sort below (\<open>cmp a b \<le> 0\<close>: \<open>a\<close> may stand before \<open>b\<close>).
\<close>

fun insertBy :: "('a \<Rightarrow> 'a \<Rightarrow> int) \<Rightarrow> 'a \<Rightarrow> 'a list \<Rightarrow> 'a list" where
  "insertBy cmp x [] = [x]"
| "insertBy cmp x (y # ys) = (if cmp x y \<le> 0 then x # y # ys else y # insertBy cmp x ys)"

definition sortBy :: "('a \<Rightarrow> 'a \<Rightarrow> int) \<Rightarrow> 'a list \<Rightarrow> 'a list" where
  "sortBy cmp xs = foldr (insertBy cmp) xs []"

text \<open>
  \<^verbatim>\<open>buf.toString('utf8')\<close> decodes UTF-8 and puts U+FFFD for every maximal ill-formed
  part: a byte that cannot start a sequence, a sequence cut short by a byte that cannot
  continue it (that byte is then read again as a first byte), and a sequence cut short by
  the end. \<open>cp\<close> is the code point so far, \<open>need\<close> the number of bytes still to come, \<open>lo\<close>
  and \<open>hi\<close> the bounds of the next byte.
\<close>

fun utf8Decode :: "nat \<Rightarrow> nat \<Rightarrow> nat \<Rightarrow> nat \<Rightarrow> nat list \<Rightarrow> jsstring" where
  "utf8Decode cp need lo hi [] = (if need = 0 then [] else [0xFFFD])"
| "utf8Decode cp need lo hi (x # xs) =
     (if need \<noteq> 0 \<and> lo \<le> x \<and> x \<le> hi then
        (if need = 1 then (cp * 64 + x mod 64) # utf8Decode 0 0 0x80 0xBF xs
         else utf8Decode (cp * 64 + x mod 64) (need - 1) 0x80 0xBF xs)
      else
        (if need = 0 then [] else [0xFFFD])
        @ (if x \<le> 0x7F then x # utf8Decode 0 0 0x80 0xBF xs
           else if 0xC2 \<le> x \<and> x \<le> 0xDF then utf8Decode (x mod 32) 1 0x80 0xBF xs
           else if 0xE0 \<le> x \<and> x \<le> 0xEF then
             utf8Decode (x mod 16) 2 (if x = 0xE0 then 0xA0 else 0x80)
               (if x = 0xED then 0x9F else 0xBF) xs
           else if 0xF0 \<le> x \<and> x \<le> 0xF4 then
             utf8Decode (x mod 8) 3 (if x = 0xF0 then 0x90 else 0x80)
               (if x = 0xF4 then 0x8F else 0xBF) xs
           else 0xFFFD # utf8Decode 0 0 0x80 0xBF xs))"

definition toStringUtf8 :: "byte list \<Rightarrow> jsstring" where
  "toStringUtf8 bytes = utf8Decode 0 0 0x80 0xBF (map unat bytes)"

text \<open>
  \<^verbatim>\<open>String.prototype.trim\<close> removes the ECMAScript WhiteSpace and LineTerminator code
  points from both ends.
\<close>

definition jsWhiteSpace :: "nat list" where
  "jsWhiteSpace =
     [0x09, 0x0A, 0x0B, 0x0C, 0x0D, 0x20, 0xA0, 0x1680, 0x2000, 0x2001, 0x2002, 0x2003,
      0x2004, 0x2005, 0x2006, 0x2007, 0x2008, 0x2009, 0x200A, 0x2028, 0x2029, 0x202F,
      0x205F, 0x3000, 0xFEFF]"

definition trimStart :: "jsstring \<Rightarrow> jsstring" where
  "trimStart xs = dropWhile (\<lambda>c. c \<in> set jsWhiteSpace) xs"

definition trimEnd :: "jsstring \<Rightarrow> jsstring" where
  "trimEnd xs = rev (dropWhile (\<lambda>c. c \<in> set jsWhiteSpace) (rev xs))"

definition trim :: "jsstring \<Rightarrow> jsstring" where
  "trim xs = trimEnd (trimStart xs)"

section \<open>Personal bests: recomputeFromLaps\<close>

definition syncLapsArrayFromMap :: "State \<Rightarrow> State" where
  "syncLapsArrayFromMap s =
     s\<lparr>lapsState := (lapsState s)\<lparr>laps := sort_key LapEntry.lapNumber (Map_values (lapsByNumber s))\<rparr>\<rparr>"

text \<open>
  The first loop of \<^verbatim>\<open>recomputeFromLaps\<close>: one step per ledger entry, on the five
  local variables \<^verbatim>\<open>bestLapTimeMs, bestLapNumber, bestS1, bestS2, bestS3\<close> (a local
  variable that has the name of a record field is written with a prime).
\<close>

type_synonym Bests = "int option \<times> nat option \<times> int option \<times> int option \<times> int option"

definition betterSector :: "int option \<Rightarrow> int option \<Rightarrow> int option" where
  "betterSector best x = (case x of None \<Rightarrow> best | Some v \<Rightarrow> if nullOrLess best v then Some v else best)"

fun recomputeStep :: "Bests \<Rightarrow> LapEntry \<Rightarrow> Bests" where
  "recomputeStep (bestLapTimeMs', bestLapNumber', bestS1, bestS2, bestS3) l =
     (case LapEntry.lapTimeMs l of
        None \<Rightarrow> (bestLapTimeMs', bestLapNumber', bestS1, bestS2, bestS3)
      | Some t \<Rightarrow>
          if \<not> LapEntry.valid l \<or> t \<le> 0 then (bestLapTimeMs', bestLapNumber', bestS1, bestS2, bestS3)
          else
            (if nullOrLess bestLapTimeMs' t then Some t else bestLapTimeMs',
             if nullOrLess bestLapTimeMs' t then Some (LapEntry.lapNumber l) else bestLapNumber',
             betterSector bestS1 (LapEntry.sector1TimeMs l),
             betterSector bestS2 (LapEntry.sector2TimeMs l),
             betterSector bestS3 (LapEntry.sector3TimeMs l)))"

text \<open>The second loop: \<^verbatim>\<open>isBest\<close> and \<^verbatim>\<open>deltaMs\<close> of one entry.\<close>

definition markLap :: "int option \<Rightarrow> LapEntry \<Rightarrow> LapEntry" where
  "markLap bestLapTimeMs' l =
     l\<lparr>LapEntry.isBest := (bestLapTimeMs' \<noteq> None \<and> LapEntry.valid l \<and> LapEntry.lapTimeMs l = bestLapTimeMs'),
       LapEntry.deltaMs :=
         (case (bestLapTimeMs', LapEntry.lapTimeMs l) of
            (Some best, Some t) \<Rightarrow> if LapEntry.valid l \<and> t > 0 then Some (t - best) else None
          | _ \<Rightarrow> None)\<rparr>"

definition recomputeFromLaps :: "State \<Rightarrow> State" where
  "recomputeFromLaps s =
     (case foldl recomputeStep (None, None, None, None, None) (Map_values (lapsByNumber s)) of
        (bestLapTimeMs', bestLapNumber', bestS1, bestS2, bestS3) \<Rightarrow>
          syncLapsArrayFromMap
            (s\<lparr>lapsState := (lapsState s)
                  \<lparr>LapsState.bestLapTimeMs := bestLapTimeMs',
                   bestLapNumber := bestLapNumber',
                   bestSector1TimeMs := bestS1,
                   bestSector2TimeMs := bestS2,
                   bestSector3TimeMs := bestS3\<rparr>,
                lapsByNumber := map (\<lambda>(k, l). (k, markLap bestLapTimeMs' l)) (lapsByNumber s)\<rparr>))"

section \<open>Session epoch: resetSessionState\<close>

definition freshLapsState :: LapsState where
  "freshLapsState =
     \<lparr>liveLapTimeMs = 0, liveDeltaToBestMs = None, bestLapTimeMs = None, bestLapNumber = None,
      bestSector1TimeMs = None, bestSector2TimeMs = None, bestSector3TimeMs = None,
      isConnected = True, sessionKind = None, sessionType = None, totalLaps = None,
      trackId = None, trackLengthM = None, formula = None, weather = None,
      trackTemperatureC = None, airTemperatureC = None, sessionTimeLeftSec = None,
      sessionDurationSec = None, pitSpeedLimitKph = None, currentLap = None, laps = [],
      raceCars = [], playerCarIndex = None, raceBestSector1TimeMs = None,
      raceBestSector2TimeMs = None, raceBestSector3TimeMs = None,
      raceBestSector1CarIndex = None, raceBestSector2CarIndex = None,
      raceBestSector3CarIndex = None, raceBestLapTimeMs = None, raceBestLapCarIndex = None,
      raceBestLapNum = None, currentCarStatus = None, currentCarTelemetry = None,
      currentPenalties = None, currentCarDamage = None\<rparr>"

text \<open>
  \<^verbatim>\<open>resetSessionState(sessionUID)\<close> assigns every field of \<^verbatim>\<open>playerState\<close>, clears every
  Map, sets every module variable to \<^verbatim>\<open>null\<close> and replaces \<^verbatim>\<open>lapsState\<close> by a new object.
\<close>

definition resetSessionState :: "State \<Rightarrow> nat \<Rightarrow> State" where
  "resetSessionState s uid =
     s\<lparr>playerState := (playerState s)
          \<lparr>PlayerState.sessionUID := Some uid,
           PlayerState.currentLapNum := None,
           PlayerState.currentLapInvalid := 0,
           currentSector1TimeMs := None,
           currentSector2TimeMs := None,
           currentTyreActualCompound := None,
           currentTyreVisualCompound := None,
           currentTyresAgeLaps := None,
           pitLaneActive := False,
           pitLaneStartLapNum := None,
           pitLaneMaxTimeMs := 0,
           pitLanePitStatusMax := 0\<rparr>,
       pitLaneTimeByLap := [],
       pitLaneStatusByLap := [],
       lapsByNumber := [],
       tyreByLapStart := [],
       participantsNameByIndex := [],
       participantsTeamIdByIndex := [],
       participantsColorByIndex := [],
       carStatusByIndex := [],
       carTelemetryByIndex := [],
       carDamageByIndex := [],
       lapDataByIndex := [],
       sectorCacheByIndex := [],
       pitLaneStintByIndex := [],
       sessionHistoryByCarIndex := [],
       numActiveCars := None,
       State.raceBestSector1TimeMs := None,
       State.raceBestSector2TimeMs := None,
       State.raceBestSector3TimeMs := None,
       State.raceBestSector1CarIndex := None,
       State.raceBestSector2CarIndex := None,
       State.raceBestSector3CarIndex := None,
       State.raceBestLapTimeMs := None,
       State.raceBestLapCarIndex := None,
       State.raceBestLapNum := None,
       lapsState := freshLapsState\<rparr>"

text \<open>
  The test every handler makes after reading the header:
  \<^verbatim>\<open>if (playerState.sessionUID === null || playerState.sessionUID !== header.sessionUID)
      resetSessionState(header.sessionUID)\<close>.
\<close>

definition resetIfNewSession :: "State \<Rightarrow> Header \<Rightarrow> State" where
  "resetIfNewSession s header =
     (if PlayerState.sessionUID (playerState s) = None
         \<or> PlayerState.sessionUID (playerState s) \<noteq> Some (Header.sessionUID header)
      then resetSessionState s (Header.sessionUID header) else s)"

text \<open>The state when the module is loaded.\<close>

definition initialState :: State where
  "initialState =
     \<lparr>lapsState = freshLapsState\<lparr>isConnected := False\<rparr>,
      playerState =
        \<lparr>PlayerState.sessionUID = None, currentLapNum = None, currentLapInvalid = 0,
         currentSector1TimeMs = None, currentSector2TimeMs = None,
         currentTyreActualCompound = None, currentTyreVisualCompound = None,
         currentTyresAgeLaps = None, pitLaneActive = False, pitLaneStartLapNum = None,
         pitLaneMaxTimeMs = 0, pitLanePitStatusMax = 0\<rparr>,
      numActiveCars = None,
      raceBestSector1TimeMs = None, raceBestSector2TimeMs = None, raceBestSector3TimeMs = None,
      raceBestSector1CarIndex = None, raceBestSector2CarIndex = None,
      raceBestSector3CarIndex = None, raceBestLapTimeMs = None, raceBestLapCarIndex = None,
      raceBestLapNum = None,
      pitLaneTimeByLap = [], pitLaneStatusByLap = [], lapsByNumber = [], tyreByLapStart = [],
      participantsNameByIndex = [], participantsTeamIdByIndex = [],
      participantsColorByIndex = [], carStatusByIndex = [], carTelemetryByIndex = [],
      carDamageByIndex = [], lapDataByIndex = [], sectorCacheByIndex = [],
      pitLaneStintByIndex = [], sessionHistoryByCarIndex = []\<rparr>"


section \<open>Record decoders\<close>

text \<open>
  A decoder returns \<open>Some None\<close> where the source returns \<^verbatim>\<open>null\<close> (too short),
  \<open>Some (Some x)\<close> where it returns a record, and \<open>None\<close> where a read throws.
\<close>

definition parseHeader :: "buffer \<Rightarrow> Header option option" where
  "parseHeader buf =
     (if length buf < HEADER_SIZE then Some None
      else do {
        packetFormat' \<leftarrow> readUInt16LE buf 0;
        gameYear' \<leftarrow> readUInt8 buf 2;
        gameMajorVersion' \<leftarrow> readUInt8 buf 3;
        gameMinorVersion' \<leftarrow> readUInt8 buf 4;
        packetVersion' \<leftarrow> readUInt8 buf 5;
        packetId' \<leftarrow> readUInt8 buf 6;
        sessionUID' \<leftarrow> readBigUInt64LE buf 7;
        sessionTime' \<leftarrow> readFloatLE buf 15;
        frameIdentifier' \<leftarrow> readUInt32LE buf 19;
        overallFrameIdentifier' \<leftarrow> readUInt32LE buf 23;
        playerCarIndex' \<leftarrow> readUInt8 buf 27;
        secondaryPlayerCarIndex' \<leftarrow> readUInt8 buf 28;
        Some (Some \<lparr>packetFormat = packetFormat', gameYear = gameYear',
          gameMajorVersion = gameMajorVersion', gameMinorVersion = gameMinorVersion',
          packetVersion = packetVersion', packetId = packetId', sessionUID = sessionUID',
          sessionTime = sessionTime', frameIdentifier = frameIdentifier',
          overallFrameIdentifier = overallFrameIdentifier', playerCarIndex = playerCarIndex',
          secondaryPlayerCarIndex = secondaryPlayerCarIndex'\<rparr>)
      })"

text \<open>The arrow function \<^verbatim>\<open>decodeMinutesMs\<close> of \<^verbatim>\<open>parseLapDataForCar\<close>.\<close>

definition decodeMinutesMs :: "nat \<Rightarrow> nat \<Rightarrow> int option" where
  "decodeMinutesMs msPart minutesPart =
     (if msPart = 65535 \<or> minutesPart = 255 then None
      else if msPart = 0 \<and> minutesPart = 0 then None
      else Some (int msPart + int minutesPart * 60 * 1000))"

definition parseLapDataForCar :: "buffer \<Rightarrow> nat \<Rightarrow> LapData option option" where
  "parseLapDataForCar buf baseOffset =
     (if length buf < baseOffset + LAP_DATA_SIZE then Some None
      else do {
        lastLapTimeInMS' \<leftarrow> readUInt32LE buf (baseOffset + 0);
        currentLapTimeInMS' \<leftarrow> readUInt32LE buf (baseOffset + 4);
        sector1TimeMSPart \<leftarrow> readUInt16LE buf (baseOffset + 8);
        sector1TimeMinutesPart \<leftarrow> readUInt8 buf (baseOffset + 10);
        sector2TimeMSPart \<leftarrow> readUInt16LE buf (baseOffset + 11);
        sector2TimeMinutesPart \<leftarrow> readUInt8 buf (baseOffset + 13);
        let sector1TimeMs' = decodeMinutesMs sector1TimeMSPart sector1TimeMinutesPart;
        let sector2TimeMs' = decodeMinutesMs sector2TimeMSPart sector2TimeMinutesPart;
        let sector3TimeMs' =
          (case (sector1TimeMs', sector2TimeMs') of
             (Some s1, Some s2) \<Rightarrow>
               if lastLapTimeInMS' > 0 \<and> int lastLapTimeInMS' - s1 - s2 \<ge> 0
               then Some (int lastLapTimeInMS' - s1 - s2) else None
           | _ \<Rightarrow> None);
        deltaToRaceLeaderMSPart \<leftarrow> readUInt16LE buf (baseOffset + 17);
        deltaToRaceLeaderMinutesPart \<leftarrow> readUInt8 buf (baseOffset + 19);
        let deltaToRaceLeaderMs' = decodeMinutesMs deltaToRaceLeaderMSPart deltaToRaceLeaderMinutesPart;
        deltaToCarInFrontMSPart \<leftarrow> readUInt16LE buf (baseOffset + 14);
        deltaToCarInFrontMinutesPart \<leftarrow> readUInt8 buf (baseOffset + 16);
        let deltaToCarInFrontMs' = decodeMinutesMs deltaToCarInFrontMSPart deltaToCarInFrontMinutesPart;
        lapDistance' \<leftarrow> readFloatLE buf (baseOffset + 20);
        totalDistance' \<leftarrow> readFloatLE buf (baseOffset + 24);
        safetyCarDelta' \<leftarrow> readFloatLE buf (baseOffset + 28);
        carPosition' \<leftarrow> readUInt8 buf (baseOffset + 32);
        currentLapNum' \<leftarrow> readUInt8 buf (baseOffset + 33);
        pitStatus' \<leftarrow> readUInt8 buf (baseOffset + 34);
        numPitStops' \<leftarrow> readUInt8 buf (baseOffset + 35);
        sector' \<leftarrow> readUInt8 buf (baseOffset + 36);
        currentLapInvalid' \<leftarrow> readUInt8 buf (baseOffset + 37);
        penaltiesSec' \<leftarrow> readUInt8 buf (baseOffset + 38);
        totalWarnings' \<leftarrow> readUInt8 buf (baseOffset + 39);
        cornerCuttingWarnings' \<leftarrow> readUInt8 buf (baseOffset + 40);
        numUnservedDriveThroughPens' \<leftarrow> readUInt8 buf (baseOffset + 41);
        numUnservedStopGoPens' \<leftarrow> readUInt8 buf (baseOffset + 42);
        gridPosition' \<leftarrow> readUInt8 buf (baseOffset + 43);
        driverStatus' \<leftarrow> readUInt8 buf (baseOffset + 44);
        resultStatus' \<leftarrow> readUInt8 buf (baseOffset + 45);
        pitLaneTimerActive' \<leftarrow> readUInt8 buf (baseOffset + 46);
        pitLaneTimeInLaneInMS' \<leftarrow> readUInt16LE buf (baseOffset + 47);
        pitStopTimerInMS' \<leftarrow> readUInt16LE buf (baseOffset + 49);
        pitStopShouldServePen' \<leftarrow> readUInt8 buf (baseOffset + 51);
        speedTrapFastestSpeed' \<leftarrow> readFloatLE buf (baseOffset + 52);
        speedTrapFastestLap' \<leftarrow> readUInt8 buf (baseOffset + 56);
        Some (Some \<lparr>lastLapTimeInMS = int lastLapTimeInMS',
          currentLapTimeInMS = int currentLapTimeInMS',
          sector1TimeMs = sector1TimeMs', sector2TimeMs = sector2TimeMs',
          sector3TimeMs = sector3TimeMs', deltaToRaceLeaderMs = deltaToRaceLeaderMs',
          deltaToCarInFrontMs = deltaToCarInFrontMs', lapDistance = lapDistance',
          totalDistance = totalDistance', safetyCarDelta = safetyCarDelta',
          carPosition = carPosition', currentLapNum = currentLapNum', pitStatus = pitStatus',
          numPitStops = numPitStops', sector = sector', currentLapInvalid = currentLapInvalid',
          penaltiesSec = penaltiesSec', totalWarnings = totalWarnings',
          cornerCuttingWarnings = cornerCuttingWarnings',
          numUnservedDriveThroughPens = numUnservedDriveThroughPens',
          numUnservedStopGoPens = numUnservedStopGoPens', gridPosition = gridPosition',
          driverStatus = driverStatus', resultStatus = resultStatus',
          pitLaneTimerActive = pitLaneTimerActive',
          pitLaneTimeInLaneInMS = int pitLaneTimeInLaneInMS',
          pitStopTimerInMS = int pitStopTimerInMS',
          pitStopShouldServePen = pitStopShouldServePen',
          speedTrapFastestSpeed = speedTrapFastestSpeed',
          speedTrapFastestLap = speedTrapFastestLap'\<rparr>)
      })"

text \<open>
  \<^verbatim>\<open>buf.subarray(a, b)\<close> clamps to the buffer and never throws; \<^verbatim>\<open>if (name)\<close> tests
  that the string is not empty.
\<close>

definition parseParticipantName :: "buffer \<Rightarrow> nat \<Rightarrow> jsstring" where
  "parseParticipantName buf baseOffset =
     (let nameOffset = baseOffset + 7;
          nameBuf = take 32 (drop nameOffset buf);
          sliced = takeWhile (\<lambda>x. x \<noteq> 0) nameBuf
      in trim (toStringUtf8 sliced))"

definition parseParticipantMeta :: "buffer \<Rightarrow> nat \<Rightarrow> ParticipantMeta option" where
  "parseParticipantMeta buf baseOffset =
     do {
       teamId' \<leftarrow> readUInt8 buf (baseOffset + 3);
       numColours' \<leftarrow> readUInt8 buf (baseOffset + 44);
       r' \<leftarrow> readUInt8 buf (baseOffset + 45);
       g' \<leftarrow> readUInt8 buf (baseOffset + 46);
       b' \<leftarrow> readUInt8 buf (baseOffset + 47);
       Some \<lparr>ParticipantMeta.teamId = teamId', numColours = numColours',
         colour = \<lparr>r = r', g = g', b = b'\<rparr>\<rparr>
     }"

text \<open>
  The two-part sector times of a history entry are decoded in place, with a test for
  zero only.
\<close>

definition parseLapHistoryEntry :: "buffer \<Rightarrow> nat \<Rightarrow> HistoryEntry option" where
  "parseLapHistoryEntry buf baseOffset =
     do {
       lapTimeMs' \<leftarrow> readUInt32LE buf (baseOffset + 0);
       s1ms \<leftarrow> readUInt16LE buf (baseOffset + 4);
       s1min \<leftarrow> readUInt8 buf (baseOffset + 6);
       s2ms \<leftarrow> readUInt16LE buf (baseOffset + 7);
       s2min \<leftarrow> readUInt8 buf (baseOffset + 9);
       s3ms \<leftarrow> readUInt16LE buf (baseOffset + 10);
       s3min \<leftarrow> readUInt8 buf (baseOffset + 12);
       validFlags' \<leftarrow> readUInt8 buf (baseOffset + 13);
       Some \<lparr>HistoryEntry.lapTimeMs = (if lapTimeMs' > 0 then Some (int lapTimeMs') else None),
         sector1TimeMs = (if s1ms \<noteq> 0 \<or> s1min \<noteq> 0 then Some (int s1ms + int s1min * 60 * 1000) else None),
         sector2TimeMs = (if s2ms \<noteq> 0 \<or> s2min \<noteq> 0 then Some (int s2ms + int s2min * 60 * 1000) else None),
         sector3TimeMs = (if s3ms \<noteq> 0 \<or> s3min \<noteq> 0 then Some (int s3ms + int s3min * 60 * 1000) else None),
         validFlags = validFlags'\<rparr>
     }"

definition parseCarStatusForCar :: "buffer \<Rightarrow> nat \<Rightarrow> CarStatus option option" where
  "parseCarStatusForCar buf baseOffset =
     (if length buf < baseOffset + CAR_STATUS_DATA_SIZE then Some None
      else do {
        tractionControl' \<leftarrow> readUInt8 buf baseOffset;
        antiLockBrakes' \<leftarrow> readUInt8 buf (baseOffset + 1);
        fuelMix' \<leftarrow> readUInt8 buf (baseOffset + 2);
        frontBrakeBias' \<leftarrow> readUInt8 buf (baseOffset + 3);
        pitLimiterStatus' \<leftarrow> readUInt8 buf (baseOffset + 4);
        fuelInTank' \<leftarrow> readFloatLE buf (baseOffset + 5);
        fuelCapacity' \<leftarrow> readFloatLE buf (baseOffset + 9);
        fuelRemainingLaps' \<leftarrow> readFloatLE buf (baseOffset + 13);
        maxRPM' \<leftarrow> readUInt16LE buf (baseOffset + 17);
        idleRPM' \<leftarrow> readUInt16LE buf (baseOffset + 19);
        maxGears' \<leftarrow> readUInt8 buf (baseOffset + 21);
        drsAllowed' \<leftarrow> readUInt8 buf (baseOffset + 22);
        drsActivationDistance' \<leftarrow> readUInt16LE buf (baseOffset + 23);
        actualTyreCompound' \<leftarrow> readUInt8 buf (baseOffset + 25);
        visualTyreCompound' \<leftarrow> readUInt8 buf (baseOffset + 26);
        tyresAgeLaps' \<leftarrow> readUInt8 buf (baseOffset + 27);
        vehicleFIAFlags' \<leftarrow> readInt8 buf (baseOffset + 28);
        enginePowerICE' \<leftarrow> readFloatLE buf (baseOffset + 29);
        enginePowerMGUK' \<leftarrow> readFloatLE buf (baseOffset + 33);
        ersStoreEnergy' \<leftarrow> readFloatLE buf (baseOffset + 37);
        ersDeployMode' \<leftarrow> readUInt8 buf (baseOffset + 41);
        ersHarvestedThisLapMGUK' \<leftarrow> readFloatLE buf (baseOffset + 42);
        ersHarvestedThisLapMGUH' \<leftarrow> readFloatLE buf (baseOffset + 46);
        ersDeployedThisLap' \<leftarrow> readFloatLE buf (baseOffset + 50);
        networkPaused' \<leftarrow> readUInt8 buf (baseOffset + 54);
        Some (Some \<lparr>tractionControl = tractionControl', antiLockBrakes = antiLockBrakes',
          fuelMix = fuelMix', frontBrakeBias = frontBrakeBias',
          pitLimiterStatus = pitLimiterStatus', fuelInTank = fuelInTank',
          fuelCapacity = fuelCapacity', fuelRemainingLaps = fuelRemainingLaps',
          maxRPM = maxRPM', idleRPM = idleRPM', maxGears = maxGears', drsAllowed = drsAllowed',
          drsActivationDistance = drsActivationDistance',
          actualTyreCompound = actualTyreCompound', visualTyreCompound = visualTyreCompound',
          tyresAgeLaps = tyresAgeLaps', vehicleFIAFlags = vehicleFIAFlags',
          enginePowerICE = enginePowerICE', enginePowerMGUK = enginePowerMGUK',
          ersStoreEnergy = ersStoreEnergy', ersDeployMode = ersDeployMode',
          ersHarvestedThisLapMGUK = ersHarvestedThisLapMGUK',
          ersHarvestedThisLapMGUH = ersHarvestedThisLapMGUH',
          ersDeployedThisLap = ersDeployedThisLap', networkPaused = networkPaused'\<rparr>)
      })"

text \<open>Four consecutive reads into an array literal.\<close>

definition read4UInt8 :: "buffer \<Rightarrow> nat \<Rightarrow> nat list option" where
  "read4UInt8 buf off =
     do {
       x0 \<leftarrow> readUInt8 buf off; x1 \<leftarrow> readUInt8 buf (off + 1);
       x2 \<leftarrow> readUInt8 buf (off + 2); x3 \<leftarrow> readUInt8 buf (off + 3);
       Some [x0, x1, x2, x3]
     }"

definition read4UInt16LE :: "buffer \<Rightarrow> nat \<Rightarrow> nat list option" where
  "read4UInt16LE buf off =
     do {
       x0 \<leftarrow> readUInt16LE buf off; x1 \<leftarrow> readUInt16LE buf (off + 2);
       x2 \<leftarrow> readUInt16LE buf (off + 4); x3 \<leftarrow> readUInt16LE buf (off + 6);
       Some [x0, x1, x2, x3]
     }"

definition read4FloatLE :: "buffer \<Rightarrow> nat \<Rightarrow> float32 list option" where
  "read4FloatLE buf off =
     do {
       x0 \<leftarrow> readFloatLE buf off; x1 \<leftarrow> readFloatLE buf (off + 4);
       x2 \<leftarrow> readFloatLE buf (off + 8); x3 \<leftarrow> readFloatLE buf (off + 12);
       Some [x0, x1, x2, x3]
     }"

definition parseCarTelemetryForCar :: "buffer \<Rightarrow> nat \<Rightarrow> CarTelemetry option option" where
  "parseCarTelemetryForCar buf baseOffset =
     (if length buf < baseOffset + CAR_TELEMETRY_DATA_SIZE then Some None
      else do {
        speedKph' \<leftarrow> readUInt16LE buf baseOffset;
        throttle' \<leftarrow> readFloatLE buf (baseOffset + 2);
        steer' \<leftarrow> readFloatLE buf (baseOffset + 6);
        brake' \<leftarrow> readFloatLE buf (baseOffset + 10);
        clutch' \<leftarrow> readUInt8 buf (baseOffset + 14);
        gear' \<leftarrow> readInt8 buf (baseOffset + 15);
        engineRPM' \<leftarrow> readUInt16LE buf (baseOffset + 16);
        drs' \<leftarrow> readUInt8 buf (baseOffset + 18);
        revLightsPercent' \<leftarrow> readUInt8 buf (baseOffset + 19);
        revLightsBitValue' \<leftarrow> readUInt16LE buf (baseOffset + 20);
        brakesTemperature' \<leftarrow> read4UInt16LE buf (baseOffset + 22);
        tyresSurfaceTemperature' \<leftarrow> read4UInt8 buf (baseOffset + 30);
        tyresInnerTemperature' \<leftarrow> read4UInt8 buf (baseOffset + 34);
        engineTemperature' \<leftarrow> readUInt16LE buf (baseOffset + 38);
        tyresPressure' \<leftarrow> read4FloatLE buf (baseOffset + 40);
        surfaceType' \<leftarrow> read4UInt8 buf (baseOffset + 56);
        Some (Some \<lparr>speedKph = speedKph', throttle = throttle', steer = steer', brake = brake',
          clutch = clutch', gear = gear', engineRPM = engineRPM', drs = drs',
          revLightsPercent = revLightsPercent', revLightsBitValue = revLightsBitValue',
          brakesTemperature = brakesTemperature',
          tyresSurfaceTemperature = tyresSurfaceTemperature',
          tyresInnerTemperature = tyresInnerTemperature',
          engineTemperature = engineTemperature', tyresPressure = tyresPressure',
          surfaceType = surfaceType'\<rparr>)
      })"

text \<open>
  \<^verbatim>\<open>parseCarDamageForCar\<close> checks the buffer against
  \<^verbatim>\<open>needed = Math.min(CAR_DAMAGE_DATA_SIZE, perCarSize || 0)\<close> bytes and then reads all
  46 bytes of the record. \<^verbatim>\<open>Math.floor((buf.length - HEADER_SIZE) / NUM_CARS)\<close> is the
  floor division of integers.
\<close>

definition parseCarDamageForCar :: "buffer \<Rightarrow> nat \<Rightarrow> CarDamage option option" where
  "parseCarDamageForCar buf baseOffset =
     (let perCarSize = (int (length buf) - int HEADER_SIZE) div int NUM_CARS;
          needed = min (int CAR_DAMAGE_DATA_SIZE) perCarSize
      in if needed \<le> 0 then Some None
         else if int (length buf) < int baseOffset + needed then Some None
         else do {
           tyresWear' \<leftarrow> read4FloatLE buf baseOffset;
           tyresDamage' \<leftarrow> read4UInt8 buf (baseOffset + 16);
           brakesDamage' \<leftarrow> read4UInt8 buf (baseOffset + 20);
           tyreBlisters' \<leftarrow> read4UInt8 buf (baseOffset + 24);
           frontLeftWingDamage' \<leftarrow> readUInt8 buf (baseOffset + 28);
           frontRightWingDamage' \<leftarrow> readUInt8 buf (baseOffset + 29);
           rearWingDamage' \<leftarrow> readUInt8 buf (baseOffset + 30);
           floorDamage' \<leftarrow> readUInt8 buf (baseOffset + 31);
           diffuserDamage' \<leftarrow> readUInt8 buf (baseOffset + 32);
           sidepodDamage' \<leftarrow> readUInt8 buf (baseOffset + 33);
           drsFault' \<leftarrow> readUInt8 buf (baseOffset + 34);
           ersFault' \<leftarrow> readUInt8 buf (baseOffset + 35);
           gearBoxDamage' \<leftarrow> readUInt8 buf (baseOffset + 36);
           engineDamage' \<leftarrow> readUInt8 buf (baseOffset + 37);
           engineMGUHWear' \<leftarrow> readUInt8 buf (baseOffset + 38);
           engineESWear' \<leftarrow> readUInt8 buf (baseOffset + 39);
           engineCEWear' \<leftarrow> readUInt8 buf (baseOffset + 40);
           engineICEWear' \<leftarrow> readUInt8 buf (baseOffset + 41);
           engineMGUKWear' \<leftarrow> readUInt8 buf (baseOffset + 42);
           engineTCWear' \<leftarrow> readUInt8 buf (baseOffset + 43);
           engineBlown' \<leftarrow> readUInt8 buf (baseOffset + 44);
           engineSeized' \<leftarrow> readUInt8 buf (baseOffset + 45);
           Some (Some \<lparr>tyresWear = tyresWear', tyresDamage = tyresDamage',
             brakesDamage = brakesDamage', tyreBlisters = tyreBlisters',
             frontLeftWingDamage = frontLeftWingDamage',
             frontRightWingDamage = frontRightWingDamage', rearWingDamage = rearWingDamage',
             floorDamage = floorDamage', diffuserDamage = diffuserDamage',
             sidepodDamage = sidepodDamage', drsFault = drsFault', ersFault = ersFault',
             gearBoxDamage = gearBoxDamage', engineDamage = engineDamage',
             engineMGUHWear = engineMGUHWear', engineESWear = engineESWear',
             engineCEWear = engineCEWear', engineICEWear = engineICEWear',
             engineMGUKWear = engineMGUKWear', engineTCWear = engineTCWear',
             engineBlown = engineBlown', engineSeized = engineSeized'\<rparr>)
         })"


section \<open>Packet handlers\<close>

text \<open>
  A handler takes the module state and the datagram and returns the new state; \<open>None\<close>
  is an exception that leaves the handler. \<^verbatim>\<open>broadcastState()\<close> sends \<^verbatim>\<open>lapsState\<close>
  as it stands to the viewers: it is the last statement of \<^verbatim>\<open>handleLapDataPacket\<close> and
  of \<^verbatim>\<open>handleCarDamagePacket\<close>, so what they publish is the \<open>lapsState\<close> they return.
\<close>

subsection \<open>Participants\<close>

definition participantStep :: "buffer \<Rightarrow> nat \<Rightarrow> State \<Rightarrow> nat \<Rightarrow> State option" where
  "participantStep buf base s i =
     (let off = base + i * PARTICIPANT_DATA_SIZE;
          name' = parseParticipantName buf off
      in if name' \<noteq> [] then
           do {
             meta \<leftarrow> parseParticipantMeta buf off;
             Some (s\<lparr>participantsNameByIndex := Map_set (participantsNameByIndex s) i name',
                     participantsTeamIdByIndex :=
                       Map_set (participantsTeamIdByIndex s) i (ParticipantMeta.teamId meta),
                     participantsColorByIndex :=
                       Map_set (participantsColorByIndex s) i (colour meta)\<rparr>)
           }
         else Some s)"

definition handleParticipantsPacket :: "State \<Rightarrow> buffer \<Rightarrow> State option" where
  "handleParticipantsPacket s0 buf =
     do {
       hdr \<leftarrow> parseHeader buf;
       case hdr of
         None \<Rightarrow> Some s0
       | Some header \<Rightarrow>
           do {
             let s1 = resetIfNewSession s0 header;
             n \<leftarrow> readUInt8 buf HEADER_SIZE;
             let s2 = s1\<lparr>numActiveCars := Some n\<rparr>;
             let base = HEADER_SIZE + 1;
             if length buf < base + NUM_CARS * PARTICIPANT_DATA_SIZE then Some s2
             else forEachM [0..<NUM_CARS] (participantStep buf base) s2
           }
     }"

subsection \<open>Session history\<close>

text \<open>The loop that fills \<^verbatim>\<open>byLap\<close>; it ends at the first entry that is not whole.\<close>

fun readLapHistory :: "buffer \<Rightarrow> nat \<Rightarrow> nat list \<Rightarrow> (nat, HistoryEntry) jsmap
    \<Rightarrow> (nat, HistoryEntry) jsmap option" where
  "readLapHistory buf lapHistoryBase [] byLap = Some byLap"
| "readLapHistory buf lapHistoryBase (i # rest) byLap =
     (let off = lapHistoryBase + i * LAP_HISTORY_DATA_SIZE
      in if off + LAP_HISTORY_DATA_SIZE > length buf then Some byLap
         else do {
           entry \<leftarrow> parseLapHistoryEntry buf off;
           readLapHistory buf lapHistoryBase rest (Map_set byLap (i + 1) entry)
         })"

text \<open>
  The loop over \<^verbatim>\<open>byLap.entries()\<close> for the player's car: an entry of the ledger is
  overwritten only when the history entry has a lap time.
\<close>

definition overrideLapFromHistory :: "State \<Rightarrow> nat \<times> HistoryEntry \<Rightarrow> State" where
  "overrideLapFromHistory s kv =
     (case kv of (lapNum, entry) \<Rightarrow>
        (case Map_get (lapsByNumber s) lapNum of
           None \<Rightarrow> s
         | Some l \<Rightarrow>
             (case HistoryEntry.lapTimeMs entry of
                None \<Rightarrow> s
              | Some t \<Rightarrow>
                  s\<lparr>lapsByNumber := Map_set (lapsByNumber s) lapNum
                      (l\<lparr>LapEntry.lapTimeMs := Some t,
                         LapEntry.sector1TimeMs := HistoryEntry.sector1TimeMs entry,
                         LapEntry.sector2TimeMs := HistoryEntry.sector2TimeMs entry,
                         LapEntry.sector3TimeMs := HistoryEntry.sector3TimeMs entry\<rparr>)\<rparr>)))"

definition applyPlayerHistory :: "State \<Rightarrow> (nat, HistoryEntry) jsmap \<Rightarrow> State" where
  "applyPlayerHistory s byLap = recomputeFromLaps (foldl overrideLapFromHistory s byLap)"

definition handleSessionHistoryPacket :: "State \<Rightarrow> buffer \<Rightarrow> State option" where
  "handleSessionHistoryPacket s0 buf =
     do {
       hdr \<leftarrow> parseHeader buf;
       case hdr of
         None \<Rightarrow> Some s0
       | Some header \<Rightarrow>
           (let s1 = resetIfNewSession s0 header
            in if length buf < HEADER_SIZE + 7 then Some s1
               else do {
                 carIdx \<leftarrow> readUInt8 buf (HEADER_SIZE + 0);
                 numLaps \<leftarrow> readUInt8 buf (HEADER_SIZE + 1);
                 let lapHistoryBase = HEADER_SIZE + 7;
                 if length buf < lapHistoryBase + LAP_HISTORY_DATA_SIZE then Some s1
                 else do {
                   let lapsToRead = min numLaps 100;
                   byLap \<leftarrow> readLapHistory buf lapHistoryBase [0..<lapsToRead] [];
                   let s2 = s1\<lparr>sessionHistoryByCarIndex :=
                                 Map_set (sessionHistoryByCarIndex s1) carIdx byLap\<rparr>;
                   Some (if carIdx = Header.playerCarIndex header
                         then applyPlayerHistory s2 byLap else s2)
                 }
               })
     }"

subsection \<open>Car status\<close>

definition carStatusStep :: "buffer \<Rightarrow> State \<Rightarrow> nat \<Rightarrow> State option" where
  "carStatusStep buf s i =
     do {
       status \<leftarrow> parseCarStatusForCar buf (HEADER_SIZE + i * CAR_STATUS_DATA_SIZE);
       Some (case status of
               None \<Rightarrow> s
             | Some st \<Rightarrow> s\<lparr>carStatusByIndex := Map_set (carStatusByIndex s) i st\<rparr>)
     }"

definition playerTyresFromStatus :: "State \<Rightarrow> nat \<Rightarrow> State" where
  "playerTyresFromStatus s playerCarIndex' =
     (if playerCarIndex' < NUM_CARS then
        (case Map_get (carStatusByIndex s) playerCarIndex' of
           None \<Rightarrow> s
         | Some ps \<Rightarrow>
             s\<lparr>playerState := (playerState s)
                  \<lparr>currentTyreActualCompound := Some (actualTyreCompound ps),
                   currentTyreVisualCompound := Some (visualTyreCompound ps),
                   currentTyresAgeLaps := Some (CarStatus.tyresAgeLaps ps)\<rparr>,
               lapsState := (lapsState s)\<lparr>currentCarStatus := Some ps\<rparr>\<rparr>)
      else s)"

definition currentTyres :: "State \<Rightarrow> TyreSnapshot" where
  "currentTyres s =
     \<lparr>TyreSnapshot.tyreActualCompound = currentTyreActualCompound (playerState s),
      tyreVisualCompound = currentTyreVisualCompound (playerState s),
      tyresAgeLaps = currentTyresAgeLaps (playerState s)\<rparr>"

text \<open>The back-fill of the tyre snapshot of the current lap (the last block of the handler).\<close>

definition backfillTyreAtLapStart :: "State \<Rightarrow> State" where
  "backfillTyreAtLapStart s =
     (case PlayerState.currentLapNum (playerState s) of
        None \<Rightarrow> s
      | Some lapNum \<Rightarrow>
          (let existing = Map_get (tyreByLapStart s) lapNum
           in if (case existing of
                    None \<Rightarrow> True
                  | Some e \<Rightarrow>
                      (TyreSnapshot.tyreVisualCompound e = None
                         \<and> currentTyreVisualCompound (playerState s) \<noteq> None)
                      \<or> (TyreSnapshot.tyreActualCompound e = None
                         \<and> currentTyreActualCompound (playerState s) \<noteq> None))
              then s\<lparr>tyreByLapStart := Map_set (tyreByLapStart s) lapNum (currentTyres s)\<rparr>
              else s))"

definition handleCarStatusPacket :: "State \<Rightarrow> buffer \<Rightarrow> State option" where
  "handleCarStatusPacket s0 buf =
     do {
       hdr \<leftarrow> parseHeader buf;
       case hdr of
         None \<Rightarrow> Some s0
       | Some header \<Rightarrow>
           do {
             let s1 = resetIfNewSession s0 header;
             s2 \<leftarrow> forEachM [0..<NUM_CARS] (carStatusStep buf) s1;
             let s3 = playerTyresFromStatus s2 (Header.playerCarIndex header);
             Some (backfillTyreAtLapStart s3)
           }
     }"

subsection \<open>Car telemetry and car damage\<close>

definition carTelemetryStep :: "buffer \<Rightarrow> State \<Rightarrow> nat \<Rightarrow> State option" where
  "carTelemetryStep buf s i =
     do {
       tel \<leftarrow> parseCarTelemetryForCar buf (HEADER_SIZE + i * CAR_TELEMETRY_DATA_SIZE);
       Some (case tel of
               None \<Rightarrow> s
             | Some t \<Rightarrow> s\<lparr>carTelemetryByIndex := Map_set (carTelemetryByIndex s) i t\<rparr>)
     }"

definition handleCarTelemetryPacket :: "State \<Rightarrow> buffer \<Rightarrow> State option" where
  "handleCarTelemetryPacket s0 buf =
     do {
       hdr \<leftarrow> parseHeader buf;
       case hdr of
         None \<Rightarrow> Some s0
       | Some header \<Rightarrow>
           do {
             let s1 = resetIfNewSession s0 header;
             s2 \<leftarrow> forEachM [0..<NUM_CARS] (carTelemetryStep buf) s1;
             Some (if Header.playerCarIndex header < NUM_CARS then
                     (case Map_get (carTelemetryByIndex s2) (Header.playerCarIndex header) of
                        None \<Rightarrow> s2
                      | Some t \<Rightarrow> s2\<lparr>lapsState := (lapsState s2)\<lparr>currentCarTelemetry := Some t\<rparr>\<rparr>)
                   else s2)
           }
     }"

definition carDamageStep :: "buffer \<Rightarrow> State \<Rightarrow> nat \<Rightarrow> State option" where
  "carDamageStep buf s i =
     do {
       dmg \<leftarrow> parseCarDamageForCar buf (HEADER_SIZE + i * CAR_DAMAGE_DATA_SIZE);
       Some (case dmg of
               None \<Rightarrow> s
             | Some d \<Rightarrow> s\<lparr>carDamageByIndex := Map_set (carDamageByIndex s) i d\<rparr>)
     }"

definition handleCarDamagePacket :: "State \<Rightarrow> buffer \<Rightarrow> State option" where
  "handleCarDamagePacket s0 buf =
     do {
       hdr \<leftarrow> parseHeader buf;
       case hdr of
         None \<Rightarrow> Some s0
       | Some header \<Rightarrow>
           do {
             let s1 = resetIfNewSession s0 header;
             s2 \<leftarrow> forEachM [0..<NUM_CARS] (carDamageStep buf) s1;
             Some (if Header.playerCarIndex header < NUM_CARS then
                     (case Map_get (carDamageByIndex s2) (Header.playerCarIndex header) of
                        None \<Rightarrow> s2
                      | Some d \<Rightarrow> s2\<lparr>lapsState := (lapsState s2)\<lparr>currentCarDamage := Some d\<rparr>\<rparr>)
                   else s2)
           }
     }"

subsection \<open>Session metadata\<close>

definition classifySession :: "nat \<Rightarrow> nat \<Rightarrow> SessionKind" where
  "classifySession sessionType' totalLaps' =
     (let isPractice = (sessionType' \<ge> 1 \<and> sessionType' \<le> 4);
          isQuali = (sessionType' \<ge> 5 \<and> sessionType' \<le> 9);
          isTimeTrial = (sessionType' = 12);
          isRaceLike = (sessionType' = 10 \<or> sessionType' = 11 \<or> sessionType' = 13
                        \<or> sessionType' = 14 \<or> sessionType' = 15)
      in if isTimeTrial then time_trial
         else if isRaceLike then race
         else if isPractice \<or> isQuali then time_attack
         else if totalLaps' > 0 then race else time_attack)"

definition handleSessionPacket :: "State \<Rightarrow> buffer \<Rightarrow> State option" where
  "handleSessionPacket s0 buf =
     do {
       hdr \<leftarrow> parseHeader buf;
       case hdr of
         None \<Rightarrow> Some s0
       | Some header \<Rightarrow>
           (let s1 = resetIfNewSession s0 header
            in if length buf < HEADER_SIZE + 14 then Some s1
               else do {
                 totalLaps' \<leftarrow> readUInt8 buf (HEADER_SIZE + 3);
                 sessionType' \<leftarrow> readUInt8 buf (HEADER_SIZE + 6);
                 trackLengthM' \<leftarrow> readUInt16LE buf (HEADER_SIZE + 4);
                 trackId' \<leftarrow> readInt8 buf (HEADER_SIZE + 7);
                 weather' \<leftarrow> readUInt8 buf (HEADER_SIZE + 0);
                 trackTemperatureC' \<leftarrow> readInt8 buf (HEADER_SIZE + 1);
                 airTemperatureC' \<leftarrow> readInt8 buf (HEADER_SIZE + 2);
                 formula' \<leftarrow> readUInt8 buf (HEADER_SIZE + 8);
                 sessionTimeLeftSec' \<leftarrow> readUInt16LE buf (HEADER_SIZE + 9);
                 sessionDurationSec' \<leftarrow> readUInt16LE buf (HEADER_SIZE + 11);
                 pitSpeedLimitKph' \<leftarrow> readUInt8 buf (HEADER_SIZE + 13);
                 Some (s1\<lparr>lapsState := (lapsState s1)
                         \<lparr>totalLaps := Some totalLaps',
                          sessionType := Some sessionType',
                          trackLengthM := Some trackLengthM',
                          trackId := Some trackId',
                          weather := Some weather',
                          trackTemperatureC := Some trackTemperatureC',
                          airTemperatureC := Some airTemperatureC',
                          formula := Some formula',
                          sessionTimeLeftSec := Some sessionTimeLeftSec',
                          sessionDurationSec := Some sessionDurationSec',
                          pitSpeedLimitKph := Some pitSpeedLimitKph',
                          sessionKind := Some (classifySession sessionType' totalLaps')\<rparr>\<rparr>)
               })
     }"


subsection \<open>Lap data: the loop over the cars\<close>

definition defaultPitStint :: PitStint where
  "defaultPitStint =
     \<lparr>active = False, startLapNum = None, maxTimeMs = 0, statusMax = 0, lastTimeMs = None,
      lastStatusMax = 0, lastLapNum = None\<rparr>"

definition pitStintStep :: "PitStint \<Rightarrow> LapData \<Rightarrow> PitStint" where
  "pitStintStep pitPrev lap =
     (if pitLaneTimerActive lap = 1 then
        (let p1 = (if \<not> active pitPrev
                   then pitPrev\<lparr>active := True, startLapNum := Some (LapData.currentLapNum lap),
                                maxTimeMs := 0, statusMax := 0\<rparr>
                   else pitPrev);
             p2 = (if pitLaneTimeInLaneInMS lap > 0
                   then p1\<lparr>maxTimeMs := max (maxTimeMs p1) (pitLaneTimeInLaneInMS lap)\<rparr>
                   else p1);
             p3 = (if LapData.pitStatus lap > 0
                   then p2\<lparr>statusMax := max (statusMax p2) (LapData.pitStatus lap)\<rparr>
                   else p2)
         in p3)
      else if active pitPrev then
        pitPrev\<lparr>active := False,
                lastTimeMs := (if maxTimeMs pitPrev > 0 then Some (maxTimeMs pitPrev) else None),
                lastStatusMax := statusMax pitPrev,
                lastLapNum := startLapNum pitPrev,
                startLapNum := None,
                maxTimeMs := 0,
                statusMax := 0\<rparr>
      else pitPrev)"

definition updateCarFromLapData :: "State \<Rightarrow> nat \<Rightarrow> LapData \<Rightarrow> State" where
  "updateCarFromLapData s i lap =
     (let pitPrev = (case Map_get (pitLaneStintByIndex s) i of
                       Some p \<Rightarrow> p | None \<Rightarrow> defaultPitStint);
          prev = (case Map_get (sectorCacheByIndex s) i of
                    Some c \<Rightarrow> c
                  | None \<Rightarrow> \<lparr>SectorCache.sector1TimeMs = None, sector2TimeMs = None,
                              sector3TimeMs = None\<rparr>);
          next = \<lparr>SectorCache.sector1TimeMs =
                    orElse (LapData.sector1TimeMs lap) (SectorCache.sector1TimeMs prev),
                  sector2TimeMs =
                    orElse (LapData.sector2TimeMs lap) (SectorCache.sector2TimeMs prev),
                  sector3TimeMs =
                    orElse (LapData.sector3TimeMs lap) (SectorCache.sector3TimeMs prev)\<rparr>
      in s\<lparr>pitLaneStintByIndex := Map_set (pitLaneStintByIndex s) i (pitStintStep pitPrev lap),
           sectorCacheByIndex := Map_set (sectorCacheByIndex s) i next,
           lapDataByIndex := Map_set (lapDataByIndex s) i
             (lap\<lparr>LapData.sector1TimeMs := SectorCache.sector1TimeMs next,
                  LapData.sector2TimeMs := SectorCache.sector2TimeMs next,
                  LapData.sector3TimeMs := SectorCache.sector3TimeMs next\<rparr>)\<rparr>)"

definition lapDataStep :: "buffer \<Rightarrow> State \<Rightarrow> nat \<Rightarrow> State option" where
  "lapDataStep buf s i =
     do {
       lap \<leftarrow> parseLapDataForCar buf (HEADER_SIZE + i * LAP_DATA_SIZE);
       Some (case lap of None \<Rightarrow> s | Some l \<Rightarrow> updateCarFromLapData s i l)
     }"

subsection \<open>Lap data: the leaderboard\<close>

text \<open>The callback of \<^verbatim>\<open>.filter\<close> on the entries of \<^verbatim>\<open>lapDataByIndex\<close>.\<close>

definition raceCarFilter :: "State \<Rightarrow> nat \<Rightarrow> nat \<times> LapData \<Rightarrow> bool" where
  "raceCarFilter s playerCarIndex' kv =
     (case kv of (carIndex', lap) \<Rightarrow>
        (case Map_get (participantsNameByIndex s) carIndex' of
           None \<Rightarrow> False
         | Some name' \<Rightarrow>
             if name' = [] then False
             else if carIndex' = playerCarIndex' then True
             else if (case numActiveCars s of
                        None \<Rightarrow> False
                      | Some n \<Rightarrow> n > 0 \<and> carIndex' \<ge> n) then False
             else if resultStatus lap = 0 then False
             else True))"

text \<open>
  The loop over the history of one car inside \<^verbatim>\<open>.map\<close>: the best valid lap and its
  sectors, on \<^verbatim>\<open>bestLapTimeMs, bestLapNum, bestS1, bestS2, bestS3\<close>.
\<close>

definition historyBestStep :: "Bests \<Rightarrow> nat \<times> HistoryEntry \<Rightarrow> Bests" where
  "historyBestStep acc kv =
     (case kv of (lapNum, entry) \<Rightarrow>
        (case HistoryEntry.lapTimeMs entry of
           None \<Rightarrow> acc
         | Some t \<Rightarrow>
             if t \<le> 0 then acc
             else if (validFlags entry AND 1) = 0 then acc
             else if nullOrLess (fst acc) t then
               (Some t, Some lapNum, HistoryEntry.sector1TimeMs entry,
                HistoryEntry.sector2TimeMs entry, HistoryEntry.sector3TimeMs entry)
             else acc))"

text \<open>The callback of \<^verbatim>\<open>.map\<close>: one row of the leaderboard.\<close>

definition toRaceCar :: "State \<Rightarrow> nat \<times> LapData \<Rightarrow> RaceCar" where
  "toRaceCar s kv =
     (case kv of (carIndex', lap) \<Rightarrow>
        (let cs = Map_get (carStatusByIndex s) carIndex';
             pit = Map_get (pitLaneStintByIndex s) carIndex';
             pitLaneTimeMs' =
               (case pit of
                  None \<Rightarrow> None
                | Some p \<Rightarrow> if active p then (if maxTimeMs p > 0 then Some (maxTimeMs p) else None)
                            else lastTimeMs p);
             pitStatusMax =
               (case pit of
                  None \<Rightarrow> 0
                | Some p \<Rightarrow> if active p then statusMax p else lastStatusMax p);
             sh = Map_get (sessionHistoryByCarIndex s) carIndex';
             shLast = (if LapData.currentLapNum lap > 0
                       then (case sh of None \<Rightarrow> None
                                      | Some h \<Rightarrow> Map_get h (LapData.currentLapNum lap - 1))
                       else None)
         in case foldl historyBestStep (None, None, None, None, None)
                   (case sh of None \<Rightarrow> [] | Some h \<Rightarrow> h) of
              (bestLapTimeMs', bestLapNum', bestS1, bestS2, bestS3) \<Rightarrow>
                (let isTimeAttack = (sessionKind (lapsState s) = Some time_attack)
                 in \<lparr>carIndex = carIndex',
                     name = Map_get (participantsNameByIndex s) carIndex',
                     teamId = Map_get (participantsTeamIdByIndex s) carIndex',
                     teamColour = Map_get (participantsColorByIndex s) carIndex',
                     position = carPosition lap,
                     lapNumber = LapData.currentLapNum lap,
                     lapTimeMs =
                       (if isTimeAttack then bestLapTimeMs'
                        else orElse (case shLast of None \<Rightarrow> None
                                                  | Some e \<Rightarrow> HistoryEntry.lapTimeMs e)
                               (if lastLapTimeInMS lap > 0 then Some (lastLapTimeInMS lap)
                                else None)),
                     bestLapTimeMs = bestLapTimeMs',
                     bestLapNum = bestLapNum',
                     gapToLeaderMs = deltaToRaceLeaderMs lap,
                     gapToCarAheadMs = deltaToCarInFrontMs lap,
                     sector1TimeMs =
                       (if isTimeAttack then bestS1
                        else orElse (case shLast of None \<Rightarrow> None
                                                  | Some e \<Rightarrow> HistoryEntry.sector1TimeMs e)
                               (LapData.sector1TimeMs lap)),
                     sector2TimeMs =
                       (if isTimeAttack then bestS2
                        else orElse (case shLast of None \<Rightarrow> None
                                                  | Some e \<Rightarrow> HistoryEntry.sector2TimeMs e)
                               (LapData.sector2TimeMs lap)),
                     sector3TimeMs =
                       (if isTimeAttack then bestS3
                        else orElse (case shLast of None \<Rightarrow> None
                                                  | Some e \<Rightarrow> HistoryEntry.sector3TimeMs e)
                               (LapData.sector3TimeMs lap)),
                     tyreActualCompound = map_option actualTyreCompound cs,
                     tyreVisualCompound = map_option visualTyreCompound cs,
                     tyresAgeLaps = map_option CarStatus.tyresAgeLaps cs,
                     pitStatus = pitStatusMax,
                     pitLaneTimeMs = pitLaneTimeMs',
                     stops = LapData.numPitStops lap,
                     lapDistance = LapData.lapDistance lap\<rparr>)))"

definition raceCarsRaw :: "State \<Rightarrow> nat \<Rightarrow> RaceCar list" where
  "raceCarsRaw s playerCarIndex' =
     map (toRaceCar s) (filter (raceCarFilter s playerCarIndex') (lapDataByIndex s))"

text \<open>
  The comparators of the two sorts. \<^verbatim>\<open>a.lapTimeMs ?? Number.POSITIVE_INFINITY\<close>: an
  absent time is later than every time, and two absent times are equal; only the sign
  of a comparator's result is used.
\<close>

definition cmpTimeAttack :: "RaceCar \<Rightarrow> RaceCar \<Rightarrow> int" where
  "cmpTimeAttack x y =
     (case (RaceCar.lapTimeMs x, RaceCar.lapTimeMs y) of
        (Some at, Some bt) \<Rightarrow> if at \<noteq> bt then at - bt else int (position x) - int (position y)
      | (Some at, None) \<Rightarrow> - 1
      | (None, Some bt) \<Rightarrow> 1
      | (None, None) \<Rightarrow> int (position x) - int (position y))"

definition cmpPosition :: "RaceCar \<Rightarrow> RaceCar \<Rightarrow> int" where
  "cmpPosition x y = int (position x) - int (position y)"

text \<open>
  The loops that set \<^verbatim>\<open>gapToCarAheadMs\<close> along the sorted array; the first argument is
  \<^verbatim>\<open>sorted[i - 1]\<close>, \<open>None\<close> at \<open>i = 0\<close>.
\<close>

fun gapsTimeAttack :: "RaceCar option \<Rightarrow> RaceCar list \<Rightarrow> RaceCar list" where
  "gapsTimeAttack prev [] = []"
| "gapsTimeAttack prev (cur # rest) =
     (let cur' = cur\<lparr>gapToCarAheadMs :=
                       (case prev of
                          None \<Rightarrow> None
                        | Some p \<Rightarrow>
                            (case (RaceCar.lapTimeMs cur, RaceCar.lapTimeMs p) of
                               (Some c, Some q) \<Rightarrow> Some (c - q)
                             | _ \<Rightarrow> None))\<rparr>
      in cur' # gapsTimeAttack (Some cur') rest)"

fun gapsRace :: "RaceCar option \<Rightarrow> RaceCar list \<Rightarrow> RaceCar list" where
  "gapsRace prev [] = []"
| "gapsRace prev (cur # rest) =
     (let cur' =
            (if position cur = 1 then cur\<lparr>gapToCarAheadMs := None\<rparr>
             else (case (gapToCarAheadMs cur, gapToLeaderMs cur,
                         case prev of None \<Rightarrow> None | Some p \<Rightarrow> gapToLeaderMs p) of
                     (None, Some c, Some q) \<Rightarrow>
                       cur\<lparr>gapToCarAheadMs := (if c - q \<ge> 0 then Some (c - q) else None)\<rparr>
                   | _ \<Rightarrow> cur))
      in cur' # gapsRace (Some cur') rest)"

definition withGaps :: "State \<Rightarrow> RaceCar list \<Rightarrow> RaceCar list" where
  "withGaps s raw =
     (let sorted =
            (if sessionKind (lapsState s) = Some time_attack
             then gapsTimeAttack None (sortBy cmpTimeAttack raw)
             else gapsRace None (sortBy cmpPosition raw));
          byCarIndex = foldl (\<lambda>m c. Map_set m (carIndex c) c) [] sorted
      in map (\<lambda>c. case Map_get byCarIndex (carIndex c) of Some c' \<Rightarrow> c' | None \<Rightarrow> c) raw)"

text \<open>
  The loop over \<^verbatim>\<open>raceCars\<close> that updates the session-wide bests, on the module
  variables and the local \<^verbatim>\<open>raceBestLapNumLocal\<close>.
\<close>

definition raceBestStep :: "State \<times> int option \<Rightarrow> RaceCar \<Rightarrow> State \<times> int option" where
  "raceBestStep acc c =
     (case acc of (s, raceBestLapNumLocal) \<Rightarrow>
        (let lapBetter =
               (case RaceCar.lapTimeMs c of
                  None \<Rightarrow> False
                | Some t \<Rightarrow> t > 0 \<and> nullOrLess (State.raceBestLapTimeMs s) t);
             s1 = (if lapBetter
                   then s\<lparr>State.raceBestLapTimeMs := RaceCar.lapTimeMs c,
                          State.raceBestLapCarIndex := Some (carIndex c)\<rparr>
                   else s);
             local1 = (if lapBetter
                       then (case bestLapNum c of
                               Some n \<Rightarrow> Some (int n)
                             | None \<Rightarrow> Some (int (RaceCar.lapNumber c) - 1))
                       else raceBestLapNumLocal);
             s2 = (case RaceCar.sector1TimeMs c of
                     None \<Rightarrow> s1
                   | Some t \<Rightarrow>
                       if nullOrLess (State.raceBestSector1TimeMs s1) t
                       then s1\<lparr>State.raceBestSector1TimeMs := Some t,
                               State.raceBestSector1CarIndex := Some (carIndex c)\<rparr>
                       else s1);
             s3 = (case RaceCar.sector2TimeMs c of
                     None \<Rightarrow> s2
                   | Some t \<Rightarrow>
                       if nullOrLess (State.raceBestSector2TimeMs s2) t
                       then s2\<lparr>State.raceBestSector2TimeMs := Some t,
                               State.raceBestSector2CarIndex := Some (carIndex c)\<rparr>
                       else s2);
             s4 = (case RaceCar.sector3TimeMs c of
                     None \<Rightarrow> s3
                   | Some t \<Rightarrow>
                       if nullOrLess (State.raceBestSector3TimeMs s3) t
                       then s3\<lparr>State.raceBestSector3TimeMs := Some t,
                               State.raceBestSector3CarIndex := Some (carIndex c)\<rparr>
                       else s3)
         in (s4, local1)))"

definition updateRaceCars :: "State \<Rightarrow> nat \<Rightarrow> State" where
  "updateRaceCars s playerCarIndex' =
     (let raceCars' = withGaps s (raceCarsRaw s playerCarIndex')
      in case foldl raceBestStep (s, State.raceBestLapNum s) raceCars' of
           (s1, raceBestLapNumLocal) \<Rightarrow>
             s1\<lparr>lapsState := (lapsState s1)
                  \<lparr>raceCars := raceCars',
                   LapsState.raceBestSector1TimeMs := State.raceBestSector1TimeMs s1,
                   LapsState.raceBestSector2TimeMs := State.raceBestSector2TimeMs s1,
                   LapsState.raceBestSector3TimeMs := State.raceBestSector3TimeMs s1,
                   LapsState.raceBestSector1CarIndex := State.raceBestSector1CarIndex s1,
                   LapsState.raceBestSector2CarIndex := State.raceBestSector2CarIndex s1,
                   LapsState.raceBestSector3CarIndex := State.raceBestSector3CarIndex s1,
                   LapsState.raceBestLapTimeMs := State.raceBestLapTimeMs s1,
                   LapsState.raceBestLapCarIndex := State.raceBestLapCarIndex s1,
                   LapsState.raceBestLapNum := raceBestLapNumLocal\<rparr>,
                State.raceBestLapNum := raceBestLapNumLocal\<rparr>)"


subsection \<open>Lap data: the local player\<close>

text \<open>
  The second part of \<^verbatim>\<open>handleLapDataPacket\<close> works on \<^verbatim>\<open>lap\<close>, the player's entry of
  \<^verbatim>\<open>lapDataByIndex\<close>. Its blocks follow one another as in the source; each is a
  function of the state here.
\<close>

definition isRaceSession :: "State \<Rightarrow> bool" where
  "isRaceSession s = (sessionKind (lapsState s) = Some race)"

definition penaltiesBlock :: "State \<Rightarrow> LapData \<Rightarrow> State" where
  "penaltiesBlock s lap =
     s\<lparr>lapsState := (lapsState s)
          \<lparr>currentPenalties :=
             Some \<lparr>Penalties.penaltiesSec = LapData.penaltiesSec lap,
                   totalWarnings = LapData.totalWarnings lap,
                   cornerCuttingWarnings = LapData.cornerCuttingWarnings lap,
                   numUnservedDriveThroughPens = LapData.numUnservedDriveThroughPens lap,
                   numUnservedStopGoPens = LapData.numUnservedStopGoPens lap,
                   pitStopShouldServePen = LapData.pitStopShouldServePen lap\<rparr>\<rparr>\<rparr>"

text \<open>
  \<^verbatim>\<open>for (const lapNum of Array.from(m.keys())) if (lapNum >= currentLapNum) m.delete(lapNum)\<close>.
\<close>

definition deleteLapsFrom :: "(nat, 'v) jsmap \<Rightarrow> nat \<Rightarrow> (nat, 'v) jsmap" where
  "deleteLapsFrom m cur =
     foldl (\<lambda>m' lapNum. if lapNum \<ge> cur then Map_delete m' lapNum else m') m (Map_keys m)"

text \<open>Flashback (lines 1501 to 1523).\<close>

definition rewindBlock :: "State \<Rightarrow> LapData \<Rightarrow> State" where
  "rewindBlock s lap =
     (case PlayerState.currentLapNum (playerState s) of
        None \<Rightarrow> s
      | Some prevLapNum \<Rightarrow>
          if LapData.currentLapNum lap < prevLapNum then
            recomputeFromLaps
              (s\<lparr>lapsByNumber := deleteLapsFrom (lapsByNumber s) (LapData.currentLapNum lap),
                 tyreByLapStart := deleteLapsFrom (tyreByLapStart s) (LapData.currentLapNum lap),
                 pitLaneTimeByLap := deleteLapsFrom (pitLaneTimeByLap s) (LapData.currentLapNum lap),
                 pitLaneStatusByLap := deleteLapsFrom (pitLaneStatusByLap s) (LapData.currentLapNum lap),
                 playerState := (playerState s)
                   \<lparr>pitLaneActive := False, pitLaneStartLapNum := None,
                    pitLaneMaxTimeMs := 0, pitLanePitStatusMax := 0\<rparr>\<rparr>)
          else s)"

text \<open>The tyres at the start of the lap (lines 1525 to 1532).\<close>

definition tyreAtLapStartBlock :: "State \<Rightarrow> LapData \<Rightarrow> State" where
  "tyreAtLapStartBlock s lap =
     (if \<not> Map_has (tyreByLapStart s) (LapData.currentLapNum lap)
      then s\<lparr>tyreByLapStart :=
               Map_set (tyreByLapStart s) (LapData.currentLapNum lap) (currentTyres s)\<rparr>
      else s)"

text \<open>The player's pit-lane stint (lines 1534 to 1573).\<close>

definition pitLaneBlock :: "State \<Rightarrow> LapData \<Rightarrow> State" where
  "pitLaneBlock s lap =
     (let ps = playerState s
      in if pitLaneTimerActive lap = 1 then
           (let ps1 = (if \<not> pitLaneActive ps
                       then ps\<lparr>pitLaneActive := True,
                               pitLaneStartLapNum := Some (LapData.currentLapNum lap),
                               pitLaneMaxTimeMs := 0, pitLanePitStatusMax := 0\<rparr>
                       else ps);
                ps2 = (if pitLaneTimeInLaneInMS lap > 0
                       then ps1\<lparr>pitLaneMaxTimeMs :=
                                  max (pitLaneMaxTimeMs ps1) (pitLaneTimeInLaneInMS lap)\<rparr>
                       else ps1);
                ps3 = (if LapData.pitStatus lap > 0
                       then ps2\<lparr>pitLanePitStatusMax :=
                                  max (pitLanePitStatusMax ps2) (LapData.pitStatus lap)\<rparr>
                       else ps2)
            in s\<lparr>playerState := ps3\<rparr>)
         else if pitLaneActive ps then
           (let lapNum = pitLaneStartLapNum ps;
                timeMs = pitLaneMaxTimeMs ps;
                statusMax' = pitLanePitStatusMax ps;
                s1 = s\<lparr>playerState := ps\<lparr>pitLaneActive := False, pitLaneStartLapNum := None,
                                           pitLaneMaxTimeMs := 0, pitLanePitStatusMax := 0\<rparr>\<rparr>
            in case lapNum of
                 None \<Rightarrow> s1
               | Some n \<Rightarrow>
                   if timeMs > 0 then
                     (let s2 = s1\<lparr>pitLaneTimeByLap := Map_set (pitLaneTimeByLap s1) n timeMs,
                                  pitLaneStatusByLap := Map_set (pitLaneStatusByLap s1) n statusMax'\<rparr>
                      in case Map_get (lapsByNumber s2) n of
                           None \<Rightarrow> s2
                         | Some entry \<Rightarrow>
                             recomputeFromLaps
                               (s2\<lparr>lapsByNumber := Map_set (lapsByNumber s2) n
                                     (entry\<lparr>LapEntry.pitLaneTimeMs := Some timeMs,
                                            LapEntry.pitStatus := statusMax'\<rparr>)\<rparr>))
                   else s1)
         else s)"

text \<open>The sector cache of the current lap and the live time (lines 1575 to 1584).\<close>

definition liveTimesBlock :: "State \<Rightarrow> LapData \<Rightarrow> State" where
  "liveTimesBlock s lap =
     s\<lparr>playerState := (playerState s)
          \<lparr>currentSector1TimeMs :=
             orElse (LapData.sector1TimeMs lap) (currentSector1TimeMs (playerState s)),
           currentSector2TimeMs :=
             orElse (LapData.sector2TimeMs lap) (currentSector2TimeMs (playerState s))\<rparr>,
       lapsState := (lapsState s)\<lparr>liveLapTimeMs := currentLapTimeInMS lap\<rparr>\<rparr>"

text \<open>The live best sectors (lines 1593 to 1614).\<close>

definition liveBestSectorsBlock :: "State \<Rightarrow> LapData \<Rightarrow> State" where
  "liveBestSectorsBlock s lap =
     (let currentLapIsValid = (if isRaceSession s then True else LapData.currentLapInvalid lap = 0)
      in if currentLapIsValid then
           (let ls = lapsState s;
                ls1 = (case LapData.sector1TimeMs lap of
                         None \<Rightarrow> ls
                       | Some v \<Rightarrow>
                           if sector lap \<ge> 1 \<and> nullOrLess (bestSector1TimeMs ls) v
                           then ls\<lparr>bestSector1TimeMs := Some v\<rparr> else ls);
                ls2 = (case LapData.sector2TimeMs lap of
                         None \<Rightarrow> ls1
                       | Some v \<Rightarrow>
                           if sector lap \<ge> 2 \<and> nullOrLess (bestSector2TimeMs ls1) v
                           then ls1\<lparr>bestSector2TimeMs := Some v\<rparr> else ls1)
            in s\<lparr>lapsState := ls2\<rparr>)
         else recomputeFromLaps s)"

text \<open>
  The live row (lines 1586 to 1591 and 1616 to 1634). \<^verbatim>\<open>liveTyre\<close> is read before the
  live best sectors in the source; that block does not write \<^verbatim>\<open>tyreByLapStart\<close> or the
  player's tyres.
\<close>

definition currentLapBlock :: "State \<Rightarrow> LapData \<Rightarrow> State" where
  "currentLapBlock s lap =
     (let liveTyre = (case Map_get (tyreByLapStart s) (LapData.currentLapNum lap) of
                        Some t \<Rightarrow> t | None \<Rightarrow> currentTyres s)
      in s\<lparr>lapsState := (lapsState s)
             \<lparr>currentLap :=
                Some \<lparr>LapEntry.lapNumber = LapData.currentLapNum lap,
                      lapTimeMs = Some (currentLapTimeInMS lap),
                      deltaMs = (case LapsState.bestLapTimeMs (lapsState s) of
                                   None \<Rightarrow> None
                                 | Some best \<Rightarrow> Some (currentLapTimeInMS lap - best)),
                      valid = (if isRaceSession s then True else LapData.currentLapInvalid lap = 0),
                      isBest = False,
                      sector1TimeMs = (if sector lap \<ge> 1 then LapData.sector1TimeMs lap else None),
                      sector2TimeMs = (if sector lap \<ge> 2 then LapData.sector2TimeMs lap else None),
                      sector3TimeMs = None,
                      tyreActualCompound = TyreSnapshot.tyreActualCompound liveTyre,
                      tyreVisualCompound = TyreSnapshot.tyreVisualCompound liveTyre,
                      tyresAgeLaps = TyreSnapshot.tyresAgeLaps liveTyre,
                      pitStatus = LapData.pitStatus lap,
                      pitLaneTimeMs = (if pitLaneTimerActive lap = 1
                                       then Some (pitLaneTimeInLaneInMS lap) else None),
                      numPitStops = LapData.numPitStops lap\<rparr>\<rparr>\<rparr>)"

text \<open>The end of a lap: the lap number went up (lines 1636 to 1694).\<close>

definition finalizeLapBlock :: "State \<Rightarrow> nat \<Rightarrow> LapData \<Rightarrow> State" where
  "finalizeLapBlock s playerCarIndex' lap =
     (case PlayerState.currentLapNum (playerState s) of
        None \<Rightarrow> s
      | Some finishedLapNum \<Rightarrow>
          if LapData.currentLapNum lap > finishedLapNum \<and> lastLapTimeInMS lap > 0 then
            (let valid' = (if isRaceSession s then True
                           else PlayerState.currentLapInvalid (playerState s) = 0);
                 finishedTyre = (case Map_get (tyreByLapStart s) finishedLapNum of
                                   Some t \<Rightarrow> t | None \<Rightarrow> currentTyres s);
                 historyEntry = (case Map_get (sessionHistoryByCarIndex s) playerCarIndex' of
                                   None \<Rightarrow> None
                                 | Some playerHistory \<Rightarrow> Map_get playerHistory finishedLapNum);
                 lapTimeMs' = (case historyEntry of
                                 None \<Rightarrow> lastLapTimeInMS lap
                               | Some e \<Rightarrow> (case HistoryEntry.lapTimeMs e of
                                              Some t \<Rightarrow> t | None \<Rightarrow> lastLapTimeInMS lap));
                 s1 = orElse (case historyEntry of None \<Rightarrow> None
                                                 | Some e \<Rightarrow> HistoryEntry.sector1TimeMs e)
                        (currentSector1TimeMs (playerState s));
                 s2 = orElse (case historyEntry of None \<Rightarrow> None
                                                 | Some e \<Rightarrow> HistoryEntry.sector2TimeMs e)
                        (currentSector2TimeMs (playerState s));
                 s3 = (case (case historyEntry of None \<Rightarrow> None
                                                | Some e \<Rightarrow> HistoryEntry.sector3TimeMs e) of
                         Some v \<Rightarrow> Some v
                       | None \<Rightarrow>
                           (case (s1, s2) of
                              (Some v1, Some v2) \<Rightarrow>
                                if lapTimeMs' > 0 \<and> lapTimeMs' - v1 - v2 \<ge> 0
                                then Some (lapTimeMs' - v1 - v2) else None
                            | _ \<Rightarrow> None));
                 lapEntry =
                   \<lparr>LapEntry.lapNumber = finishedLapNum,
                    lapTimeMs = Some lapTimeMs',
                    deltaMs = None,
                    valid = valid',
                    isBest = False,
                    sector1TimeMs = s1,
                    sector2TimeMs = s2,
                    sector3TimeMs = s3,
                    tyreActualCompound = TyreSnapshot.tyreActualCompound finishedTyre,
                    tyreVisualCompound = TyreSnapshot.tyreVisualCompound finishedTyre,
                    tyresAgeLaps = TyreSnapshot.tyresAgeLaps finishedTyre,
                    pitStatus = (case Map_get (pitLaneStatusByLap s) finishedLapNum of
                                   Some v \<Rightarrow> v | None \<Rightarrow> 0),
                    pitLaneTimeMs = Map_get (pitLaneTimeByLap s) finishedLapNum,
                    numPitStops = LapData.numPitStops lap\<rparr>;
                 s' = recomputeFromLaps
                        (s\<lparr>lapsByNumber := Map_set (lapsByNumber s) finishedLapNum lapEntry\<rparr>)
             in s'\<lparr>playerState := (playerState s')
                      \<lparr>currentSector1TimeMs := None, currentSector2TimeMs := None\<rparr>\<rparr>)
          else s)"

text \<open>The player's lap number and the live delta (lines 1696 to 1706).\<close>

definition liveDeltaBlock :: "State \<Rightarrow> LapData \<Rightarrow> State" where
  "liveDeltaBlock s lap =
     (let s1 = s\<lparr>playerState := (playerState s)
                   \<lparr>PlayerState.currentLapNum := Some (LapData.currentLapNum lap),
                    PlayerState.currentLapInvalid := LapData.currentLapInvalid lap\<rparr>\<rparr>
      in s1\<lparr>lapsState := (lapsState s1)
              \<lparr>liveDeltaToBestMs :=
                 (case LapsState.bestLapTimeMs (lapsState s1) of
                    None \<Rightarrow> None
                  | Some best \<Rightarrow>
                      if liveLapTimeMs (lapsState s1) > 0
                      then Some (best - liveLapTimeMs (lapsState s1)) else None)\<rparr>\<rparr>)"

definition playerLapUpdate :: "State \<Rightarrow> nat \<Rightarrow> LapData \<Rightarrow> State" where
  "playerLapUpdate s playerCarIndex' lap =
     (let s1 = penaltiesBlock s lap;
          s2 = rewindBlock s1 lap;
          s3 = tyreAtLapStartBlock s2 lap;
          s4 = pitLaneBlock s3 lap;
          s5 = liveTimesBlock s4 lap;
          s6 = liveBestSectorsBlock s5 lap;
          s7 = currentLapBlock s6 lap;
          s8 = finalizeLapBlock s7 playerCarIndex' lap
      in liveDeltaBlock s8 lap)"

definition handleLapDataPacket :: "State \<Rightarrow> buffer \<Rightarrow> State option" where
  "handleLapDataPacket s0 buf =
     do {
       hdr \<leftarrow> parseHeader buf;
       case hdr of
         None \<Rightarrow> Some s0
       | Some header \<Rightarrow>
           do {
             let s1 = resetIfNewSession s0 header;
             let s2 = s1\<lparr>lapsState := (lapsState s1)
                          \<lparr>isConnected := True,
                           LapsState.playerCarIndex := Some (Header.playerCarIndex header)\<rparr>\<rparr>;
             s3 \<leftarrow> forEachM [0..<NUM_CARS] (lapDataStep buf) s2;
             let s4 = updateRaceCars s3 (Header.playerCarIndex header);
             Some (if Header.playerCarIndex header \<ge> NUM_CARS then s4
                   else (case Map_get (lapDataByIndex s4) (Header.playerCarIndex header) of
                           None \<Rightarrow> s4
                         | Some lap \<Rightarrow> playerLapUpdate s4 (Header.playerCarIndex header) lap))
           }
     }"

subsection \<open>The UDP message callback\<close>

text \<open>
  \<^verbatim>\<open>udpServer.on('message', ...)\<close>: the header is parsed once to choose the handler,
  which parses it again; a packet of any other kind is ignored.
\<close>

definition onMessage :: "State \<Rightarrow> buffer \<Rightarrow> State option" where
  "onMessage s msg =
     do {
       hdr \<leftarrow> parseHeader msg;
       case hdr of
         None \<Rightarrow> Some s
       | Some header \<Rightarrow>
           if packetId header = PACKET_ID_SESSION then handleSessionPacket s msg
           else if packetId header = PACKET_ID_PARTICIPANTS then handleParticipantsPacket s msg
           else if packetId header = PACKET_ID_SESSION_HISTORY then handleSessionHistoryPacket s msg
           else if packetId header = PACKET_ID_LAP_DATA then handleLapDataPacket s msg
           else if packetId header = PACKET_ID_CAR_TELEMETRY then handleCarTelemetryPacket s msg
           else if packetId header = PACKET_ID_CAR_STATUS then handleCarStatusPacket s msg
           else if packetId header = PACKET_ID_CAR_DAMAGE then handleCarDamagePacket s msg
           else Some s
     }"

section \<open>Notions used to state the properties\<close>

text \<open>
  The lap times that count for the personal best: those of the ledger entries with
  \<open>valid\<close> set and a positive lap time.
\<close>

definition validLapTimes :: "(nat, LapEntry) jsmap \<Rightarrow> int set" where
  "validLapTimes m =
     {t. \<exists>l \<in> set (Map_values m). LapEntry.valid l \<and> LapEntry.lapTimeMs l = Some t \<and> 0 < t}"

definition timesOf :: "LapEntry list \<Rightarrow> int set" where
  "timesOf ls = {t. \<exists>l \<in> set ls. LapEntry.valid l \<and> LapEntry.lapTimeMs l = Some t \<and> 0 < t}"

text \<open>The best lap time that the first loop of \<^verbatim>\<open>recomputeFromLaps\<close> finds in a ledger.\<close>

definition bestOf :: "(nat, LapEntry) jsmap \<Rightarrow> int option" where
  "bestOf m = fst (foldl recomputeStep (None, None, None, None, None) (Map_values m))"

text \<open>The second loop of \<^verbatim>\<open>recomputeFromLaps\<close> on a whole ledger.\<close>

definition markAll :: "int option \<Rightarrow> (nat, LapEntry) jsmap \<Rightarrow> (nat, LapEntry) jsmap" where
  "markAll best m = map (\<lambda>(k, l). (k, markLap best l)) m"

text \<open>The accumulator \<open>best\<close> is the minimum of the set \<open>T\<close> of times seen so far.\<close>

definition accOk :: "int option \<Rightarrow> int set \<Rightarrow> bool" where
  "accOk best T = (case best of None \<Rightarrow> T = {} | Some m \<Rightarrow> T \<noteq> {} \<and> m = Min T)"

subsection \<open>Concrete inputs\<close>

text \<open>A finalized lap with the given number, time and validity, and nothing else known.\<close>

definition exampleLap :: "nat \<Rightarrow> int \<Rightarrow> bool \<Rightarrow> LapEntry" where
  "exampleLap n t v =
     \<lparr>LapEntry.lapNumber = n, lapTimeMs = Some t, deltaMs = None, valid = v, isBest = False,
      sector1TimeMs = None, sector2TimeMs = None, sector3TimeMs = None,
      tyreActualCompound = None, tyreVisualCompound = None, tyresAgeLaps = None,
      pitStatus = 0, pitLaneTimeMs = None, numPitStops = 0\<rparr>"

text \<open>A ledger of three laps: 1:30.000, 1:28.000 and an invalid 1:25.000.\<close>

definition exampleLedger :: "(nat, LapEntry) jsmap" where
  "exampleLedger =
     [(1, exampleLap 1 90000 True), (2, exampleLap 2 88000 True), (3, exampleLap 3 85000 False)]"

definition exampleState :: State where
  "exampleState = initialState\<lparr>lapsByNumber := exampleLedger\<rparr>"

text \<open>
  One 14-byte lap of a session-history packet: lap time 90000 ms, sector 1 with the
  sub-minute part 65535 and the minutes part 0, sectors 2 and 3 of 30000 ms, flags 15.
\<close>

definition historyEntryBytes :: buffer where
  "historyEntryBytes =
     [0x90, 0x5F, 0x01, 0x00, 0xFF, 0xFF, 0x00, 0x30, 0x75, 0x00, 0x30, 0x75, 0x00, 0x0F]"

text \<open>
  A car-damage datagram (packet id 10) of 51 bytes, a header and 22 bytes, and a
  participants datagram (packet id 4) of 29 bytes, a header and nothing else.
\<close>

definition shortDamageDatagram :: buffer where
  "shortDamageDatagram = replicate 6 0 @ [10] @ replicate 44 0"

definition shortParticipantsDatagram :: buffer where
  "shortParticipantsDatagram = replicate 6 0 @ [4] @ replicate 22 0"

subsection \<open>The session epoch\<close>

text \<open>
  Every piece of session-scoped state is empty: the fourteen tables, the active-car
  count, the session-wide bests, the player's trackers and the published snapshot.
\<close>

definition sessionStateCleared :: "State \<Rightarrow> bool" where
  "sessionStateCleared s =
     (lapsByNumber s = [] \<and> tyreByLapStart s = [] \<and> pitLaneTimeByLap s = []
      \<and> pitLaneStatusByLap s = [] \<and> participantsNameByIndex s = []
      \<and> participantsTeamIdByIndex s = [] \<and> participantsColorByIndex s = []
      \<and> carStatusByIndex s = [] \<and> carTelemetryByIndex s = [] \<and> carDamageByIndex s = []
      \<and> lapDataByIndex s = [] \<and> sectorCacheByIndex s = [] \<and> pitLaneStintByIndex s = []
      \<and> sessionHistoryByCarIndex s = [] \<and> numActiveCars s = None
      \<and> State.raceBestSector1TimeMs s = None \<and> State.raceBestSector2TimeMs s = None
      \<and> State.raceBestSector3TimeMs s = None \<and> State.raceBestSector1CarIndex s = None
      \<and> State.raceBestSector2CarIndex s = None \<and> State.raceBestSector3CarIndex s = None
      \<and> State.raceBestLapTimeMs s = None \<and> State.raceBestLapCarIndex s = None
      \<and> State.raceBestLapNum s = None
      \<and> PlayerState.currentLapNum (playerState s) = None
      \<and> PlayerState.currentLapInvalid (playerState s) = 0
      \<and> currentSector1TimeMs (playerState s) = None
      \<and> currentSector2TimeMs (playerState s) = None
      \<and> currentTyreActualCompound (playerState s) = None
      \<and> currentTyreVisualCompound (playerState s) = None
      \<and> currentTyresAgeLaps (playerState s) = None
      \<and> pitLaneActive (playerState s) = False
      \<and> pitLaneStartLapNum (playerState s) = None
      \<and> pitLaneMaxTimeMs (playerState s) = 0
      \<and> pitLanePitStatusMax (playerState s) = 0
      \<and> lapsState s = freshLapsState)"

text \<open>
  A session-metadata datagram (packet id 1, session identifier 0) of 43 bytes, its header,
  and a state of session 7 with a ledger and pit tables that are not empty.
\<close>

definition sessionDatagram :: buffer where
  "sessionDatagram = replicate 6 0 @ [1] @ replicate 36 0"

definition examplePitState :: State where
  "examplePitState =
     exampleState\<lparr>pitLaneTimeByLap := [(2, 25000)], pitLaneStatusByLap := [(2, 1)],
                  playerState := (playerState exampleState)\<lparr>PlayerState.sessionUID := Some 7\<rparr>\<rparr>"

definition sessionDatagramHeader :: Header where
  "sessionDatagramHeader =
     \<lparr>packetFormat = 0, gameYear = 0, gameMajorVersion = 0, gameMinorVersion = 0,
      packetVersion = 0, packetId = 1, sessionUID = 0, sessionTime = FloatBits 0,
      frameIdentifier = 0, overallFrameIdentifier = 0, playerCarIndex = 0,
      secondaryPlayerCarIndex = 0\<rparr>"

subsection \<open>The ledger agrees with the published best\<close>

text \<open>
  The published personal best is the best of the ledger, and every entry of the ledger
  carries the \<open>isBest\<close> and \<open>deltaMs\<close> that \<^verbatim>\<open>recomputeFromLaps\<close> gives it for that best.
\<close>

definition bestsInv :: "State \<Rightarrow> bool" where
  "bestsInv s =
     (LapsState.bestLapTimeMs (lapsState s) = bestOf (lapsByNumber s)
      \<and> lapsByNumber s = markAll (LapsState.bestLapTimeMs (lapsState s)) (lapsByNumber s))"

text \<open>The states the server can be in: the module state after any datagrams.\<close>

inductive reachable :: "State \<Rightarrow> bool" where
  reachable_initial: "reachable initialState"
| reachable_step: "reachable s \<Longrightarrow> onMessage s msg = Some s' \<Longrightarrow> reachable s'"

text \<open>
  The player's lap data at a given lap number and live lap time: on track (pit-lane timer
  off), lap not invalidated, no lap finished before, no sector time yet.
\<close>

definition exampleLapData :: "nat \<Rightarrow> int \<Rightarrow> LapData" where
  "exampleLapData lapNum liveMs =
     \<lparr>lastLapTimeInMS = 0, currentLapTimeInMS = liveMs, sector1TimeMs = None,
      sector2TimeMs = None, sector3TimeMs = None, deltaToRaceLeaderMs = None,
      deltaToCarInFrontMs = None, lapDistance = FloatBits 0, totalDistance = FloatBits 0,
      safetyCarDelta = FloatBits 0, carPosition = 1, currentLapNum = lapNum, pitStatus = 0,
      numPitStops = 0, sector = 0, currentLapInvalid = 0, penaltiesSec = 0, totalWarnings = 0,
      cornerCuttingWarnings = 0, numUnservedDriveThroughPens = 0, numUnservedStopGoPens = 0,
      gridPosition = 1, driverStatus = 1, resultStatus = 2, pitLaneTimerActive = 0,
      pitLaneTimeInLaneInMS = 0, pitStopTimerInMS = 0, pitStopShouldServePen = 0,
      speedTrapFastestSpeed = FloatBits 0, speedTrapFastestLap = 0\<rparr>"

subsection \<open>The leaderboard\<close>

text \<open>
  A car has a known name, is below the active-car count (a count that is unknown or zero
  bounds nothing), is on the published leaderboard.
\<close>

definition hasKnownName :: "State \<Rightarrow> nat \<Rightarrow> bool" where
  "hasKnownName s i = (\<exists>n. Map_get (participantsNameByIndex s) i = Some n \<and> n \<noteq> [])"

definition belowActiveCount :: "State \<Rightarrow> nat \<Rightarrow> bool" where
  "belowActiveCount s i = (case numActiveCars s of None \<Rightarrow> True | Some n \<Rightarrow> n > 0 \<longrightarrow> i < n)"

definition onLeaderboard :: "State \<Rightarrow> nat \<Rightarrow> bool" where
  "onLeaderboard s i = (i \<in> set (map carIndex (raceCars (lapsState s))))"

text \<open>
  A lap-data datagram (packet id 2, session 0, player in slot 0) of 86 bytes: the header
  and one car record of zeros, so the player's result status is 0 (invalid). The state
  before it knows four names and 3 active cars, and has lap data of the cars 1 (result
  status 0), 2 and 3.
\<close>

definition lapDatagram :: buffer where
  "lapDatagram = replicate 6 0 @ [2] @ replicate 79 0"

definition lapDatagramHeader :: Header where
  "lapDatagramHeader =
     \<lparr>packetFormat = 0, gameYear = 0, gameMajorVersion = 0, gameMinorVersion = 0,
      packetVersion = 0, packetId = 2, sessionUID = 0, sessionTime = FloatBits 0,
      frameIdentifier = 0, overallFrameIdentifier = 0, playerCarIndex = 0,
      secondaryPlayerCarIndex = 0\<rparr>"

definition exampleBoardState :: State where
  "exampleBoardState =
     initialState
       \<lparr>playerState := (playerState initialState)\<lparr>PlayerState.sessionUID := Some 0\<rparr>,
        participantsNameByIndex := [(0, [0x41]), (1, [0x42]), (2, [0x43]), (3, [0x44])],
        numActiveCars := Some 3,
        lapDataByIndex :=
          [(1, (exampleLapData 1 0)\<lparr>resultStatus := 0\<rparr>), (2, exampleLapData 1 0),
           (3, exampleLapData 1 0)]\<rparr>"

subsection \<open>The pit-lane stint\<close>

text \<open>
  The player's lap data with a given lap number, pit-lane timer flag, time in the lane
  and pit status; and a state whose ledger holds lap 10.
\<close>

definition pitObservation :: "nat \<Rightarrow> nat \<Rightarrow> int \<Rightarrow> nat \<Rightarrow> LapData" where
  "pitObservation lapNum timerActive timeInLane status =
     (exampleLapData lapNum 0)
       \<lparr>pitLaneTimerActive := timerActive, pitLaneTimeInLaneInMS := timeInLane,
        LapData.pitStatus := status\<rparr>"

definition exampleState10 :: State where
  "exampleState10 = initialState\<lparr>lapsByNumber := [(10, exampleLap 10 95000 True)]\<rparr>"

subsection \<open>The rewind\<close>

text \<open>
  The player's pit-stint tracker: whether a stint is in progress, its start lap, and the
  maxima of the time in the lane and of the pit status seen in it.
\<close>

definition pitTracker :: "State \<Rightarrow> bool \<times> nat option \<times> int \<times> nat" where
  "pitTracker s =
     (pitLaneActive (playerState s), pitLaneStartLapNum (playerState s),
      pitLaneMaxTimeMs (playerState s), pitLanePitStatusMax (playerState s))"

text \<open>
  A state at lap 7 with the laps 1, 2 and 5 in the ledger (lap 5 is the best), tyre
  snapshots of the laps 1 and 3, pit records of the laps 2 and 4, and a stint in progress.
\<close>

definition exampleTyres :: "nat \<Rightarrow> nat \<Rightarrow> nat \<Rightarrow> TyreSnapshot" where
  "exampleTyres actual visual age =
     \<lparr>TyreSnapshot.tyreActualCompound = Some actual, tyreVisualCompound = Some visual, tyresAgeLaps = Some age\<rparr>"

definition rewindLedger :: "(nat, LapEntry) jsmap" where
  "rewindLedger =
     [(1, exampleLap 1 90000 True), (2, exampleLap 2 88000 True), (5, exampleLap 5 85000 True)]"

definition rewindState :: State where
  "rewindState =
     recomputeFromLaps
       (initialState
          \<lparr>lapsByNumber := rewindLedger,
           tyreByLapStart := [(1, exampleTyres 18 16 0), (3, exampleTyres 18 16 2)],
           pitLaneTimeByLap := [(2, 25000), (4, 24000)],
           pitLaneStatusByLap := [(2, 1), (4, 1)],
           playerState := (playerState initialState)
             \<lparr>PlayerState.currentLapNum := Some 7,
              currentTyreActualCompound := Some 17, currentTyreVisualCompound := Some 17,
              currentTyresAgeLaps := Some 0,
              pitLaneActive := True, pitLaneStartLapNum := Some 7, pitLaneMaxTimeMs := 5000,
              pitLanePitStatusMax := 1\<rparr>\<rparr>)"

subsection \<open>The session history\<close>

text \<open>
  What the loop over the history of the player's car does to a ledger entry: nothing when
  the history lap has no lap time, the lap time and the three sector times of the history
  lap otherwise.
\<close>

definition withHistory :: "HistoryEntry \<Rightarrow> LapEntry \<Rightarrow> LapEntry" where
  "withHistory entry l =
     (case HistoryEntry.lapTimeMs entry of
        None \<Rightarrow> l
      | Some t \<Rightarrow>
          l\<lparr>LapEntry.lapTimeMs := Some t,
            LapEntry.sector1TimeMs := HistoryEntry.sector1TimeMs entry,
            LapEntry.sector2TimeMs := HistoryEntry.sector2TimeMs entry,
            LapEntry.sector3TimeMs := HistoryEntry.sector3TimeMs entry\<rparr>)"

text \<open>
  A session-history datagram (packet id 11, session 0, car 0, the player) of 64 bytes with
  two laps: lap 1 of zeros, lap 2 of 89000 ms with sectors of 29000, 30000 and 30000 ms.
  The state before it has the laps 1 (90000 ms, the best) and 2 (91000 ms) in the ledger.
\<close>

definition historyLap :: "int option \<Rightarrow> int option \<Rightarrow> int option \<Rightarrow> int option \<Rightarrow> nat \<Rightarrow> HistoryEntry" where
  "historyLap t s1 s2 s3 flags =
     \<lparr>HistoryEntry.lapTimeMs = t, sector1TimeMs = s1, sector2TimeMs = s2, sector3TimeMs = s3,
      validFlags = flags\<rparr>"

definition historyDatagram :: buffer where
  "historyDatagram =
     replicate 6 0 @ [11] @ replicate 22 0 @ [0, 2, 0, 0, 0, 0, 0] @ replicate 14 0
     @ [0xA8, 0x5B, 0x01, 0x00, 0x48, 0x71, 0x00, 0x30, 0x75, 0x00, 0x30, 0x75, 0x00, 0x0F]"

definition historyDatagramHeader :: Header where
  "historyDatagramHeader =
     \<lparr>packetFormat = 0, gameYear = 0, gameMajorVersion = 0, gameMinorVersion = 0,
      packetVersion = 0, packetId = 11, sessionUID = 0, sessionTime = FloatBits 0,
      frameIdentifier = 0, overallFrameIdentifier = 0, playerCarIndex = 0,
      secondaryPlayerCarIndex = 0\<rparr>"

definition historyState :: State where
  "historyState =
     recomputeFromLaps
       (initialState
          \<lparr>lapsByNumber := [(1, exampleLap 1 90000 True), (2, exampleLap 2 91000 True)],
           playerState := (playerState initialState)\<lparr>PlayerState.sessionUID := Some 0\<rparr>\<rparr>)"

subsection \<open>Updates without a rewind\<close>

text \<open>
  The lap number of the update is not below the one seen before; a list of updates whose
  lap numbers never go down, starting from the lap number \<open>prev\<close>; and the player's update
  applied to a list of lap data in turn.
\<close>

definition noRewind :: "State \<Rightarrow> LapData \<Rightarrow> bool" where
  "noRewind s lap =
     (case PlayerState.currentLapNum (playerState s) of
        None \<Rightarrow> True
      | Some p \<Rightarrow> p \<le> LapData.currentLapNum lap)"

fun lapsNonDecreasing :: "nat option \<Rightarrow> LapData list \<Rightarrow> bool" where
  "lapsNonDecreasing prev [] = True"
| "lapsNonDecreasing prev (x # xs) =
     ((case prev of None \<Rightarrow> True | Some p \<Rightarrow> p \<le> LapData.currentLapNum x)
      \<and> lapsNonDecreasing (Some (LapData.currentLapNum x)) xs)"

definition playerRun :: "State \<Rightarrow> nat \<Rightarrow> LapData list \<Rightarrow> State" where
  "playerRun s pci obs = foldl (\<lambda>s' lap. playerLapUpdate s' pci lap) s obs"

text \<open>
  What the pit-lane block reads and writes besides the ledger: the tracker and the two
  pit tables. And a lap whose ledger entry and pit records carry the time \<open>t\<close> and the
  status \<open>u\<close>.
\<close>

definition pitCore :: "State \<Rightarrow> (bool \<times> nat option \<times> int \<times> nat) \<times> (nat, int) jsmap \<times> (nat, nat) jsmap" where
  "pitCore s = (pitTracker s, pitLaneTimeByLap s, pitLaneStatusByLap s)"

definition pitPatched :: "State \<Rightarrow> nat \<Rightarrow> int \<Rightarrow> nat \<Rightarrow> bool" where
  "pitPatched s n t u =
     ((case Map_get (lapsByNumber s) n of
         None \<Rightarrow> False
       | Some e \<Rightarrow> LapEntry.pitLaneTimeMs e = Some t \<and> LapEntry.pitStatus e = u)
      \<and> Map_get (pitLaneTimeByLap s) n = Some t
      \<and> Map_get (pitLaneStatusByLap s) n = Some u)"

subsection \<open>The tyre snapshots\<close>

text \<open>
  A snapshot has all three fields or none. In a state that satisfies \<open>tyreInv\<close> this holds
  of the player's current tyres and of every snapshot, and the current lap has a snapshot.
\<close>

definition allOrNothing :: "TyreSnapshot \<Rightarrow> bool" where
  "allOrNothing t =
     ((TyreSnapshot.tyreActualCompound t = None \<and> TyreSnapshot.tyreVisualCompound t = None
         \<and> TyreSnapshot.tyresAgeLaps t = None)
      \<or> (TyreSnapshot.tyreActualCompound t \<noteq> None \<and> TyreSnapshot.tyreVisualCompound t \<noteq> None
         \<and> TyreSnapshot.tyresAgeLaps t \<noteq> None))"

definition tyreInv :: "State \<Rightarrow> bool" where
  "tyreInv s =
     (allOrNothing (currentTyres s)
      \<and> list_all allOrNothing (Map_values (tyreByLapStart s))
      \<and> (case PlayerState.currentLapNum (playerState s) of
           None \<Rightarrow> True
         | Some c \<Rightarrow> Map_has (tyreByLapStart s) c))"

text \<open>
  Every field that \<open>t\<close> has, \<open>t'\<close> has with the same value. Between \<open>s\<close> and \<open>s'\<close> the
  player was taken back to lap \<open>k\<close> or an earlier one. The snapshot of lap \<open>k\<close> is still
  there in \<open>s'\<close> and has kept its fields.
\<close>

definition keepsKnownFields :: "TyreSnapshot \<Rightarrow> TyreSnapshot \<Rightarrow> bool" where
  "keepsKnownFields t t' =
     ((case TyreSnapshot.tyreActualCompound t of
         None \<Rightarrow> True | Some a \<Rightarrow> TyreSnapshot.tyreActualCompound t' = Some a)
      \<and> (case TyreSnapshot.tyreVisualCompound t of
         None \<Rightarrow> True | Some v \<Rightarrow> TyreSnapshot.tyreVisualCompound t' = Some v)
      \<and> (case TyreSnapshot.tyresAgeLaps t of
         None \<Rightarrow> True | Some a \<Rightarrow> TyreSnapshot.tyresAgeLaps t' = Some a))"

definition rewoundTo :: "State \<Rightarrow> State \<Rightarrow> nat \<Rightarrow> bool" where
  "rewoundTo s s' k =
     (case (PlayerState.currentLapNum (playerState s), PlayerState.currentLapNum (playerState s')) of
        (Some p, Some c) \<Rightarrow> c < p \<and> c \<le> k
      | _ \<Rightarrow> False)"

definition snapshotKept :: "State \<Rightarrow> State \<Rightarrow> nat \<Rightarrow> bool" where
  "snapshotKept s s' k =
     (case Map_get (tyreByLapStart s) k of
        None \<Rightarrow> True
      | Some t \<Rightarrow>
          (case Map_get (tyreByLapStart s') k of
             None \<Rightarrow> False
           | Some t' \<Rightarrow> keepsKnownFields t t'))"

text \<open>
  The part of the state that the snapshots depend on, and a step that keeps the invariant
  and, when it does not start a new session, every snapshot it does not rewind over.
\<close>

definition tyreCore :: "State \<Rightarrow> (nat, TyreSnapshot) jsmap \<times> PlayerState" where
  "tyreCore s = (tyreByLapStart s, playerState s)"

definition stepOk :: "State \<Rightarrow> State \<Rightarrow> bool" where
  "stepOk s s' =
     (tyreInv s'
      \<and> (PlayerState.sessionUID (playerState s') = PlayerState.sessionUID (playerState s)
          \<longrightarrow> (\<forall>k. rewoundTo s s' k \<or> snapshotKept s s' k)))"

text \<open>
  A state on lap 7 with the snapshots of the laps 3 and 7, and a car-status datagram
  (packet id 7, session 0, player in slot 0) of 84 bytes: the header and the record of car
  0 with actual compound 19, visual compound 18 and tyre age 5.
\<close>

definition tyreExampleState :: State where
  "tyreExampleState =
     initialState
       \<lparr>tyreByLapStart := [(3, exampleTyres 18 16 2), (7, exampleTyres 17 17 0)],
        playerState := (playerState initialState)
          \<lparr>PlayerState.sessionUID := Some 0,
           PlayerState.currentLapNum := Some 7,
           currentTyreActualCompound := Some 17, currentTyreVisualCompound := Some 17,
           currentTyresAgeLaps := Some 0\<rparr>\<rparr>"

definition carStatusDatagram :: buffer where
  "carStatusDatagram =
     replicate 6 0 @ [7] @ replicate 22 0 @ replicate 25 0 @ [19, 18, 5] @ replicate 27 0"

definition carStatusDatagramHeader :: Header where
  "carStatusDatagramHeader =
     \<lparr>packetFormat = 0, gameYear = 0, gameMajorVersion = 0, gameMinorVersion = 0,
      packetVersion = 0, packetId = 7, sessionUID = 0, sessionTime = FloatBits 0,
      frameIdentifier = 0, overallFrameIdentifier = 0, playerCarIndex = 0,
      secondaryPlayerCarIndex = 0\<rparr>"

subsection \<open>More datagrams\<close>

text \<open>
  A lap-data datagram that is only its header (29 bytes, packet id 2, player in slot 0),
  and a state of session 0 in which the participants packet has named car 0 and no lap
  data has come yet.
\<close>

definition headerOnlyLapDatagram :: buffer where
  "headerOnlyLapDatagram = replicate 6 0 @ [2] @ replicate 22 0"

definition namedPlayerState :: State where
  "namedPlayerState =
     initialState
       \<lparr>playerState := (playerState initialState)\<lparr>PlayerState.sessionUID := Some 0\<rparr>,
        participantsNameByIndex := [(0, [0x41])],
        numActiveCars := Some 1\<rparr>"

text \<open>
  The state after a live-lap update at 45000 ms on lap 3 with the ledger of
  \<open>historyState\<close> (best 90000 ms), and a car-damage datagram that is only its header.
\<close>

definition deltaState :: State where
  "deltaState = playerLapUpdate historyState 0 (exampleLapData 3 45000)"

definition headerOnlyDamageDatagram :: buffer where
  "headerOnlyDamageDatagram = replicate 6 0 @ [10] @ replicate 22 0"

subsection \<open>The state outside a packet\<close>

text \<open>
  The tables that only the participants, car-status, car-telemetry, car-damage and
  session-history handlers write, and the active-car count.
\<close>

definition staticRest :: "State \<Rightarrow> nat option \<times> (nat, jsstring) jsmap \<times> (nat, nat) jsmap
    \<times> (nat, Colour) jsmap \<times> (nat, CarStatus) jsmap \<times> (nat, CarTelemetry) jsmap
    \<times> (nat, CarDamage) jsmap \<times> (nat, (nat, HistoryEntry) jsmap) jsmap" where
  "staticRest s =
     (numActiveCars s, participantsNameByIndex s, participantsTeamIdByIndex s,
      participantsColorByIndex s, carStatusByIndex s, carTelemetryByIndex s,
      carDamageByIndex s, sessionHistoryByCarIndex s)"

text \<open>
  The ledger, the pit tables, the tyre table, the player's variables, the lap list and the
  personal best.
\<close>

definition lapCore :: "State \<Rightarrow> (nat, LapEntry) jsmap \<times> (nat, int) jsmap \<times> (nat, nat) jsmap
    \<times> (nat, TyreSnapshot) jsmap \<times> PlayerState \<times> LapEntry list \<times> int option" where
  "lapCore s =
     (lapsByNumber s, pitLaneTimeByLap s, pitLaneStatusByLap s, tyreByLapStart s, playerState s,
      laps (lapsState s), LapsState.bestLapTimeMs (lapsState s))"

text \<open>
  A state with everything blanked that a lap-data packet writes: the per-car tables of
  the lap loop, the tyre table, the race bests, and in \<^verbatim>\<open>playerState\<close> and \<^verbatim>\<open>lapsState\<close> the fields
  that \<^verbatim>\<open>handleLapDataPacket\<close> assigns; the blank values are those of \<^verbatim>\<open>resetSessionState\<close>.
\<close>

definition playerWithoutLapData :: "PlayerState \<Rightarrow> PlayerState" where
  "playerWithoutLapData ps =
     ps\<lparr>PlayerState.currentLapNum := None, PlayerState.currentLapInvalid := 0,
        currentSector1TimeMs := None, currentSector2TimeMs := None, pitLaneActive := False,
        pitLaneStartLapNum := None, pitLaneMaxTimeMs := 0, pitLanePitStatusMax := 0\<rparr>"

definition lapsStateWithoutLapData :: "LapsState \<Rightarrow> LapsState" where
  "lapsStateWithoutLapData ls =
     ls\<lparr>liveLapTimeMs := 0, liveDeltaToBestMs := None, bestSector1TimeMs := None,
        bestSector2TimeMs := None, isConnected := True, currentLap := None, raceCars := [],
        LapsState.playerCarIndex := None, LapsState.raceBestSector1TimeMs := None,
        LapsState.raceBestSector2TimeMs := None, LapsState.raceBestSector3TimeMs := None,
        LapsState.raceBestSector1CarIndex := None, LapsState.raceBestSector2CarIndex := None,
        LapsState.raceBestSector3CarIndex := None, LapsState.raceBestLapTimeMs := None,
        LapsState.raceBestLapCarIndex := None, LapsState.raceBestLapNum := None,
        currentPenalties := None\<rparr>"

definition withoutLapData :: "State \<Rightarrow> State" where
  "withoutLapData s =
     s\<lparr>lapDataByIndex := [], sectorCacheByIndex := [], pitLaneStintByIndex := [],
       tyreByLapStart := [], State.raceBestSector1TimeMs := None,
       State.raceBestSector2TimeMs := None, State.raceBestSector3TimeMs := None,
       State.raceBestSector1CarIndex := None, State.raceBestSector2CarIndex := None,
       State.raceBestSector3CarIndex := None, State.raceBestLapTimeMs := None,
       State.raceBestLapCarIndex := None, State.raceBestLapNum := None,
       playerState := playerWithoutLapData (playerState s),
       lapsState := lapsStateWithoutLapData (lapsState s)\<rparr>"

text \<open>
  A car-damage datagram of session 0 that holds the header and all 22 records of 46 bytes
  (1041 bytes), and its header.
\<close>

definition fullDamageDatagram :: buffer where
  "fullDamageDatagram = replicate 6 0 @ [10] @ replicate 1034 0"

definition fullDamageDatagramHeader :: Header where
  "fullDamageDatagramHeader = sessionDatagramHeader\<lparr>packetId := 10\<rparr>"

section \<open>Basic facts\<close>

lemmas reads =
  readUInt32LE_def readUInt16LE_def readUInt8_def readLE_def readInt8_def readFloatLE_def
  readBigUInt64LE_def read4UInt8_def read4FloatLE_def read4UInt16LE_def

lemmas sizes =
  HEADER_SIZE_def NUM_CARS_def LAP_DATA_SIZE_def CAR_STATUS_DATA_SIZE_def
  CAR_TELEMETRY_DATA_SIZE_def PARTICIPANT_DATA_SIZE_def LAP_HISTORY_DATA_SIZE_def
  CAR_DAMAGE_DATA_SIZE_def

lemmas packet_ids =
  PACKET_ID_SESSION_def PACKET_ID_LAP_DATA_def PACKET_ID_PARTICIPANTS_def
  PACKET_ID_CAR_TELEMETRY_def PACKET_ID_SESSION_HISTORY_def PACKET_ID_CAR_STATUS_def
  PACKET_ID_CAR_DAMAGE_def

lemma leNat_replicate_zero [simp]: "leNat (replicate n 0) = 0"
  by (induction n) simp_all

subsection \<open>The running minimum of recomputeFromLaps\<close>

lemma timesOf_Nil [simp]: "timesOf [] = {}"
  by (simp add: timesOf_def)

lemma timesOf_Cons:
  "timesOf (l # ls) =
     (case LapEntry.lapTimeMs l of
        Some t \<Rightarrow> if LapEntry.valid l \<and> 0 < t then insert t (timesOf ls) else timesOf ls
      | None \<Rightarrow> timesOf ls)"
  by (auto simp: timesOf_def split: option.splits)

lemma finite_timesOf [simp]: "finite (timesOf ls)"
  by (induction ls) (auto simp: timesOf_Cons split: option.splits)

lemma validLapTimes_timesOf: "validLapTimes m = timesOf (Map_values m)"
  by (simp add: validLapTimes_def timesOf_def)

lemma finite_validLapTimes [simp]: "finite (validLapTimes m)"
  by (simp add: validLapTimes_timesOf)

lemma fst_recomputeStep:
  "fst (recomputeStep acc l) =
     (case LapEntry.lapTimeMs l of
        None \<Rightarrow> fst acc
      | Some t \<Rightarrow> if \<not> LapEntry.valid l \<or> t \<le> 0 then fst acc
                  else if nullOrLess (fst acc) t then Some t else fst acc)"
  by (cases acc) (auto split: option.splits)

lemma accOk_step:
  assumes "finite T" "accOk best T"
  shows "accOk (if nullOrLess best t then Some t else best) (insert t T)"
  using assms
  by (auto simp: accOk_def nullOrLess_def min_def Min_insert2 split: option.splits)

lemma fold_recomputeStep_min:
  "finite T \<Longrightarrow> accOk (fst acc) T \<Longrightarrow> accOk (fst (foldl recomputeStep acc ls)) (T \<union> timesOf ls)"
proof (induction ls arbitrary: acc T)
  case Nil
  then show ?case by simp
next
  case (Cons l ls)
  let ?T' = "T \<union> timesOf [l]"
  have fin: "finite ?T'" using Cons.prems by simp
  have ok: "accOk (fst (recomputeStep acc l)) ?T'"
    using accOk_step[OF Cons.prems]
    by (auto simp: fst_recomputeStep timesOf_Cons Cons.prems split: option.splits)
  have "T \<union> timesOf (l # ls) = ?T' \<union> timesOf ls"
    by (auto simp: timesOf_Cons split: option.splits if_splits)
  with Cons.IH[OF fin ok] show ?case by simp
qed

lemma bestOf_min: "accOk (bestOf m) (validLapTimes m)"
proof -
  have "accOk (fst (None, None, None, None, None)) {}" by (simp add: accOk_def)
  from fold_recomputeStep_min[OF _ this, of "Map_values m"]
  show ?thesis by (simp add: bestOf_def validLapTimes_timesOf)
qed

lemma bestOf_Some_Min: "t \<in> validLapTimes m \<Longrightarrow> bestOf m = Some (Min (validLapTimes m))"
  using bestOf_min[of m] by (auto simp: accOk_def split: option.splits)

lemma bestOf_None_iff: "bestOf m = None \<longleftrightarrow> validLapTimes m = {}"
  using bestOf_min[of m] by (auto simp: accOk_def split: option.splits)

subsection \<open>What recomputeFromLaps writes\<close>

lemma recompute_lapsByNumber:
  "lapsByNumber (recomputeFromLaps s) = markAll (bestOf (lapsByNumber s)) (lapsByNumber s)"
  by (simp add: recomputeFromLaps_def syncLapsArrayFromMap_def bestOf_def markAll_def
      split: prod.splits)

lemma recompute_bestLapTimeMs:
  "LapsState.bestLapTimeMs (lapsState (recomputeFromLaps s)) = bestOf (lapsByNumber s)"
  by (simp add: recomputeFromLaps_def syncLapsArrayFromMap_def bestOf_def split: prod.splits)

lemma recompute_frame:
  "playerState (recomputeFromLaps s) = playerState s"
  "tyreByLapStart (recomputeFromLaps s) = tyreByLapStart s"
  "pitLaneTimeByLap (recomputeFromLaps s) = pitLaneTimeByLap s"
  "pitLaneStatusByLap (recomputeFromLaps s) = pitLaneStatusByLap s"
  "sessionHistoryByCarIndex (recomputeFromLaps s) = sessionHistoryByCarIndex s"
  "lapDataByIndex (recomputeFromLaps s) = lapDataByIndex s"
  "sessionKind (lapsState (recomputeFromLaps s)) = sessionKind (lapsState s)"
  "liveLapTimeMs (lapsState (recomputeFromLaps s)) = liveLapTimeMs (lapsState s)"
  "raceCars (lapsState (recomputeFromLaps s)) = raceCars (lapsState s)"
  by (simp_all add: recomputeFromLaps_def syncLapsArrayFromMap_def split: prod.splits)

lemma markLap_fields [simp]:
  "LapEntry.valid (markLap best l) = LapEntry.valid l"
  "LapEntry.lapTimeMs (markLap best l) = LapEntry.lapTimeMs l"
  "LapEntry.lapNumber (markLap best l) = LapEntry.lapNumber l"
  "LapEntry.sector1TimeMs (markLap best l) = LapEntry.sector1TimeMs l"
  "LapEntry.sector2TimeMs (markLap best l) = LapEntry.sector2TimeMs l"
  "LapEntry.sector3TimeMs (markLap best l) = LapEntry.sector3TimeMs l"
  "LapEntry.pitStatus (markLap best l) = LapEntry.pitStatus l"
  "LapEntry.pitLaneTimeMs (markLap best l) = LapEntry.pitLaneTimeMs l"
  "LapEntry.numPitStops (markLap best l) = LapEntry.numPitStops l"
  "LapEntry.tyreActualCompound (markLap best l) = LapEntry.tyreActualCompound l"
  "LapEntry.tyreVisualCompound (markLap best l) = LapEntry.tyreVisualCompound l"
  "LapEntry.tyresAgeLaps (markLap best l) = LapEntry.tyresAgeLaps l"
  by (simp_all add: markLap_def)

lemma validLapTimes_markAll [simp]: "validLapTimes (markAll best m) = validLapTimes m"
  by (force simp: validLapTimes_def markAll_def Map_values_def)

lemma bestOf_markAll [simp]: "bestOf (markAll best m) = bestOf m"
proof -
  have "foldl recomputeStep acc (Map_values (markAll best m)) = foldl recomputeStep acc (Map_values m)"
    for acc
  proof (induction m arbitrary: acc)
    case Nil
    then show ?case by (simp add: markAll_def Map_values_def)
  next
    case (Cons kv m)
    obtain k l where kv: "kv = (k, l)" by (cases kv)
    have "recomputeStep acc (markLap best l) = recomputeStep acc l"
      by (cases acc) (simp split: option.splits)
    with Cons show ?case by (simp add: markAll_def Map_values_def kv)
  qed
  then show ?thesis by (simp add: bestOf_def)
qed

section \<open>Maps, loops and the agreement of ledger and best\<close>

lemma Map_get_set [simp]: "Map_get (Map_set m k v) k' = (if k' = k then Some v else Map_get m k')"
  by (induction m) (auto simp: Map_get_def)

lemma Map_has_get: "Map_has m k \<longleftrightarrow> Map_get m k \<noteq> None"
  by (simp add: Map_has_def Map_get_def map_of_eq_None_iff)

lemma Map_has_set [simp]: "Map_has (Map_set m k v) k' \<longleftrightarrow> k' = k \<or> Map_has m k'"
  by (simp add: Map_has_get)

lemma Map_delete_twice: "filter P (Map_delete m k) = Map_delete (filter P m) k"
  by (induction m) (auto simp: Map_delete_def)

lemma foldl_delete_filter:
  "foldl (\<lambda>m' lapNum. if lapNum \<ge> cur then Map_delete m' lapNum else m') m ks
     = filter (\<lambda>kv. \<not> (fst kv \<ge> cur \<and> fst kv \<in> set ks)) m"
proof (induction ks arbitrary: m)
  case Nil then show ?case by simp
next
  case (Cons k ks)
  show ?case
    by (auto simp: Cons.IH Map_delete_def intro!: filter_cong)
qed

lemma deleteLapsFrom_filter: "deleteLapsFrom m cur = filter (\<lambda>kv. fst kv < cur) m"
  unfolding deleteLapsFrom_def foldl_delete_filter Map_keys_def
  by (rule filter_cong) auto

lemma Map_get_filter_key:
  "Map_get (filter (\<lambda>kv. P (fst kv)) m) k = (if P k then Map_get m k else None)"
  by (induction m) (auto simp: Map_get_def)

lemma Map_get_deleteLapsFrom [simp]:
  "Map_get (deleteLapsFrom m cur) k = (if k < cur then Map_get m k else None)"
  by (simp add: deleteLapsFrom_filter Map_get_filter_key[of "\<lambda>k. k < cur"])

lemma Map_has_deleteLapsFrom [simp]:
  "Map_has (deleteLapsFrom m cur) k \<longleftrightarrow> k < cur \<and> Map_has m k"
  by (simp add: Map_has_get)

lemma markLap_idem [simp]: "markLap best (markLap best l) = markLap best l"
  by (cases best; cases "LapEntry.lapTimeMs l") (simp_all add: markLap_def)

lemma markAll_idem [simp]: "markAll best (markAll best m) = markAll best m"
  by (induction m) (auto simp: markAll_def)

lemma recompute_bestsInv [simp]: "bestsInv (recomputeFromLaps s)"
  by (simp add: bestsInv_def recompute_bestLapTimeMs recompute_lapsByNumber)

lemma bestsInv_frame:
  "lapsByNumber s' = lapsByNumber s \<Longrightarrow>
   LapsState.bestLapTimeMs (lapsState s') = LapsState.bestLapTimeMs (lapsState s) \<Longrightarrow>
   bestsInv s \<Longrightarrow> bestsInv s'"
  unfolding bestsInv_def by metis

lemma penaltiesBlock_inv: "bestsInv s \<Longrightarrow> bestsInv (penaltiesBlock s lap)"
  by (erule bestsInv_frame[rotated 2]) (simp_all add: penaltiesBlock_def)

lemma rewindBlock_inv: "bestsInv s \<Longrightarrow> bestsInv (rewindBlock s lap)"
  by (simp add: rewindBlock_def split: option.splits)

lemma tyreAtLapStartBlock_inv: "bestsInv s \<Longrightarrow> bestsInv (tyreAtLapStartBlock s lap)"
  by (erule bestsInv_frame[rotated 2]) (simp_all add: tyreAtLapStartBlock_def)

lemma bestsInv_upd [simp]:
  "bestsInv (s\<lparr>playerState := p\<rparr>) = bestsInv s"
  "bestsInv (s\<lparr>pitLaneTimeByLap := t\<rparr>) = bestsInv s"
  "bestsInv (s\<lparr>pitLaneStatusByLap := u\<rparr>) = bestsInv s"
  "bestsInv (s\<lparr>tyreByLapStart := v\<rparr>) = bestsInv s"
  by (simp_all add: bestsInv_def)

lemma bestsInv_lapsState_upd:
  "LapsState.bestLapTimeMs ls = LapsState.bestLapTimeMs (lapsState s) \<Longrightarrow>
   bestsInv (s\<lparr>lapsState := ls\<rparr>) = bestsInv s"
  by (simp add: bestsInv_def)

lemma pitLaneBlock_inv: "bestsInv s \<Longrightarrow> bestsInv (pitLaneBlock s lap)"
  by (simp add: pitLaneBlock_def Let_def split: option.splits)

lemma liveTimesBlock_inv: "bestsInv s \<Longrightarrow> bestsInv (liveTimesBlock s lap)"
  by (erule bestsInv_frame[rotated 2]) (simp_all add: liveTimesBlock_def)

lemma liveBestSectorsBlock_inv: "bestsInv s \<Longrightarrow> bestsInv (liveBestSectorsBlock s lap)"
  by (simp add: liveBestSectorsBlock_def Let_def bestsInv_lapsState_upd split: option.splits)

lemma currentLapBlock_inv: "bestsInv s \<Longrightarrow> bestsInv (currentLapBlock s lap)"
  by (erule bestsInv_frame[rotated 2]) (simp_all add: currentLapBlock_def Let_def)

lemma finalizeLapBlock_inv: "bestsInv s \<Longrightarrow> bestsInv (finalizeLapBlock s pci lap)"
  by (simp add: finalizeLapBlock_def Let_def split: option.splits)

lemma liveDeltaBlock_inv: "bestsInv s \<Longrightarrow> bestsInv (liveDeltaBlock s lap)"
  by (erule bestsInv_frame[rotated 2]) (simp_all add: liveDeltaBlock_def Let_def)

lemma playerLapUpdate_inv: "bestsInv s \<Longrightarrow> bestsInv (playerLapUpdate s pci lap)"
  unfolding playerLapUpdate_def Let_def
  by (intro liveDeltaBlock_inv finalizeLapBlock_inv currentLapBlock_inv liveBestSectorsBlock_inv
      liveTimesBlock_inv pitLaneBlock_inv tyreAtLapStartBlock_inv rewindBlock_inv penaltiesBlock_inv)

lemma forEachM_inv:
  assumes "forEachM xs f s = Some s'" and "P s"
    and step: "\<And>s i s'. P s \<Longrightarrow> f s i = Some s' \<Longrightarrow> P s'"
  shows "P s'"
  using assms(1,2)
proof (induction xs arbitrary: s)
  case Nil then show ?case by simp
next
  case (Cons x xs)
  then show ?case by (auto split: option.splits dest: step)
qed

lemma bestsInv_upd2 [simp]:
  "bestsInv (s\<lparr>numActiveCars := a1\<rparr>) = bestsInv s"
  "bestsInv (s\<lparr>State.raceBestSector1TimeMs := a2\<rparr>) = bestsInv s"
  "bestsInv (s\<lparr>State.raceBestSector2TimeMs := a3\<rparr>) = bestsInv s"
  "bestsInv (s\<lparr>State.raceBestSector3TimeMs := a4\<rparr>) = bestsInv s"
  "bestsInv (s\<lparr>State.raceBestSector1CarIndex := a5\<rparr>) = bestsInv s"
  "bestsInv (s\<lparr>State.raceBestSector2CarIndex := a6\<rparr>) = bestsInv s"
  "bestsInv (s\<lparr>State.raceBestSector3CarIndex := a7\<rparr>) = bestsInv s"
  "bestsInv (s\<lparr>State.raceBestLapTimeMs := a8\<rparr>) = bestsInv s"
  "bestsInv (s\<lparr>State.raceBestLapCarIndex := a9\<rparr>) = bestsInv s"
  "bestsInv (s\<lparr>State.raceBestLapNum := a10\<rparr>) = bestsInv s"
  "bestsInv (s\<lparr>participantsNameByIndex := a11\<rparr>) = bestsInv s"
  "bestsInv (s\<lparr>participantsTeamIdByIndex := a12\<rparr>) = bestsInv s"
  "bestsInv (s\<lparr>participantsColorByIndex := a13\<rparr>) = bestsInv s"
  "bestsInv (s\<lparr>carStatusByIndex := a14\<rparr>) = bestsInv s"
  "bestsInv (s\<lparr>carTelemetryByIndex := a15\<rparr>) = bestsInv s"
  "bestsInv (s\<lparr>carDamageByIndex := a16\<rparr>) = bestsInv s"
  "bestsInv (s\<lparr>lapDataByIndex := a17\<rparr>) = bestsInv s"
  "bestsInv (s\<lparr>sectorCacheByIndex := a18\<rparr>) = bestsInv s"
  "bestsInv (s\<lparr>pitLaneStintByIndex := a19\<rparr>) = bestsInv s"
  "bestsInv (s\<lparr>sessionHistoryByCarIndex := a20\<rparr>) = bestsInv s"
  by (simp_all add: bestsInv_def)

lemma bestOf_Nil [simp]: "bestOf [] = None"
  by (simp add: bestOf_def Map_values_def)

lemma markAll_Nil [simp]: "markAll best [] = []"
  by (simp add: markAll_def)

lemma bestsInv_reset [simp]: "bestsInv (resetSessionState s uid)"
  by (simp add: bestsInv_def resetSessionState_def freshLapsState_def)

lemma bestsInv_initial: "bestsInv initialState"
  by (simp add: bestsInv_def initialState_def freshLapsState_def)

lemma resetIfNewSession_inv: "bestsInv s \<Longrightarrow> bestsInv (resetIfNewSession s header)"
  by (simp add: resetIfNewSession_def)

lemma handleSessionPacket_inv:
  "bestsInv s \<Longrightarrow> handleSessionPacket s buf = Some s' \<Longrightarrow> bestsInv s'"
  by (auto simp: handleSessionPacket_def Let_def bestsInv_lapsState_upd resetIfNewSession_inv
      split: option.splits if_splits bind_splits)

lemma participantStep_inv:
  "bestsInv s \<Longrightarrow> participantStep buf base s i = Some s' \<Longrightarrow> bestsInv s'"
  by (auto simp: participantStep_def Let_def split: if_splits bind_splits)

lemma participantLoop_inv:
  "forEachM xs (participantStep buf base) s = Some s' \<Longrightarrow> bestsInv s \<Longrightarrow> bestsInv s'"
  by (erule forEachM_inv) (auto intro: participantStep_inv)

lemma handleParticipantsPacket_inv:
  "bestsInv s \<Longrightarrow> handleParticipantsPacket s buf = Some s' \<Longrightarrow> bestsInv s'"
  by (auto simp: handleParticipantsPacket_def Let_def resetIfNewSession_inv
      split: option.splits if_splits bind_splits elim!: participantLoop_inv)

lemma overrideLapFromHistory_frame:
  "LapsState.bestLapTimeMs (lapsState (foldl overrideLapFromHistory s byLap)) = LapsState.bestLapTimeMs (lapsState s)"
  by (induction byLap arbitrary: s) (auto simp: overrideLapFromHistory_def split: option.splits)

lemma handleSessionHistoryPacket_inv:
  "bestsInv s \<Longrightarrow> handleSessionHistoryPacket s buf = Some s' \<Longrightarrow> bestsInv s'"
  by (auto simp: handleSessionHistoryPacket_def Let_def resetIfNewSession_inv applyPlayerHistory_def
      split: option.splits if_splits bind_splits)

lemma carStatusStep_inv: "bestsInv s \<Longrightarrow> carStatusStep buf s i = Some s' \<Longrightarrow> bestsInv s'"
  by (auto simp: carStatusStep_def split: option.splits bind_splits)

lemma carStatusLoop_inv:
  "forEachM xs (carStatusStep buf) s = Some s' \<Longrightarrow> bestsInv s \<Longrightarrow> bestsInv s'"
  by (erule forEachM_inv) (auto intro: carStatusStep_inv)

lemma playerTyresFromStatus_inv: "bestsInv s \<Longrightarrow> bestsInv (playerTyresFromStatus s pci)"
  by (simp add: playerTyresFromStatus_def bestsInv_lapsState_upd split: option.splits)

lemma backfillTyreAtLapStart_inv: "bestsInv s \<Longrightarrow> bestsInv (backfillTyreAtLapStart s)"
  by (simp add: backfillTyreAtLapStart_def Let_def split: option.splits)

lemma handleCarStatusPacket_inv:
  "bestsInv s \<Longrightarrow> handleCarStatusPacket s buf = Some s' \<Longrightarrow> bestsInv s'"
  by (auto simp: handleCarStatusPacket_def Let_def resetIfNewSession_inv
      split: option.splits bind_splits
      intro!: backfillTyreAtLapStart_inv playerTyresFromStatus_inv elim!: carStatusLoop_inv)

lemma carTelemetryStep_inv: "bestsInv s \<Longrightarrow> carTelemetryStep buf s i = Some s' \<Longrightarrow> bestsInv s'"
  by (auto simp: carTelemetryStep_def split: option.splits bind_splits)

lemma carTelemetryLoop_inv:
  "forEachM xs (carTelemetryStep buf) s = Some s' \<Longrightarrow> bestsInv s \<Longrightarrow> bestsInv s'"
  by (erule forEachM_inv) (auto intro: carTelemetryStep_inv)

lemma handleCarTelemetryPacket_inv:
  "bestsInv s \<Longrightarrow> handleCarTelemetryPacket s buf = Some s' \<Longrightarrow> bestsInv s'"
  by (auto simp: handleCarTelemetryPacket_def Let_def resetIfNewSession_inv bestsInv_lapsState_upd
      split: option.splits bind_splits if_splits elim!: carTelemetryLoop_inv)

lemma carDamageStep_inv: "bestsInv s \<Longrightarrow> carDamageStep buf s i = Some s' \<Longrightarrow> bestsInv s'"
  by (auto simp: carDamageStep_def split: option.splits bind_splits)

lemma carDamageLoop_inv:
  "forEachM xs (carDamageStep buf) s = Some s' \<Longrightarrow> bestsInv s \<Longrightarrow> bestsInv s'"
  by (erule forEachM_inv) (auto intro: carDamageStep_inv)

lemma handleCarDamagePacket_inv:
  "bestsInv s \<Longrightarrow> handleCarDamagePacket s buf = Some s' \<Longrightarrow> bestsInv s'"
  by (auto simp: handleCarDamagePacket_def Let_def resetIfNewSession_inv bestsInv_lapsState_upd
      split: option.splits bind_splits if_splits elim!: carDamageLoop_inv)

lemma lapDataStep_inv: "bestsInv s \<Longrightarrow> lapDataStep buf s i = Some s' \<Longrightarrow> bestsInv s'"
  by (auto simp: lapDataStep_def updateCarFromLapData_def Let_def split: option.splits bind_splits)

lemma lapDataLoop_inv:
  "forEachM xs (lapDataStep buf) s = Some s' \<Longrightarrow> bestsInv s \<Longrightarrow> bestsInv s'"
  by (erule forEachM_inv) (auto intro: lapDataStep_inv)

text \<open>The loop over the leaderboard writes the session-wide bests only.\<close>

lemma raceBestStep_frame:
  "lapsByNumber (fst (raceBestStep acc c)) = lapsByNumber (fst acc)"
  "lapsState (fst (raceBestStep acc c)) = lapsState (fst acc)"
  "playerState (fst (raceBestStep acc c)) = playerState (fst acc)"
  "tyreByLapStart (fst (raceBestStep acc c)) = tyreByLapStart (fst acc)"
  "pitLaneTimeByLap (fst (raceBestStep acc c)) = pitLaneTimeByLap (fst acc)"
  "pitLaneStatusByLap (fst (raceBestStep acc c)) = pitLaneStatusByLap (fst acc)"
  "sessionHistoryByCarIndex (fst (raceBestStep acc c)) = sessionHistoryByCarIndex (fst acc)"
  "lapDataByIndex (fst (raceBestStep acc c)) = lapDataByIndex (fst acc)"
  by (cases acc; simp add: raceBestStep_def Let_def split: option.splits)+

lemma raceBestFold_frame:
  "lapsByNumber (fst (foldl raceBestStep acc cs)) = lapsByNumber (fst acc)"
  "lapsState (fst (foldl raceBestStep acc cs)) = lapsState (fst acc)"
  "playerState (fst (foldl raceBestStep acc cs)) = playerState (fst acc)"
  "tyreByLapStart (fst (foldl raceBestStep acc cs)) = tyreByLapStart (fst acc)"
  "pitLaneTimeByLap (fst (foldl raceBestStep acc cs)) = pitLaneTimeByLap (fst acc)"
  "pitLaneStatusByLap (fst (foldl raceBestStep acc cs)) = pitLaneStatusByLap (fst acc)"
  "sessionHistoryByCarIndex (fst (foldl raceBestStep acc cs)) = sessionHistoryByCarIndex (fst acc)"
  "lapDataByIndex (fst (foldl raceBestStep acc cs)) = lapDataByIndex (fst acc)"
  by (induction cs arbitrary: acc; simp add: raceBestStep_frame)+

lemma updateRaceCars_frame:
  "lapsByNumber (updateRaceCars s pci) = lapsByNumber s"
  "playerState (updateRaceCars s pci) = playerState s"
  "tyreByLapStart (updateRaceCars s pci) = tyreByLapStart s"
  "pitLaneTimeByLap (updateRaceCars s pci) = pitLaneTimeByLap s"
  "pitLaneStatusByLap (updateRaceCars s pci) = pitLaneStatusByLap s"
  "sessionHistoryByCarIndex (updateRaceCars s pci) = sessionHistoryByCarIndex s"
  "lapDataByIndex (updateRaceCars s pci) = lapDataByIndex s"
  "LapsState.bestLapTimeMs (lapsState (updateRaceCars s pci)) = LapsState.bestLapTimeMs (lapsState s)"
  "liveLapTimeMs (lapsState (updateRaceCars s pci)) = liveLapTimeMs (lapsState s)"
  "sessionKind (lapsState (updateRaceCars s pci)) = sessionKind (lapsState s)"
  using raceBestFold_frame[of "(s, State.raceBestLapNum s)" "withGaps s (raceCarsRaw s pci)"]
  by (auto simp: updateRaceCars_def Let_def split: prod.splits)

lemma updateRaceCars_inv: "bestsInv s \<Longrightarrow> bestsInv (updateRaceCars s pci)"
  by (erule bestsInv_frame[rotated 2]) (simp_all add: updateRaceCars_frame)

lemma handleLapDataPacket_inv:
  "bestsInv s \<Longrightarrow> handleLapDataPacket s buf = Some s' \<Longrightarrow> bestsInv s'"
  by (auto simp: handleLapDataPacket_def Let_def resetIfNewSession_inv bestsInv_lapsState_upd
      split: option.splits bind_splits if_splits
      intro!: updateRaceCars_inv playerLapUpdate_inv elim!: lapDataLoop_inv)

lemma onMessage_inv: "bestsInv s \<Longrightarrow> onMessage s buf = Some s' \<Longrightarrow> bestsInv s'"
  by (auto simp: onMessage_def split: option.splits bind_splits if_splits
      dest: handleSessionPacket_inv handleParticipantsPacket_inv handleSessionHistoryPacket_inv
        handleLapDataPacket_inv handleCarTelemetryPacket_inv handleCarStatusPacket_inv
        handleCarDamagePacket_inv)

lemma reachable_bestsInv: "reachable s \<Longrightarrow> bestsInv s"
  by (induction rule: reachable.induct) (auto intro: bestsInv_initial onMessage_inv)

section \<open>The example ledger, recomputed\<close>

lemma exampleState_recomputed:
  "lapsByNumber (recomputeFromLaps exampleState) =
     [(1, (exampleLap 1 90000 True)\<lparr>deltaMs := Some 2000\<rparr>),
      (2, (exampleLap 2 88000 True)\<lparr>deltaMs := Some 0, isBest := True\<rparr>),
      (3, exampleLap 3 85000 False)]"
  by (simp add: recomputeFromLaps_def exampleState_def exampleLedger_def exampleLap_def
      Map_values_def nullOrLess_def betterSector_def markLap_def syncLapsArrayFromMap_def)

lemma exampleState_best: "LapsState.bestLapTimeMs (lapsState (recomputeFromLaps exampleState)) = Some 88000"
  by (simp add: recompute_bestLapTimeMs bestOf_def exampleState_def exampleLedger_def exampleLap_def
      Map_values_def nullOrLess_def betterSector_def)

section \<open>The blocks of the player's update\<close>

lemma liveDeltaBlock_fields:
  "liveLapTimeMs (lapsState (liveDeltaBlock s lap)) = liveLapTimeMs (lapsState s)"
  "LapsState.bestLapTimeMs (lapsState (liveDeltaBlock s lap)) = LapsState.bestLapTimeMs (lapsState s)"
  "liveDeltaToBestMs (lapsState (liveDeltaBlock s lap)) =
     (case LapsState.bestLapTimeMs (lapsState s) of
        None \<Rightarrow> None
      | Some best \<Rightarrow> if 0 < liveLapTimeMs (lapsState s) then Some (best - liveLapTimeMs (lapsState s)) else None)"
  "lapsByNumber (liveDeltaBlock s lap) = lapsByNumber s"
  by (simp_all add: liveDeltaBlock_def Let_def split: option.splits)

lemma liveLapTimeMs_blocks:
  "liveLapTimeMs (lapsState (liveTimesBlock s lap)) = currentLapTimeInMS lap"
  "liveLapTimeMs (lapsState (liveBestSectorsBlock s lap)) = liveLapTimeMs (lapsState s)"
  "liveLapTimeMs (lapsState (currentLapBlock s lap)) = liveLapTimeMs (lapsState s)"
  "liveLapTimeMs (lapsState (finalizeLapBlock s pci lap)) = liveLapTimeMs (lapsState s)"
  by (simp_all add: liveTimesBlock_def liveBestSectorsBlock_def currentLapBlock_def
      finalizeLapBlock_def Let_def recompute_frame split: option.splits)

lemma playerLapUpdate_liveLapTimeMs:
  "liveLapTimeMs (lapsState (playerLapUpdate s pci lap)) = currentLapTimeInMS lap"
  by (simp add: playerLapUpdate_def Let_def liveDeltaBlock_fields liveLapTimeMs_blocks)

lemma playerLapUpdate_liveDelta:
  "liveDeltaToBestMs (lapsState (playerLapUpdate s pci lap)) =
     (case LapsState.bestLapTimeMs (lapsState (playerLapUpdate s pci lap)) of
        None \<Rightarrow> None
      | Some best \<Rightarrow>
          if 0 < liveLapTimeMs (lapsState (playerLapUpdate s pci lap))
          then Some (best - liveLapTimeMs (lapsState (playerLapUpdate s pci lap))) else None)"
proof -
  obtain s8 where "playerLapUpdate s pci lap = liveDeltaBlock s8 lap"
    by (simp add: playerLapUpdate_def Let_def)
  then show ?thesis
    by (simp add: liveDeltaBlock_fields split: option.splits)
qed

lemma bestsInv_deltaMs:
  assumes "bestsInv s" "(k, l) \<in> set (lapsByNumber s)"
  shows "deltaMs l =
     (case (LapsState.bestLapTimeMs (lapsState s), LapEntry.lapTimeMs l) of
        (Some best, Some t) \<Rightarrow> if LapEntry.valid l \<and> 0 < t then Some (t - best) else None
      | _ \<Rightarrow> None)"
proof -
  let ?b = "LapsState.bestLapTimeMs (lapsState s)"
  from assms have "(k, l) \<in> set (markAll ?b (lapsByNumber s))"
    unfolding bestsInv_def by metis
  then obtain l0 where "l = markLap ?b l0" by (auto simp: markAll_def)
  then show ?thesis by (simp add: markLap_def split: option.splits)
qed

lemma recompute_ledger_inv: "bestsInv s \<Longrightarrow> lapsByNumber (recomputeFromLaps s) = lapsByNumber s"
  unfolding recompute_lapsByNumber bestsInv_def by metis

lemma recompute_best_inv:
  "bestsInv s \<Longrightarrow> LapsState.bestLapTimeMs (lapsState (recomputeFromLaps s)) = LapsState.bestLapTimeMs (lapsState s)"
  unfolding recompute_bestLapTimeMs bestsInv_def by metis

text \<open>Blocks that leave the ledger and the personal best as they are.\<close>

lemma quiet_blocks:
  "lapsByNumber (penaltiesBlock s lap) = lapsByNumber s"
  "LapsState.bestLapTimeMs (lapsState (penaltiesBlock s lap)) = LapsState.bestLapTimeMs (lapsState s)"
  "lapsByNumber (tyreAtLapStartBlock s lap) = lapsByNumber s"
  "LapsState.bestLapTimeMs (lapsState (tyreAtLapStartBlock s lap)) = LapsState.bestLapTimeMs (lapsState s)"
  "lapsByNumber (liveTimesBlock s lap) = lapsByNumber s"
  "LapsState.bestLapTimeMs (lapsState (liveTimesBlock s lap)) = LapsState.bestLapTimeMs (lapsState s)"
  "lapsByNumber (currentLapBlock s lap) = lapsByNumber s"
  "LapsState.bestLapTimeMs (lapsState (currentLapBlock s lap)) = LapsState.bestLapTimeMs (lapsState s)"
  "lapsByNumber (liveDeltaBlock s lap) = lapsByNumber s"
  "LapsState.bestLapTimeMs (lapsState (liveDeltaBlock s lap)) = LapsState.bestLapTimeMs (lapsState s)"
  by (simp_all add: penaltiesBlock_def tyreAtLapStartBlock_def liveTimesBlock_def currentLapBlock_def
      liveDeltaBlock_def Let_def)

lemma liveBestSectorsBlock_quiet:
  assumes "bestsInv s"
  shows "lapsByNumber (liveBestSectorsBlock s lap) = lapsByNumber s"
    and "LapsState.bestLapTimeMs (lapsState (liveBestSectorsBlock s lap)) = LapsState.bestLapTimeMs (lapsState s)"
  using assms
  by (simp_all add: liveBestSectorsBlock_def Let_def recompute_ledger_inv recompute_best_inv
      split: option.splits)

lemma playerState_blocks:
  "playerState (penaltiesBlock s lap) = playerState s"
  "playerState (tyreAtLapStartBlock s lap) = playerState s"
  "playerState (liveBestSectorsBlock s lap) = playerState s"
  "playerState (currentLapBlock s lap) = playerState s"
  "PlayerState.currentLapNum (playerState (liveTimesBlock s lap)) = PlayerState.currentLapNum (playerState s)"
  "PlayerState.currentLapNum (playerState (pitLaneBlock s lap)) = PlayerState.currentLapNum (playerState s)"
  by (simp_all add: penaltiesBlock_def tyreAtLapStartBlock_def liveBestSectorsBlock_def
      currentLapBlock_def liveTimesBlock_def pitLaneBlock_def Let_def recompute_frame
      split: option.splits)

lemma first_lap_quiet:
  assumes "bestsInv s" "PlayerState.currentLapNum (playerState s) = None"
    "\<not> pitLaneActive (playerState s)" "pitLaneTimerActive lap \<noteq> 1"
  shows "lapsByNumber (playerLapUpdate s pci lap) = lapsByNumber s"
    and "LapsState.bestLapTimeMs (lapsState (playerLapUpdate s pci lap)) = LapsState.bestLapTimeMs (lapsState s)"
proof -
  let ?s1 = "penaltiesBlock s lap"
  have s2: "rewindBlock ?s1 lap = ?s1"
    using assms(2) by (simp add: rewindBlock_def playerState_blocks)
  let ?s3 = "tyreAtLapStartBlock ?s1 lap"
  have s4: "pitLaneBlock ?s3 lap = ?s3"
    using assms(3,4) by (simp add: pitLaneBlock_def playerState_blocks)
  let ?s5 = "liveTimesBlock ?s3 lap"
  have inv5: "bestsInv ?s5"
    using assms(1) by (intro liveTimesBlock_inv tyreAtLapStartBlock_inv penaltiesBlock_inv)
  let ?s7 = "currentLapBlock (liveBestSectorsBlock ?s5 lap) lap"
  have s8: "finalizeLapBlock ?s7 pci lap = ?s7"
    using assms(2) by (simp add: finalizeLapBlock_def playerState_blocks)
  have eq: "playerLapUpdate s pci lap = liveDeltaBlock ?s7 lap"
    by (simp add: playerLapUpdate_def Let_def s2 s4 s8)
  show "lapsByNumber (playerLapUpdate s pci lap) = lapsByNumber s"
    by (simp add: eq quiet_blocks liveBestSectorsBlock_quiet[OF inv5])
  show "LapsState.bestLapTimeMs (lapsState (playerLapUpdate s pci lap)) = LapsState.bestLapTimeMs (lapsState s)"
    by (simp add: eq quiet_blocks liveBestSectorsBlock_quiet[OF inv5])
qed

section \<open>Decoders and handlers that never throw\<close>

text \<open>
  The decoders that test the length against all the bytes they read return on every
  buffer, and so do the handlers built on them.
\<close>

lemma readLE_Some: "off + n \<le> length buf \<Longrightarrow> readLE n buf off = Some (leNat (take n (drop off buf)))"
  by (simp add: readLE_def)

lemma parseHeader_short: "length buf < 29 \<Longrightarrow> parseHeader buf = Some None"
  by (simp add: parseHeader_def sizes)

lemma parseHeader_long: "29 \<le> length buf \<Longrightarrow> \<exists>h. parseHeader buf = Some (Some h)"
  by (simp add: parseHeader_def sizes reads)

lemma parseHeader_total: "\<exists>r. parseHeader buf = Some r"
  using parseHeader_short[of buf] parseHeader_long[of buf] by (cases "length buf < 29") auto

lemma parseLapDataForCar_short:
  "length buf < off + 57 \<Longrightarrow> parseLapDataForCar buf off = Some None"
  by (simp add: parseLapDataForCar_def sizes)

lemma parseLapDataForCar_long:
  "off + 57 \<le> length buf \<Longrightarrow> \<exists>l. parseLapDataForCar buf off = Some (Some l)"
  by (simp add: parseLapDataForCar_def sizes reads Let_def)

lemma parseLapDataForCar_total: "\<exists>r. parseLapDataForCar buf off = Some r"
  using parseLapDataForCar_short[of buf off] parseLapDataForCar_long[of off buf]
  by (cases "length buf < off + 57") auto

lemma parseCarStatusForCar_total: "\<exists>r. parseCarStatusForCar buf off = Some r"
  by (cases "length buf < off + 55") (simp_all add: parseCarStatusForCar_def sizes reads)

lemma parseCarTelemetryForCar_total: "\<exists>r. parseCarTelemetryForCar buf off = Some r"
  by (cases "length buf < off + 60") (simp_all add: parseCarTelemetryForCar_def sizes reads)

lemma parseLapHistoryEntry_total:
  "off + 14 \<le> length buf \<Longrightarrow> \<exists>e. parseLapHistoryEntry buf off = Some e"
  by (simp add: parseLapHistoryEntry_def reads)

lemma forEachM_total:
  assumes "\<And>s i. \<exists>s'. f s i = Some s'"
  shows "\<exists>s'. forEachM xs f s = Some s'"
proof (induction xs arbitrary: s)
  case Nil then show ?case by simp
next
  case (Cons x xs)
  obtain s1 where "f s x = Some s1" using assms by blast
  with Cons.IH[of s1] show ?case by simp
qed

lemma lapDataStep_total: "\<exists>s'. lapDataStep buf s i = Some s'"
  using parseLapDataForCar_total[of buf "HEADER_SIZE + i * LAP_DATA_SIZE"]
  by (auto simp: lapDataStep_def)

lemma carStatusStep_total: "\<exists>s'. carStatusStep buf s i = Some s'"
  using parseCarStatusForCar_total[of buf "HEADER_SIZE + i * CAR_STATUS_DATA_SIZE"]
  by (auto simp: carStatusStep_def)

lemma carTelemetryStep_total: "\<exists>s'. carTelemetryStep buf s i = Some s'"
  using parseCarTelemetryForCar_total[of buf "HEADER_SIZE + i * CAR_TELEMETRY_DATA_SIZE"]
  by (auto simp: carTelemetryStep_def)

lemma handleLapDataPacket_total: "\<exists>s'. handleLapDataPacket s buf = Some s'"
proof -
  obtain r where r: "parseHeader buf = Some r" using parseHeader_total by blast
  show ?thesis
  proof (cases r)
    case None
    then show ?thesis by (simp add: handleLapDataPacket_def r)
  next
    case (Some header)
    obtain s3 where "forEachM [0..<NUM_CARS] (lapDataStep buf)
        ((resetIfNewSession s header)\<lparr>lapsState := (lapsState (resetIfNewSession s header))
            \<lparr>isConnected := True, LapsState.playerCarIndex := Some (Header.playerCarIndex header)\<rparr>\<rparr>) = Some s3"
      using forEachM_total[of "lapDataStep buf", OF lapDataStep_total] by blast
    then show ?thesis by (simp add: handleLapDataPacket_def r Some Let_def)
  qed
qed

lemma handleCarStatusPacket_total: "\<exists>s'. handleCarStatusPacket s buf = Some s'"
proof -
  obtain r where r: "parseHeader buf = Some r" using parseHeader_total by blast
  show ?thesis
  proof (cases r)
    case None
    then show ?thesis by (simp add: handleCarStatusPacket_def r)
  next
    case (Some header)
    obtain s2 where "forEachM [0..<NUM_CARS] (carStatusStep buf) (resetIfNewSession s header) = Some s2"
      using forEachM_total[of "carStatusStep buf", OF carStatusStep_total] by blast
    then show ?thesis by (simp add: handleCarStatusPacket_def r Some Let_def)
  qed
qed

lemma handleCarTelemetryPacket_total: "\<exists>s'. handleCarTelemetryPacket s buf = Some s'"
proof -
  obtain r where r: "parseHeader buf = Some r" using parseHeader_total by blast
  show ?thesis
  proof (cases r)
    case None
    then show ?thesis by (simp add: handleCarTelemetryPacket_def r)
  next
    case (Some header)
    obtain s2 where "forEachM [0..<NUM_CARS] (carTelemetryStep buf) (resetIfNewSession s header) = Some s2"
      using forEachM_total[of "carTelemetryStep buf", OF carTelemetryStep_total] by blast
    then show ?thesis by (simp add: handleCarTelemetryPacket_def r Some Let_def)
  qed
qed

lemma readLapHistory_total: "\<exists>m. readLapHistory buf base is byLap = Some m"
proof (induction "is" arbitrary: byLap)
  case Nil then show ?case by simp
next
  case (Cons i rest)
  show ?case
  proof (cases "base + i * LAP_HISTORY_DATA_SIZE + LAP_HISTORY_DATA_SIZE > length buf")
    case True then show ?thesis by simp
  next
    case False
    then obtain e where "parseLapHistoryEntry buf (base + i * LAP_HISTORY_DATA_SIZE) = Some e"
      using parseLapHistoryEntry_total[of "base + i * LAP_HISTORY_DATA_SIZE" buf]
      by (auto simp: sizes)
    with False Cons.IH show ?thesis by simp
  qed
qed

lemma handleSessionHistoryPacket_total: "\<exists>s'. handleSessionHistoryPacket s buf = Some s'"
proof -
  obtain r where r: "parseHeader buf = Some r" using parseHeader_total by blast
  show ?thesis
  proof (cases r)
    case None
    then show ?thesis by (simp add: handleSessionHistoryPacket_def r)
  next
    case (Some header)
    show ?thesis
    proof (cases "length buf < HEADER_SIZE + 7 + LAP_HISTORY_DATA_SIZE")
      case True
      then show ?thesis
        by (cases "length buf < HEADER_SIZE + 7")
           (simp_all add: handleSessionHistoryPacket_def r Some Let_def reads sizes)
    next
      case False
      then have rd: "\<exists>c. readUInt8 buf (HEADER_SIZE + 0) = Some c" "\<exists>n. readUInt8 buf (HEADER_SIZE + 1) = Some n"
        by (simp_all add: reads sizes)
      then obtain c n where cn: "readUInt8 buf (HEADER_SIZE + 0) = Some c" "readUInt8 buf (HEADER_SIZE + 1) = Some n"
        by blast
      obtain m where "readLapHistory buf (HEADER_SIZE + 7) [0..<min n 100] [] = Some m"
        using readLapHistory_total by blast
      with False cn show ?thesis
        by (simp add: handleSessionHistoryPacket_def r Some Let_def)
    qed
  qed
qed

section \<open>The leaderboard and the frame of a lap-data update\<close>

lemma raceCarFilter_iff:
  "raceCarFilter s pci (i, lap) \<longleftrightarrow>
     hasKnownName s i \<and> (i = pci \<or> (belowActiveCount s i \<and> resultStatus lap \<noteq> 0))"
  by (auto simp: raceCarFilter_def hasKnownName_def belowActiveCount_def split: option.splits)

lemma carIndex_toRaceCar [simp]: "carIndex (toRaceCar s (i, lap)) = i"
  by (simp add: toRaceCar_def Let_def split: prod.splits)

lemma set_Map_set: "set (Map_set m k v) \<subseteq> insert (k, v) (set m)"
  by (induction m) (auto split: if_splits)

lemma byCarIndex_keys:
  assumes "\<forall>(k, c) \<in> set m. carIndex c = k"
  shows "\<forall>(k, c) \<in> set (foldl (\<lambda>m c. Map_set m (carIndex c) c) m cs). carIndex c = k"
  using assms
proof (induction cs arbitrary: m)
  case Nil then show ?case by simp
next
  case (Cons c cs)
  have "\<forall>(k, c') \<in> set (Map_set m (carIndex c) c). carIndex c' = k"
    using Cons.prems set_Map_set[of m "carIndex c" c] by auto
  from Cons.IH[OF this] show ?case by simp
qed

lemma carIndex_withGaps: "map carIndex (withGaps s raw) = map carIndex raw"
proof -
  define sorted where "sorted =
            (if sessionKind (lapsState s) = Some time_attack
             then gapsTimeAttack None (sortBy cmpTimeAttack raw)
             else gapsRace None (sortBy cmpPosition raw))"
  define byCarIndex where "byCarIndex = foldl (\<lambda>m c. Map_set m (carIndex c) c) [] sorted"
  have keys: "\<forall>(k, c) \<in> set byCarIndex. carIndex c = k"
    unfolding byCarIndex_def by (rule byCarIndex_keys) simp
  have "carIndex (case Map_get byCarIndex (carIndex c) of Some c' \<Rightarrow> c' | None \<Rightarrow> c) = carIndex c" for c
    using keys by (auto simp: Map_get_def split: option.splits dest!: map_of_SomeD)
  then show ?thesis
    by (simp add: withGaps_def Let_def sorted_def[symmetric] byCarIndex_def[symmetric])
qed

lemma raceCars_updateRaceCars:
  "raceCars (lapsState (updateRaceCars s pci)) = withGaps s (raceCarsRaw s pci)"
  by (simp add: updateRaceCars_def Let_def split: prod.splits)

lemma leaderboard_indices:
  "map carIndex (raceCars (lapsState (updateRaceCars s pci)))
     = map fst (filter (raceCarFilter s pci) (lapDataByIndex s))"
  by (simp add: raceCars_updateRaceCars carIndex_withGaps raceCarsRaw_def comp_def
      split_def cong: map_cong)

lemma recompute_frame2:
  "numActiveCars (recomputeFromLaps s) = numActiveCars s"
  "participantsNameByIndex (recomputeFromLaps s) = participantsNameByIndex s"
  "participantsTeamIdByIndex (recomputeFromLaps s) = participantsTeamIdByIndex s"
  "participantsColorByIndex (recomputeFromLaps s) = participantsColorByIndex s"
  "carStatusByIndex (recomputeFromLaps s) = carStatusByIndex s"
  "carTelemetryByIndex (recomputeFromLaps s) = carTelemetryByIndex s"
  "carDamageByIndex (recomputeFromLaps s) = carDamageByIndex s"
  "sectorCacheByIndex (recomputeFromLaps s) = sectorCacheByIndex s"
  "pitLaneStintByIndex (recomputeFromLaps s) = pitLaneStintByIndex s"
  "currentLap (lapsState (recomputeFromLaps s)) = currentLap (lapsState s)"
  "liveDeltaToBestMs (lapsState (recomputeFromLaps s)) = liveDeltaToBestMs (lapsState s)"
  "LapsState.playerCarIndex (lapsState (recomputeFromLaps s)) = LapsState.playerCarIndex (lapsState s)"
  by (simp_all add: recomputeFromLaps_def syncLapsArrayFromMap_def split: prod.splits)

lemmas block_defs =
  penaltiesBlock_def rewindBlock_def tyreAtLapStartBlock_def pitLaneBlock_def liveTimesBlock_def
  liveBestSectorsBlock_def currentLapBlock_def finalizeLapBlock_def liveDeltaBlock_def

lemma playerLapUpdate_frame:
  "raceCars (lapsState (playerLapUpdate s pci lap)) = raceCars (lapsState s)"
  "lapDataByIndex (playerLapUpdate s pci lap) = lapDataByIndex s"
  "participantsNameByIndex (playerLapUpdate s pci lap) = participantsNameByIndex s"
  "numActiveCars (playerLapUpdate s pci lap) = numActiveCars s"
  "sessionHistoryByCarIndex (playerLapUpdate s pci lap) = sessionHistoryByCarIndex s"
proof -
  have b: "raceCars (lapsState (f s' lap)) = raceCars (lapsState s')
      \<and> lapDataByIndex (f s' lap) = lapDataByIndex s'
      \<and> participantsNameByIndex (f s' lap) = participantsNameByIndex s'
      \<and> numActiveCars (f s' lap) = numActiveCars s'
      \<and> sessionHistoryByCarIndex (f s' lap) = sessionHistoryByCarIndex s'"
    if "f \<in> {penaltiesBlock, rewindBlock, tyreAtLapStartBlock, pitLaneBlock, liveTimesBlock,
        liveBestSectorsBlock, currentLapBlock, \<lambda>s l. finalizeLapBlock s pci l, liveDeltaBlock}" for f s'
    using that
    by (auto simp: block_defs Let_def recompute_frame recompute_frame2 split: option.splits)
  show "raceCars (lapsState (playerLapUpdate s pci lap)) = raceCars (lapsState s)"
    "lapDataByIndex (playerLapUpdate s pci lap) = lapDataByIndex s"
    "participantsNameByIndex (playerLapUpdate s pci lap) = participantsNameByIndex s"
    "numActiveCars (playerLapUpdate s pci lap) = numActiveCars s"
    "sessionHistoryByCarIndex (playerLapUpdate s pci lap) = sessionHistoryByCarIndex s"
    unfolding playerLapUpdate_def Let_def
    using b[of liveDeltaBlock] b[of "\<lambda>s l. finalizeLapBlock s pci l"] b[of currentLapBlock]
      b[of liveBestSectorsBlock] b[of liveTimesBlock] b[of pitLaneBlock] b[of tyreAtLapStartBlock]
      b[of rewindBlock] b[of penaltiesBlock]
    by simp_all
qed

lemma lapDataStep_names:
  "lapDataStep buf s i = Some s' \<Longrightarrow>
   participantsNameByIndex s' = participantsNameByIndex s \<and> numActiveCars s' = numActiveCars s"
  by (auto simp: lapDataStep_def updateCarFromLapData_def Let_def split: option.splits bind_splits)

lemma lapDataLoop_names:
  assumes "forEachM xs (lapDataStep buf) s = Some s'"
  shows "participantsNameByIndex s' = participantsNameByIndex s \<and> numActiveCars s' = numActiveCars s"
  by (rule forEachM_inv[OF assms, where P = "\<lambda>t. participantsNameByIndex t = participantsNameByIndex s \<and> numActiveCars t = numActiveCars s"])
     (auto dest: lapDataStep_names)

lemma updateRaceCars_frame2:
  "participantsNameByIndex (updateRaceCars s pci) = participantsNameByIndex s"
  "numActiveCars (updateRaceCars s pci) = numActiveCars s"
proof -
  have "participantsNameByIndex (fst (foldl raceBestStep acc cs)) = participantsNameByIndex (fst acc)
      \<and> numActiveCars (fst (foldl raceBestStep acc cs)) = numActiveCars (fst acc)" for acc cs
  proof (induction cs arbitrary: acc)
    case Nil then show ?case by simp
  next
    case (Cons c cs)
    have "participantsNameByIndex (fst (raceBestStep acc c)) = participantsNameByIndex (fst acc)
      \<and> numActiveCars (fst (raceBestStep acc c)) = numActiveCars (fst acc)"
      by (cases acc) (simp add: raceBestStep_def Let_def split: option.splits)
    with Cons.IH[of "raceBestStep acc c"] show ?case by simp
  qed
  from this[of "(s, State.raceBestLapNum s)" "withGaps s (raceCarsRaw s pci)"]
  show "participantsNameByIndex (updateRaceCars s pci) = participantsNameByIndex s"
    "numActiveCars (updateRaceCars s pci) = numActiveCars s"
    by (auto simp: updateRaceCars_def Let_def split: prod.splits)
qed

lemma hasKnownName_cong:
  "participantsNameByIndex s' = participantsNameByIndex s \<Longrightarrow> hasKnownName s' = hasKnownName s"
  by (simp add: hasKnownName_def fun_eq_iff)

lemma belowActiveCount_cong:
  "numActiveCars s' = numActiveCars s \<Longrightarrow> belowActiveCount s' = belowActiveCount s"
  by (simp add: belowActiveCount_def fun_eq_iff)

lemma raceCarFilter_cong:
  "participantsNameByIndex s' = participantsNameByIndex s \<Longrightarrow> numActiveCars s' = numActiveCars s \<Longrightarrow>
   raceCarFilter s' = raceCarFilter s"
  by (simp add: raceCarFilter_def fun_eq_iff)

lemma onLeaderboard_updateRaceCars:
  "onLeaderboard (updateRaceCars s pci) i \<longleftrightarrow>
     (\<exists>lap. (i, lap) \<in> set (lapDataByIndex s) \<and> hasKnownName s i
        \<and> (i = pci \<or> (belowActiveCount s i \<and> resultStatus lap \<noteq> 0)))"
  unfolding onLeaderboard_def leaderboard_indices
  by (force simp: raceCarFilter_iff)

text \<open>The shape of a lap-data update once the header has been read.\<close>

lemma handleLapDataPacket_shape:
  assumes "handleLapDataPacket s buf = Some s'" and "parseHeader buf = Some (Some header)"
  obtains s3 where
    "s' = updateRaceCars s3 (Header.playerCarIndex header)
       \<or> (\<exists>lap. s' = playerLapUpdate (updateRaceCars s3 (Header.playerCarIndex header))
                      (Header.playerCarIndex header) lap)"
  using assms
  by (auto simp: handleLapDataPacket_def Let_def split: bind_splits if_splits option.splits)

lemma parseHeader_lapDatagram: "parseHeader lapDatagram = Some (Some lapDatagramHeader)"
  by (simp add: parseHeader_def lapDatagram_def lapDatagramHeader_def reads sizes)

lemma lapDataLoop_short:
  assumes "\<forall>i \<in> set xs. length buf < HEADER_SIZE + i * LAP_DATA_SIZE + 57"
  shows "forEachM xs (lapDataStep buf) s = Some s"
  using assms
  by (induction xs) (simp_all add: lapDataStep_def parseLapDataForCar_short)

lemma handleLapDataPacket_frame:
  assumes "handleLapDataPacket s buf = Some s'" and "parseHeader buf = Some (Some header)"
  shows "\<exists>s3. forEachM [0..<NUM_CARS] (lapDataStep buf)
             ((resetIfNewSession s header)\<lparr>lapsState := (lapsState (resetIfNewSession s header))
                \<lparr>isConnected := True,
                 LapsState.playerCarIndex := Some (Header.playerCarIndex header)\<rparr>\<rparr>) = Some s3
           \<and> lapDataByIndex s' = lapDataByIndex s3
           \<and> participantsNameByIndex s' = participantsNameByIndex (resetIfNewSession s header)
           \<and> numActiveCars s' = numActiveCars (resetIfNewSession s header)"
  using assms
  by (auto simp: handleLapDataPacket_def Let_def playerLapUpdate_frame updateRaceCars_frame
      updateRaceCars_frame2 split: bind_splits if_splits option.splits dest!: lapDataLoop_names)

lemma exampleBoard_after:
  assumes "handleLapDataPacket exampleBoardState lapDatagram = Some s'"
  shows "\<exists>l0. lapDataByIndex s' =
           [(1, (exampleLapData 1 0)\<lparr>resultStatus := 0\<rparr>), (2, exampleLapData 1 0),
            (3, exampleLapData 1 0), (0, l0)]"
    and "participantsNameByIndex s' = [(0, [0x41]), (1, [0x42]), (2, [0x43]), (3, [0x44])]"
    and "numActiveCars s' = Some 3"
proof -
  have r: "resetIfNewSession exampleBoardState lapDatagramHeader = exampleBoardState"
    by (simp add: resetIfNewSession_def exampleBoardState_def lapDatagramHeader_def)
  from handleLapDataPacket_frame[OF assms parseHeader_lapDatagram] obtain s3 where
    loop: "forEachM [0..<NUM_CARS] (lapDataStep lapDatagram)
             (exampleBoardState\<lparr>lapsState := (lapsState exampleBoardState)
                \<lparr>isConnected := True, LapsState.playerCarIndex := Some 0\<rparr>\<rparr>) = Some s3"
    and f: "lapDataByIndex s' = lapDataByIndex s3"
      "participantsNameByIndex s' = participantsNameByIndex exampleBoardState"
      "numActiveCars s' = numActiveCars exampleBoardState"
    unfolding r by (auto simp: lapDatagramHeader_def)
  obtain l0 where l0: "parseLapDataForCar lapDatagram 29 = Some (Some l0)"
    using parseLapDataForCar_long[of 29 lapDatagram] by (auto simp: lapDatagram_def)
  have split: "[0..<NUM_CARS] = 0 # [1..<NUM_CARS]"
    by (simp add: NUM_CARS_def upt_conv_Cons)
  have short: "\<forall>i \<in> set [Suc 0..<22]. length lapDatagram < HEADER_SIZE + i * LAP_DATA_SIZE + 57"
    by (auto simp: lapDatagram_def sizes)
  from loop have s3: "s3 = updateCarFromLapData (exampleBoardState\<lparr>lapsState := (lapsState exampleBoardState)
                \<lparr>isConnected := True, LapsState.playerCarIndex := Some 0\<rparr>\<rparr>) 0 l0"
    unfolding split by (simp add: lapDataStep_def sizes l0 lapDataLoop_short[OF short])
  show "\<exists>l0. lapDataByIndex s' =
           [(1, (exampleLapData 1 0)\<lparr>resultStatus := 0\<rparr>), (2, exampleLapData 1 0),
            (3, exampleLapData 1 0), (0, l0)]"
    unfolding f s3 by (simp add: updateCarFromLapData_def Let_def exampleBoardState_def)
  show "participantsNameByIndex s' = [(0, [0x41]), (1, [0x42]), (2, [0x43]), (3, [0x44])]"
    "numActiveCars s' = Some 3"
    unfolding f by (simp_all add: exampleBoardState_def)
qed

section \<open>The player's pit-lane stint\<close>

lemma pit_open:
  assumes "\<not> pitLaneActive (playerState s)" "pitLaneTimerActive lap = 1"
  shows "pitLaneActive (playerState (pitLaneBlock s lap))"
    "pitLaneStartLapNum (playerState (pitLaneBlock s lap)) = Some (LapData.currentLapNum lap)"
    "pitLaneMaxTimeMs (playerState (pitLaneBlock s lap)) = max 0 (pitLaneTimeInLaneInMS lap)"
    "pitLanePitStatusMax (playerState (pitLaneBlock s lap)) = max 0 (LapData.pitStatus lap)"
    "pitLaneTimeByLap (pitLaneBlock s lap) = pitLaneTimeByLap s"
    "pitLaneStatusByLap (pitLaneBlock s lap) = pitLaneStatusByLap s"
    "lapsByNumber (pitLaneBlock s lap) = lapsByNumber s"
  using assms by (simp_all add: pitLaneBlock_def Let_def)

lemma pit_continue:
  assumes "pitLaneActive (playerState s)" "pitLaneTimerActive lap = 1"
  shows "pitLaneActive (playerState (pitLaneBlock s lap))"
    "pitLaneStartLapNum (playerState (pitLaneBlock s lap)) = pitLaneStartLapNum (playerState s)"
    "pitLaneMaxTimeMs (playerState (pitLaneBlock s lap)) =
       (if 0 < pitLaneTimeInLaneInMS lap
        then max (pitLaneMaxTimeMs (playerState s)) (pitLaneTimeInLaneInMS lap)
        else pitLaneMaxTimeMs (playerState s))"
    "pitLanePitStatusMax (playerState (pitLaneBlock s lap)) =
       max (pitLanePitStatusMax (playerState s)) (LapData.pitStatus lap)"
    "pitLaneTimeByLap (pitLaneBlock s lap) = pitLaneTimeByLap s"
    "pitLaneStatusByLap (pitLaneBlock s lap) = pitLaneStatusByLap s"
    "lapsByNumber (pitLaneBlock s lap) = lapsByNumber s"
  using assms by (simp_all add: pitLaneBlock_def Let_def)

lemma pit_close:
  assumes "pitLaneActive (playerState s)" "pitLaneTimerActive lap \<noteq> 1"
    "pitLaneStartLapNum (playerState s) = Some n" "0 < pitLaneMaxTimeMs (playerState s)"
  shows "\<not> pitLaneActive (playerState (pitLaneBlock s lap))"
    "Map_get (pitLaneTimeByLap (pitLaneBlock s lap)) n = Some (pitLaneMaxTimeMs (playerState s))"
    "Map_get (pitLaneStatusByLap (pitLaneBlock s lap)) n = Some (pitLanePitStatusMax (playerState s))"
    "Map_get (lapsByNumber s) n = None \<Longrightarrow> lapsByNumber (pitLaneBlock s lap) = lapsByNumber s"
    "pitLaneTimeByLap (pitLaneBlock s lap) = Map_set (pitLaneTimeByLap s) n (pitLaneMaxTimeMs (playerState s))"
    "pitLaneStatusByLap (pitLaneBlock s lap) = Map_set (pitLaneStatusByLap s) n (pitLanePitStatusMax (playerState s))"
    "Map_get (lapsByNumber s) n = Some e \<Longrightarrow>
       pitLaneBlock s lap =
         recomputeFromLaps
           (s\<lparr>playerState := (playerState s)\<lparr>pitLaneActive := False, pitLaneStartLapNum := None,
                                              pitLaneMaxTimeMs := 0, pitLanePitStatusMax := 0\<rparr>,
              pitLaneTimeByLap := Map_set (pitLaneTimeByLap s) n (pitLaneMaxTimeMs (playerState s)),
              pitLaneStatusByLap := Map_set (pitLaneStatusByLap s) n (pitLanePitStatusMax (playerState s)),
              lapsByNumber := Map_set (lapsByNumber s) n
                (e\<lparr>LapEntry.pitLaneTimeMs := Some (pitLaneMaxTimeMs (playerState s)),
                   LapEntry.pitStatus := pitLanePitStatusMax (playerState s)\<rparr>)\<rparr>)"
  using assms by (simp_all add: pitLaneBlock_def Let_def recompute_frame split: option.splits)

lemma pit_close_ledger:
  assumes "pitLaneActive (playerState s)" "pitLaneTimerActive lap \<noteq> 1"
    "pitLaneStartLapNum (playerState s) = Some n" "0 < pitLaneMaxTimeMs (playerState s)"
    "Map_get (lapsByNumber s) n = Some e"
  shows "\<exists>e'. Map_get (lapsByNumber (pitLaneBlock s lap)) n = Some e'
           \<and> LapEntry.pitLaneTimeMs e' = Some (pitLaneMaxTimeMs (playerState s))
           \<and> LapEntry.pitStatus e' = pitLanePitStatusMax (playerState s)"
    and "bestsInv (pitLaneBlock s lap)"
proof -
  have g: "Map_get (markAll best m) k = map_option (markLap best) (Map_get m k)" for best m k
    by (induction m) (auto simp: markAll_def Map_get_def)
  show "\<exists>e'. Map_get (lapsByNumber (pitLaneBlock s lap)) n = Some e'
           \<and> LapEntry.pitLaneTimeMs e' = Some (pitLaneMaxTimeMs (playerState s))
           \<and> LapEntry.pitStatus e' = pitLanePitStatusMax (playerState s)"
    unfolding pit_close(7)[OF assms] by (simp add: recompute_lapsByNumber g)
  show "bestsInv (pitLaneBlock s lap)"
    unfolding pit_close(7)[OF assms] by simp
qed

lemma pit_close_empty:
  assumes "pitLaneActive (playerState s)" "pitLaneTimerActive lap \<noteq> 1"
    "pitLaneMaxTimeMs (playerState s) \<le> 0"
  shows "\<not> pitLaneActive (playerState (pitLaneBlock s lap))"
    "pitLaneTimeByLap (pitLaneBlock s lap) = pitLaneTimeByLap s"
    "pitLaneStatusByLap (pitLaneBlock s lap) = pitLaneStatusByLap s"
    "lapsByNumber (pitLaneBlock s lap) = lapsByNumber s"
  using assms by (simp_all add: pitLaneBlock_def Let_def split: option.splits)

lemma Max_insert_max:
  fixes a t :: "'a::linorder"
  assumes "finite A"
  shows "Max (insert (max a t) A) = Max (insert t (insert a A))"
proof (cases "A = {}")
  case True
  then show ?thesis by (simp add: max.commute)
next
  case False
  with assms show ?thesis by (simp add: max.assoc max.commute max.left_commute)
qed

text \<open>A run of observations with the pit-lane timer on, from an open stint.\<close>

lemma pit_run_active:
  assumes "pitLaneActive (playerState s)" "\<forall>ob \<in> set obs. pitLaneTimerActive ob = 1"
    "0 \<le> pitLaneMaxTimeMs (playerState s)"
  shows "pitLaneActive (playerState (foldl pitLaneBlock s obs))
     \<and> pitLaneStartLapNum (playerState (foldl pitLaneBlock s obs)) = pitLaneStartLapNum (playerState s)
     \<and> pitLaneMaxTimeMs (playerState (foldl pitLaneBlock s obs))
          = Max (insert (pitLaneMaxTimeMs (playerState s)) (set (map pitLaneTimeInLaneInMS obs)))
     \<and> pitLanePitStatusMax (playerState (foldl pitLaneBlock s obs))
          = Max (insert (pitLanePitStatusMax (playerState s)) (set (map LapData.pitStatus obs)))
     \<and> pitLaneTimeByLap (foldl pitLaneBlock s obs) = pitLaneTimeByLap s
     \<and> pitLaneStatusByLap (foldl pitLaneBlock s obs) = pitLaneStatusByLap s
     \<and> lapsByNumber (foldl pitLaneBlock s obs) = lapsByNumber s"
  using assms
proof (induction obs arbitrary: s)
  case Nil
  then show ?case by simp
next
  case (Cons x obs)
  let ?s1 = "pitLaneBlock s x"
  have x: "pitLaneTimerActive x = 1" using Cons.prems(2) by simp
  note c = pit_continue[OF Cons.prems(1) x]
  have ge: "0 \<le> pitLaneMaxTimeMs (playerState ?s1)"
    using Cons.prems(3) by (auto simp: c max_def)
  have rest: "\<forall>ob \<in> set obs. pitLaneTimerActive ob = 1" using Cons.prems(2) by simp
  have m1: "Max (insert (pitLaneMaxTimeMs (playerState ?s1)) (set (map pitLaneTimeInLaneInMS obs)))
      = Max (insert (pitLaneMaxTimeMs (playerState s)) (set (map pitLaneTimeInLaneInMS (x # obs))))"
  proof -
    have "insert (pitLaneMaxTimeMs (playerState s)) (set (map pitLaneTimeInLaneInMS (x # obs)))
        = insert (pitLaneTimeInLaneInMS x) (insert (pitLaneMaxTimeMs (playerState s)) (set (map pitLaneTimeInLaneInMS obs)))"
      by auto
    moreover note Max_insert_max[of "set (map pitLaneTimeInLaneInMS obs)" "pitLaneMaxTimeMs (playerState s)" "pitLaneTimeInLaneInMS x"]
    moreover have "max (pitLaneMaxTimeMs (playerState s)) (pitLaneTimeInLaneInMS x) = pitLaneMaxTimeMs (playerState s)"
      if "\<not> 0 < pitLaneTimeInLaneInMS x"
      using that Cons.prems(3) by simp
    ultimately show ?thesis
      by (cases "0 < pitLaneTimeInLaneInMS x") (simp_all add: c del: Max_insert)
  qed
  have m2: "Max (insert (pitLanePitStatusMax (playerState ?s1)) (set (map LapData.pitStatus obs)))
      = Max (insert (pitLanePitStatusMax (playerState s)) (set (map LapData.pitStatus (x # obs))))"
  proof -
    note Max_insert_max[of "set (map LapData.pitStatus obs)" "pitLanePitStatusMax (playerState s)" "LapData.pitStatus x"]
    moreover have "insert (pitLanePitStatusMax (playerState s)) (set (map LapData.pitStatus (x # obs)))
        = insert (LapData.pitStatus x) (insert (pitLanePitStatusMax (playerState s)) (set (map LapData.pitStatus obs)))"
      by auto
    ultimately show ?thesis by (simp add: c del: Max_insert)
  qed
  from Cons.IH[OF c(1) rest ge] show ?case
    by (simp only: foldl_Cons m1 m2 c(2) c(5) c(6) c(7))
qed

lemma pit_stint_run:
  assumes "\<not> pitLaneActive (playerState s)" "pitLaneTimerActive first = 1"
    "\<forall>ob \<in> set obs. pitLaneTimerActive ob = 1" "pitLaneTimerActive final \<noteq> 1"
    "0 < Max (insert 0 (set (map pitLaneTimeInLaneInMS (first # obs))))"
  shows "Map_get (pitLaneTimeByLap (foldl pitLaneBlock s (first # obs @ [final]))) (LapData.currentLapNum first)
           = Some (Max (insert 0 (set (map pitLaneTimeInLaneInMS (first # obs)))))"
    and "Map_get (pitLaneStatusByLap (foldl pitLaneBlock s (first # obs @ [final]))) (LapData.currentLapNum first)
           = Some (Max (insert 0 (set (map LapData.pitStatus (first # obs)))))"
    and "\<not> pitLaneActive (playerState (foldl pitLaneBlock s (first # obs @ [final])))"
    and "k \<noteq> LapData.currentLapNum first \<Longrightarrow>
         Map_get (pitLaneTimeByLap (foldl pitLaneBlock s (first # obs @ [final]))) k = Map_get (pitLaneTimeByLap s) k
         \<and> Map_get (pitLaneStatusByLap (foldl pitLaneBlock s (first # obs @ [final]))) k = Map_get (pitLaneStatusByLap s) k"
    and "Map_get (lapsByNumber s) (LapData.currentLapNum first) = Some e \<Longrightarrow>
         \<exists>e'. Map_get (lapsByNumber (foldl pitLaneBlock s (first # obs @ [final]))) (LapData.currentLapNum first) = Some e'
            \<and> LapEntry.pitLaneTimeMs e' = Some (Max (insert 0 (set (map pitLaneTimeInLaneInMS (first # obs)))))
            \<and> LapEntry.pitStatus e' = Max (insert 0 (set (map LapData.pitStatus (first # obs))))"
proof -
  let ?s1 = "pitLaneBlock s first"
  let ?s2 = "foldl pitLaneBlock ?s1 obs"
  let ?n = "LapData.currentLapNum first"
  let ?T = "Max (insert 0 (set (map pitLaneTimeInLaneInMS (first # obs))))"
  let ?U = "Max (insert 0 (set (map LapData.pitStatus (first # obs))))"
  note o = pit_open[OF assms(1,2)]
  have ge: "0 \<le> pitLaneMaxTimeMs (playerState ?s1)" by (simp add: o)
  note r = pit_run_active[OF o(1) assms(3) ge]
  have T: "pitLaneMaxTimeMs (playerState ?s2) = ?T"
    using r Max_insert_max[of "set (map pitLaneTimeInLaneInMS obs)" 0 "pitLaneTimeInLaneInMS first"]
    by (simp add: o insert_commute del: Max_insert)
  have U: "pitLanePitStatusMax (playerState ?s2) = ?U"
    using r Max_insert_max[of "set (map LapData.pitStatus obs)" 0 "LapData.pitStatus first"]
    by (simp add: o insert_commute del: Max_insert)
  have a: "pitLaneActive (playerState ?s2)" and st: "pitLaneStartLapNum (playerState ?s2) = Some ?n"
    and lb: "lapsByNumber ?s2 = lapsByNumber s"
    and tb: "pitLaneTimeByLap ?s2 = pitLaneTimeByLap s" "pitLaneStatusByLap ?s2 = pitLaneStatusByLap s"
    using r by (simp_all add: o)
  have pos: "0 < pitLaneMaxTimeMs (playerState ?s2)" using assms(5) unfolding T .
  have f: "foldl pitLaneBlock s (first # obs @ [final]) = pitLaneBlock ?s2 final" by simp
  note c = pit_close[OF a assms(4) st pos]
  show "Map_get (pitLaneTimeByLap (foldl pitLaneBlock s (first # obs @ [final]))) ?n = Some ?T"
    unfolding f c(2) T ..
  show "Map_get (pitLaneStatusByLap (foldl pitLaneBlock s (first # obs @ [final]))) ?n = Some ?U"
    unfolding f c(3) U ..
  show "\<not> pitLaneActive (playerState (foldl pitLaneBlock s (first # obs @ [final])))"
    unfolding f by (rule c(1))
  show "Map_get (pitLaneTimeByLap (foldl pitLaneBlock s (first # obs @ [final]))) k = Map_get (pitLaneTimeByLap s) k
         \<and> Map_get (pitLaneStatusByLap (foldl pitLaneBlock s (first # obs @ [final]))) k = Map_get (pitLaneStatusByLap s) k"
    if "k \<noteq> ?n"
    using that unfolding f c(5) c(6) tb by simp
  show "\<exists>e'. Map_get (lapsByNumber (foldl pitLaneBlock s (first # obs @ [final]))) ?n = Some e'
            \<and> LapEntry.pitLaneTimeMs e' = Some ?T \<and> LapEntry.pitStatus e' = ?U"
    if "Map_get (lapsByNumber s) ?n = Some e"
    using pit_close_ledger(1)[OF a assms(4) st pos, of e] that
    unfolding f lb T U by simp
qed

section \<open>The player's update block by block, and the rewind\<close>

lemma tyre_frame:
  "tyreByLapStart (penaltiesBlock s lap) = tyreByLapStart s"
  "tyreByLapStart (pitLaneBlock s lap) = tyreByLapStart s"
  "tyreByLapStart (liveTimesBlock s lap) = tyreByLapStart s"
  "tyreByLapStart (liveBestSectorsBlock s lap) = tyreByLapStart s"
  "tyreByLapStart (currentLapBlock s lap) = tyreByLapStart s"
  "tyreByLapStart (finalizeLapBlock s pci lap) = tyreByLapStart s"
  "tyreByLapStart (liveDeltaBlock s lap) = tyreByLapStart s"
  by (simp_all add: block_defs Let_def recompute_frame split: option.splits)

lemma pitTables_frame:
  "pitLaneTimeByLap (penaltiesBlock s lap) = pitLaneTimeByLap s"
  "pitLaneTimeByLap (tyreAtLapStartBlock s lap) = pitLaneTimeByLap s"
  "pitLaneTimeByLap (liveTimesBlock s lap) = pitLaneTimeByLap s"
  "pitLaneTimeByLap (liveBestSectorsBlock s lap) = pitLaneTimeByLap s"
  "pitLaneTimeByLap (currentLapBlock s lap) = pitLaneTimeByLap s"
  "pitLaneTimeByLap (finalizeLapBlock s pci lap) = pitLaneTimeByLap s"
  "pitLaneTimeByLap (liveDeltaBlock s lap) = pitLaneTimeByLap s"
  "pitLaneStatusByLap (penaltiesBlock s lap) = pitLaneStatusByLap s"
  "pitLaneStatusByLap (tyreAtLapStartBlock s lap) = pitLaneStatusByLap s"
  "pitLaneStatusByLap (liveTimesBlock s lap) = pitLaneStatusByLap s"
  "pitLaneStatusByLap (liveBestSectorsBlock s lap) = pitLaneStatusByLap s"
  "pitLaneStatusByLap (currentLapBlock s lap) = pitLaneStatusByLap s"
  "pitLaneStatusByLap (finalizeLapBlock s pci lap) = pitLaneStatusByLap s"
  "pitLaneStatusByLap (liveDeltaBlock s lap) = pitLaneStatusByLap s"
  by (simp_all add: block_defs Let_def recompute_frame split: option.splits)

lemma pitTracker_frame:
  "pitTracker (penaltiesBlock s lap) = pitTracker s"
  "pitTracker (tyreAtLapStartBlock s lap) = pitTracker s"
  "pitTracker (liveTimesBlock s lap) = pitTracker s"
  "pitTracker (liveBestSectorsBlock s lap) = pitTracker s"
  "pitTracker (currentLapBlock s lap) = pitTracker s"
  "pitTracker (finalizeLapBlock s pci lap) = pitTracker s"
  "pitTracker (liveDeltaBlock s lap) = pitTracker s"
  by (simp_all add: pitTracker_def block_defs Let_def recompute_frame split: option.splits)

lemma currentLapNum_frame:
  "PlayerState.currentLapNum (playerState (penaltiesBlock s lap)) = PlayerState.currentLapNum (playerState s)"
  "PlayerState.currentLapNum (playerState (rewindBlock s lap)) = PlayerState.currentLapNum (playerState s)"
  "PlayerState.currentLapNum (playerState (tyreAtLapStartBlock s lap)) = PlayerState.currentLapNum (playerState s)"
  "PlayerState.currentLapNum (playerState (pitLaneBlock s lap)) = PlayerState.currentLapNum (playerState s)"
  "PlayerState.currentLapNum (playerState (liveTimesBlock s lap)) = PlayerState.currentLapNum (playerState s)"
  "PlayerState.currentLapNum (playerState (liveBestSectorsBlock s lap)) = PlayerState.currentLapNum (playerState s)"
  "PlayerState.currentLapNum (playerState (currentLapBlock s lap)) = PlayerState.currentLapNum (playerState s)"
  "PlayerState.currentLapNum (playerState (finalizeLapBlock s pci lap)) = PlayerState.currentLapNum (playerState s)"
  "PlayerState.currentLapNum (playerState (liveDeltaBlock s lap)) = Some (LapData.currentLapNum lap)"
  by (simp_all add: block_defs Let_def recompute_frame split: option.splits)

lemma currentTyres_frame:
  "currentTyres (penaltiesBlock s lap) = currentTyres s"
  "currentTyres (rewindBlock s lap) = currentTyres s"
  "currentTyres (tyreAtLapStartBlock s lap) = currentTyres s"
  "currentTyres (pitLaneBlock s lap) = currentTyres s"
  "currentTyres (liveTimesBlock s lap) = currentTyres s"
  "currentTyres (liveBestSectorsBlock s lap) = currentTyres s"
  "currentTyres (currentLapBlock s lap) = currentTyres s"
  "currentTyres (finalizeLapBlock s pci lap) = currentTyres s"
  "currentTyres (liveDeltaBlock s lap) = currentTyres s"
  by (simp_all add: currentTyres_def block_defs Let_def recompute_frame split: option.splits)

lemma ledger_frame:
  "lapsByNumber (penaltiesBlock s lap) = lapsByNumber s"
  "lapsByNumber (tyreAtLapStartBlock s lap) = lapsByNumber s"
  "lapsByNumber (liveTimesBlock s lap) = lapsByNumber s"
  "lapsByNumber (currentLapBlock s lap) = lapsByNumber s"
  "lapsByNumber (liveDeltaBlock s lap) = lapsByNumber s"
  by (simp_all add: block_defs Let_def)

text \<open>The player's update when the lap number went back.\<close>

lemma rewindBlock_rewind:
  assumes "PlayerState.currentLapNum (playerState s) = Some p" "LapData.currentLapNum lap < p"
  shows "lapsByNumber (rewindBlock s lap) =
           markAll (bestOf (deleteLapsFrom (lapsByNumber s) (LapData.currentLapNum lap)))
             (deleteLapsFrom (lapsByNumber s) (LapData.currentLapNum lap))"
    and "tyreByLapStart (rewindBlock s lap) = deleteLapsFrom (tyreByLapStart s) (LapData.currentLapNum lap)"
    and "pitLaneTimeByLap (rewindBlock s lap) = deleteLapsFrom (pitLaneTimeByLap s) (LapData.currentLapNum lap)"
    and "pitLaneStatusByLap (rewindBlock s lap) = deleteLapsFrom (pitLaneStatusByLap s) (LapData.currentLapNum lap)"
    and "pitTracker (rewindBlock s lap) = (False, None, 0, 0)"
    and "bestsInv (rewindBlock s lap)"
  using assms
  by (simp_all add: rewindBlock_def recompute_lapsByNumber recompute_frame pitTracker_def)

lemma pitLaneBlock_inactive:
  assumes "pitTracker s = (False, None, 0, 0)"
  shows "lapsByNumber (pitLaneBlock s lap) = lapsByNumber s"
    and "pitLaneTimeByLap (pitLaneBlock s lap) = pitLaneTimeByLap s"
    and "pitLaneStatusByLap (pitLaneBlock s lap) = pitLaneStatusByLap s"
    and "pitTracker (pitLaneBlock s lap) =
           (if pitLaneTimerActive lap = 1
            then (True, Some (LapData.currentLapNum lap), max 0 (pitLaneTimeInLaneInMS lap),
                  LapData.pitStatus lap)
            else (False, None, 0, 0))"
    and "LapsState.bestLapTimeMs (lapsState (pitLaneBlock s lap)) = LapsState.bestLapTimeMs (lapsState s)"
  using assms
  by (auto simp: pitLaneBlock_def pitTracker_def Let_def)

lemma finalizeLapBlock_no_increase:
  assumes "PlayerState.currentLapNum (playerState s) = Some p" "\<not> p < LapData.currentLapNum lap"
  shows "finalizeLapBlock s pci lap = s"
  using assms by (simp add: finalizeLapBlock_def)

lemma rewind_update:
  assumes "PlayerState.currentLapNum (playerState s) = Some p" "LapData.currentLapNum lap < p"
  shows "lapsByNumber (playerLapUpdate s pci lap) =
           markAll (bestOf (deleteLapsFrom (lapsByNumber s) (LapData.currentLapNum lap)))
             (deleteLapsFrom (lapsByNumber s) (LapData.currentLapNum lap))"
    and "tyreByLapStart (playerLapUpdate s pci lap) =
           Map_set (deleteLapsFrom (tyreByLapStart s) (LapData.currentLapNum lap))
             (LapData.currentLapNum lap) (currentTyres s)"
    and "pitLaneTimeByLap (playerLapUpdate s pci lap) = deleteLapsFrom (pitLaneTimeByLap s) (LapData.currentLapNum lap)"
    and "pitLaneStatusByLap (playerLapUpdate s pci lap) = deleteLapsFrom (pitLaneStatusByLap s) (LapData.currentLapNum lap)"
    and "pitTracker (playerLapUpdate s pci lap) =
           (if pitLaneTimerActive lap = 1
            then (True, Some (LapData.currentLapNum lap), max 0 (pitLaneTimeInLaneInMS lap),
                  LapData.pitStatus lap)
            else (False, None, 0, 0))"
    and "bestsInv (playerLapUpdate s pci lap)"
proof -
  let ?cur = "LapData.currentLapNum lap"
  let ?s1 = "penaltiesBlock s lap"
  let ?s2 = "rewindBlock ?s1 lap"
  let ?s3 = "tyreAtLapStartBlock ?s2 lap"
  let ?s4 = "pitLaneBlock ?s3 lap"
  let ?s5 = "liveTimesBlock ?s4 lap"
  let ?s6 = "liveBestSectorsBlock ?s5 lap"
  let ?s7 = "currentLapBlock ?s6 lap"
  have p1: "PlayerState.currentLapNum (playerState ?s1) = Some p"
    using assms(1) by (simp add: currentLapNum_frame)
  note rw = rewindBlock_rewind[OF p1 assms(2)]
  have t3: "tyreByLapStart ?s3 = Map_set (deleteLapsFrom (tyreByLapStart s) ?cur) ?cur (currentTyres s)"
    by (simp add: tyreAtLapStartBlock_def rw tyre_frame currentTyres_frame)
  have tr3: "pitTracker ?s3 = (False, None, 0, 0)"
    by (simp add: pitTracker_frame rw)
  note pb = pitLaneBlock_inactive[OF tr3, of lap]
  have inv5: "bestsInv ?s5"
    by (intro liveTimesBlock_inv pitLaneBlock_inv tyreAtLapStartBlock_inv rw(6))
  have p7: "PlayerState.currentLapNum (playerState ?s7) = Some p"
    using assms(1) by (simp add: currentLapNum_frame)
  have f8: "finalizeLapBlock ?s7 pci lap = ?s7"
    using assms(2) by (intro finalizeLapBlock_no_increase[OF p7]) simp
  have eq: "playerLapUpdate s pci lap = liveDeltaBlock ?s7 lap"
    by (simp add: playerLapUpdate_def Let_def f8)
  show "lapsByNumber (playerLapUpdate s pci lap) =
           markAll (bestOf (deleteLapsFrom (lapsByNumber s) ?cur)) (deleteLapsFrom (lapsByNumber s) ?cur)"
    unfolding eq
    by (simp add: ledger_frame liveBestSectorsBlock_quiet[OF inv5] pb rw)
  show "tyreByLapStart (playerLapUpdate s pci lap) =
           Map_set (deleteLapsFrom (tyreByLapStart s) ?cur) ?cur (currentTyres s)"
    unfolding eq by (simp add: tyre_frame t3)
  show "pitLaneTimeByLap (playerLapUpdate s pci lap) = deleteLapsFrom (pitLaneTimeByLap s) ?cur"
    unfolding eq by (simp add: pitTables_frame pb rw)
  show "pitLaneStatusByLap (playerLapUpdate s pci lap) = deleteLapsFrom (pitLaneStatusByLap s) ?cur"
    unfolding eq by (simp add: pitTables_frame pb rw)
  show "pitTracker (playerLapUpdate s pci lap) =
           (if pitLaneTimerActive lap = 1
            then (True, Some ?cur, max 0 (pitLaneTimeInLaneInMS lap), LapData.pitStatus lap)
            else (False, None, 0, 0))"
    unfolding eq by (simp only: pitTracker_frame pb)
  show "bestsInv (playerLapUpdate s pci lap)"
    unfolding eq
    by (intro liveDeltaBlock_inv currentLapBlock_inv liveBestSectorsBlock_inv inv5)
qed

lemma Map_get_markAll: "Map_get (markAll best m) k = map_option (markLap best) (Map_get m k)"
  by (induction m) (auto simp: markAll_def Map_get_def)

lemma Map_has_markAll: "Map_has (markAll best m) k = Map_has m k"
  by (simp add: Map_has_get Map_get_markAll)

lemma rewindState_ledger:
  "lapsByNumber rewindState =
     [(1, (exampleLap 1 90000 True)\<lparr>deltaMs := Some 5000\<rparr>),
      (2, (exampleLap 2 88000 True)\<lparr>deltaMs := Some 3000\<rparr>),
      (5, (exampleLap 5 85000 True)\<lparr>deltaMs := Some 0, isBest := True\<rparr>)]"
  by (simp add: rewindState_def recompute_lapsByNumber rewindLedger_def markAll_def bestOf_def
      exampleLap_def Map_values_def nullOrLess_def betterSector_def markLap_def)

lemma rewindState_player:
  "PlayerState.currentLapNum (playerState rewindState) = Some 7"
  "pitTracker rewindState = (True, Some 7, 5000, 1)"
  "currentTyres rewindState = exampleTyres 17 17 0"
  "tyreByLapStart rewindState = [(1, exampleTyres 18 16 0), (3, exampleTyres 18 16 2)]"
  "pitLaneTimeByLap rewindState = [(2, 25000), (4, 24000)]"
  "pitLaneStatusByLap rewindState = [(2, 1), (4, 1)]"
  by (simp_all add: rewindState_def recompute_frame pitTracker_def currentTyres_def exampleTyres_def)

lemma rewindState_after:
  "lapsByNumber (playerLapUpdate rewindState 0 (exampleLapData 3 1000)) =
     [(1, (exampleLap 1 90000 True)\<lparr>deltaMs := Some 2000\<rparr>),
      (2, (exampleLap 2 88000 True)\<lparr>deltaMs := Some 0, isBest := True\<rparr>)]"
proof -
  have c: "LapData.currentLapNum (exampleLapData 3 1000) = 3" by (simp add: exampleLapData_def)
  have lt: "LapData.currentLapNum (exampleLapData 3 1000) < 7" by (simp add: c)
  show ?thesis
    unfolding rewind_update(1)[OF rewindState_player(1) lt] c rewindState_ledger
    by (simp add: deleteLapsFrom_filter markAll_def bestOf_def
      exampleLap_def Map_values_def nullOrLess_def betterSector_def markLap_def)
qed

section \<open>The session history of the player's car\<close>

lemma override_get:
  "Map_get (lapsByNumber (overrideLapFromHistory s (k', e))) k =
     (if k = k' then map_option (withHistory e) (Map_get (lapsByNumber s) k)
      else Map_get (lapsByNumber s) k)"
  by (simp add: overrideLapFromHistory_def withHistory_def split: option.splits)

lemma fold_override_get:
  "distinct (map fst byLap) \<Longrightarrow>
   Map_get (lapsByNumber (foldl overrideLapFromHistory s byLap)) k =
     (case Map_get byLap k of
        None \<Rightarrow> Map_get (lapsByNumber s) k
      | Some e \<Rightarrow> map_option (withHistory e) (Map_get (lapsByNumber s) k))"
proof (induction byLap arbitrary: s)
  case Nil
  then show ?case by (simp add: Map_get_def)
next
  case (Cons kv rest)
  obtain k' e' where kv: "kv = (k', e')" by (cases kv)
  have d: "distinct (map fst rest)" and nk: "k' \<notin> fst ` set rest"
    using Cons.prems by (simp_all add: kv)
  have none: "Map_get rest k' = None"
    using nk by (simp add: Map_get_def map_of_eq_None_iff)
  have step: "Map_get (lapsByNumber (foldl overrideLapFromHistory s (kv # rest))) k =
     (case Map_get rest k of
        None \<Rightarrow> Map_get (lapsByNumber (overrideLapFromHistory s (k', e'))) k
      | Some e \<Rightarrow> map_option (withHistory e) (Map_get (lapsByNumber (overrideLapFromHistory s (k', e'))) k))"
    by (simp add: kv Cons.IH[OF d])
  have hd: "Map_get (kv # rest) k = (if k = k' then Some e' else Map_get rest k)"
    by (simp add: kv Map_get_def)
  show ?case
  proof (cases "k = k'")
    case True
    show ?thesis unfolding step hd unfolding True by (simp add: none override_get)
  next
    case False
    show ?thesis unfolding step hd by (simp add: False override_get split: option.splits)
  qed
qed

lemma applyPlayerHistory_get:
  assumes "distinct (map fst byLap)"
  shows "Map_get (lapsByNumber (applyPlayerHistory s byLap)) k =
     map_option (markLap (LapsState.bestLapTimeMs (lapsState (applyPlayerHistory s byLap))))
       (case Map_get byLap k of
          None \<Rightarrow> Map_get (lapsByNumber s) k
        | Some e \<Rightarrow> map_option (withHistory e) (Map_get (lapsByNumber s) k))"
  by (simp add: applyPlayerHistory_def recompute_lapsByNumber recompute_bestLapTimeMs
      Map_get_markAll fold_override_get[OF assms])

lemma applyPlayerHistory_inv: "bestsInv (applyPlayerHistory s byLap)"
  by (simp add: applyPlayerHistory_def)

lemma keys_Map_set:
  "map fst (Map_set m k v) = (if k \<in> set (map fst m) then map fst m else map fst m @ [k])"
  by (induction m) force+

lemma distinct_Map_set:
  "distinct (map fst m) \<Longrightarrow> distinct (map fst (Map_set m k v))"
  by (simp add: keys_Map_set)

lemma readLapHistory_distinct:
  "readLapHistory buf base is acc = Some byLap \<Longrightarrow> distinct (map fst acc) \<Longrightarrow>
   distinct (map fst byLap)"
proof (induction "is" arbitrary: acc)
  case Nil then show ?case by simp
next
  case (Cons i rest)
  show ?case
  proof (cases "base + i * LAP_HISTORY_DATA_SIZE + LAP_HISTORY_DATA_SIZE > length buf")
    case True
    with Cons.prems show ?thesis by simp
  next
    case False
    with Cons.prems obtain e where
      e: "parseLapHistoryEntry buf (base + i * LAP_HISTORY_DATA_SIZE) = Some e"
      and r: "readLapHistory buf base rest (Map_set acc (i + 1) e) = Some byLap"
      by (auto simp: Let_def split: bind_splits)
    from Cons.IH[OF r distinct_Map_set[OF Cons.prems(2)]] show ?thesis .
  qed
qed

lemma readLapHistory_get:
  "readLapHistory buf base [a..<n] acc = Some byLap \<Longrightarrow>
   (\<forall>i. a \<le> i \<and> i < n \<and> base + (i + 1) * LAP_HISTORY_DATA_SIZE \<le> length buf
        \<longrightarrow> Map_get byLap (i + 1) = parseLapHistoryEntry buf (base + i * LAP_HISTORY_DATA_SIZE))
   \<and> (\<forall>k. k \<le> a \<longrightarrow> Map_get byLap k = Map_get acc k)"
proof (induction "n - a" arbitrary: a acc)
  case 0
  then show ?case by auto
next
  case (Suc d)
  then have lt: "a < n" by simp
  have up: "[a..<n] = a # [Suc a..<n]" using lt by (simp add: upt_conv_Cons)
  show ?case
  proof (cases "base + a * LAP_HISTORY_DATA_SIZE + LAP_HISTORY_DATA_SIZE > length buf")
    case True
    then have "byLap = acc" using Suc.prems by (simp add: up)
    moreover have "\<And>i. a \<le> i \<Longrightarrow> \<not> base + (i + 1) * LAP_HISTORY_DATA_SIZE \<le> length buf"
    proof -
      fix i :: nat assume "a \<le> i"
      with True show "\<not> base + (i + 1) * LAP_HISTORY_DATA_SIZE \<le> length buf"
        by (simp add: sizes)
    qed
    ultimately show ?thesis by auto
  next
    case False
    with Suc.prems obtain e where
      e: "parseLapHistoryEntry buf (base + a * LAP_HISTORY_DATA_SIZE) = Some e"
      and r: "readLapHistory buf base [Suc a..<n] (Map_set acc (a + 1) e) = Some byLap"
      by (auto simp: up Let_def split: bind_splits)
    have d: "d = n - Suc a" using Suc.hyps(2) by simp
    note ih = Suc.hyps(1)[OF d r]
    have here: "Map_get byLap (a + 1) = Some e" using ih by simp
    have "\<forall>i. a \<le> i \<and> i < n \<and> base + (i + 1) * LAP_HISTORY_DATA_SIZE \<le> length buf
        \<longrightarrow> Map_get byLap (i + 1) = parseLapHistoryEntry buf (base + i * LAP_HISTORY_DATA_SIZE)"
    proof (intro allI impI)
      fix i assume i: "a \<le> i \<and> i < n \<and> base + (i + 1) * LAP_HISTORY_DATA_SIZE \<le> length buf"
      show "Map_get byLap (i + 1) = parseLapHistoryEntry buf (base + i * LAP_HISTORY_DATA_SIZE)"
      proof (cases "i = a")
        case True then show ?thesis using here e by simp
      next
        case False
        then have "Suc a \<le> i" using i by simp
        with ih i show ?thesis by blast
      qed
    qed
    moreover have "\<forall>k. k \<le> a \<longrightarrow> Map_get byLap k = Map_get acc k"
      using ih by auto
    ultimately show ?thesis by blast
  qed
qed

lemma handleSessionHistoryPacket_player:
  assumes "parseHeader buf = Some (Some header)"
    and "readUInt8 buf HEADER_SIZE = Some (Header.playerCarIndex header)"
    and "readUInt8 buf (HEADER_SIZE + 1) = Some numLaps"
    and "HEADER_SIZE + 7 + LAP_HISTORY_DATA_SIZE \<le> length buf"
  shows "\<exists>byLap. readLapHistory buf (HEADER_SIZE + 7) [0..<min numLaps 100] [] = Some byLap
     \<and> handleSessionHistoryPacket s buf =
         Some (applyPlayerHistory
                 ((resetIfNewSession s header)
                    \<lparr>sessionHistoryByCarIndex :=
                       Map_set (sessionHistoryByCarIndex (resetIfNewSession s header))
                         (Header.playerCarIndex header) byLap\<rparr>) byLap)"
proof -
  obtain byLap where r: "readLapHistory buf (HEADER_SIZE + 7) [0..<min numLaps 100] [] = Some byLap"
    using readLapHistory_total by blast
  have l: "\<not> length buf < HEADER_SIZE + 7" "\<not> length buf < HEADER_SIZE + 7 + LAP_HISTORY_DATA_SIZE"
    using assms(4) by simp_all
  have num: "readUInt8 buf (Suc HEADER_SIZE) = Some numLaps"
    using assms(3) by simp
  show ?thesis
    by (rule exI[of _ byLap])
       (simp add: handleSessionHistoryPacket_def assms(1) assms(2) num l r Let_def)
qed

lemma history_override:
  assumes hdr: "parseHeader buf = Some (Some header)"
    and car: "readUInt8 buf HEADER_SIZE = Some (Header.playerCarIndex header)"
    and num: "readUInt8 buf (HEADER_SIZE + 1) = Some numLaps"
    and lapNum: "0 < lapNum" "lapNum \<le> min numLaps 100"
    and inside: "HEADER_SIZE + 7 + lapNum * LAP_HISTORY_DATA_SIZE \<le> length buf"
    and entry: "parseLapHistoryEntry buf (HEADER_SIZE + 7 + (lapNum - 1) * LAP_HISTORY_DATA_SIZE) = Some entry"
    and ledger: "Map_get (lapsByNumber (resetIfNewSession s header)) lapNum = Some l"
  shows "\<exists>s'. handleSessionHistoryPacket s buf = Some s'
     \<and> Map_get (lapsByNumber s') lapNum
         = Some (markLap (LapsState.bestLapTimeMs (lapsState s')) (withHistory entry l))
     \<and> LapsState.bestLapTimeMs (lapsState s') = bestOf (lapsByNumber s')"
proof -
  have len: "HEADER_SIZE + 7 + LAP_HISTORY_DATA_SIZE \<le> length buf"
    using lapNum(1) inside by (simp add: sizes)
  let ?s1 = "resetIfNewSession s header"
  from handleSessionHistoryPacket_player[OF hdr car num len, of s]
  obtain byLap where r: "readLapHistory buf (HEADER_SIZE + 7) [0..<min numLaps 100] [] = Some byLap"
    and h: "handleSessionHistoryPacket s buf =
         Some (applyPlayerHistory
                 (?s1\<lparr>sessionHistoryByCarIndex :=
                       Map_set (sessionHistoryByCarIndex ?s1) (Header.playerCarIndex header) byLap\<rparr>) byLap)"
    by blast
  let ?s2 = "?s1\<lparr>sessionHistoryByCarIndex :=
                       Map_set (sessionHistoryByCarIndex ?s1) (Header.playerCarIndex header) byLap\<rparr>"
  have d: "distinct (map fst byLap)"
    using readLapHistory_distinct[OF r] by simp
  have i: "0 \<le> lapNum - 1 \<and> lapNum - 1 < min numLaps 100
        \<and> HEADER_SIZE + 7 + (lapNum - 1 + 1) * LAP_HISTORY_DATA_SIZE \<le> length buf"
    using lapNum inside by auto
  have g: "Map_get byLap lapNum = Some entry"
    using readLapHistory_get[OF r] i entry lapNum(1) by (metis Suc_pred' Suc_eq_plus1)
  have "Map_get (lapsByNumber (applyPlayerHistory ?s2 byLap)) lapNum
      = Some (markLap (LapsState.bestLapTimeMs (lapsState (applyPlayerHistory ?s2 byLap))) (withHistory entry l))"
    unfolding applyPlayerHistory_get[OF d] using ledger by (simp add: g)
  moreover have "LapsState.bestLapTimeMs (lapsState (applyPlayerHistory ?s2 byLap))
      = bestOf (lapsByNumber (applyPlayerHistory ?s2 byLap))"
    using applyPlayerHistory_inv[of ?s2 byLap] by (simp add: bestsInv_def)
  ultimately show ?thesis using h by simp
qed

lemma historyDatagram_header: "parseHeader historyDatagram = Some (Some historyDatagramHeader)"
  by (simp add: parseHeader_def historyDatagram_def historyDatagramHeader_def reads sizes)

lemma historyDatagram_fields:
  "length historyDatagram = 64"
  "readUInt8 historyDatagram HEADER_SIZE = Some 0"
  "readUInt8 historyDatagram (HEADER_SIZE + 1) = Some 2"
  by (simp_all add: historyDatagram_def reads sizes)

lemma historyDatagram_laps:
  "parseLapHistoryEntry historyDatagram 36 = Some (historyLap None None None None 0)"
  "parseLapHistoryEntry historyDatagram 50
     = Some (historyLap (Some 89000) (Some 29000) (Some 30000) (Some 30000) 15)"
  by (simp_all add: parseLapHistoryEntry_def historyDatagram_def historyLap_def reads)

lemma historyState_ledger:
  "lapsByNumber historyState =
     [(1, (exampleLap 1 90000 True)\<lparr>deltaMs := Some 0, isBest := True\<rparr>),
      (2, (exampleLap 2 91000 True)\<lparr>deltaMs := Some 1000\<rparr>)]"
  by (simp add: historyState_def recompute_lapsByNumber markAll_def bestOf_def
      exampleLap_def Map_values_def nullOrLess_def betterSector_def markLap_def)

lemma historyState_session: "resetIfNewSession historyState historyDatagramHeader = historyState"
  by (simp add: resetIfNewSession_def historyState_def recompute_frame historyDatagramHeader_def)

lemma historyDatagram_byLap:
  "readLapHistory historyDatagram (HEADER_SIZE + 7) [0..<min 2 100] [] =
     Some [(1, historyLap None None None None 0),
           (2, historyLap (Some 89000) (Some 29000) (Some 30000) (Some 30000) 15)]"
proof -
  have u: "[0..<min 2 100] = [0, 1]" by (simp add: upt_conv_Cons)
  show ?thesis
    unfolding u by (simp add: sizes historyDatagram_fields(1) historyDatagram_laps)
qed

lemma historyState_after:
  "map_option lapsByNumber (handleSessionHistoryPacket historyState historyDatagram) =
     Some [(1, (exampleLap 1 90000 True)\<lparr>deltaMs := Some 1000\<rparr>),
           (2, (exampleLap 2 91000 True)
                 \<lparr>LapEntry.lapTimeMs := Some 89000, deltaMs := Some 0, isBest := True,
                  LapEntry.sector1TimeMs := Some 29000, LapEntry.sector2TimeMs := Some 30000,
                  LapEntry.sector3TimeMs := Some 30000\<rparr>)]"
proof -
  have len: "HEADER_SIZE + 7 + LAP_HISTORY_DATA_SIZE \<le> length historyDatagram"
    by (simp add: sizes historyDatagram_fields(1))
  have car: "readUInt8 historyDatagram HEADER_SIZE = Some (Header.playerCarIndex historyDatagramHeader)"
    by (simp add: historyDatagram_fields historyDatagramHeader_def)
  from handleSessionHistoryPacket_player[OF historyDatagram_header car historyDatagram_fields(3) len,
      of historyState]
  show ?thesis
    unfolding historyDatagram_byLap historyState_session
    by (simp add: applyPlayerHistory_def recompute_lapsByNumber overrideLapFromHistory_def
        historyState_ledger Map_get_def historyLap_def markAll_def bestOf_def
        exampleLap_def Map_values_def nullOrLess_def betterSector_def markLap_def)
qed

section \<open>The pit-lane stint in the whole update\<close>

lemma rewindBlock_noRewind: "noRewind s lap \<Longrightarrow> rewindBlock s lap = s"
  by (auto simp: noRewind_def rewindBlock_def split: option.splits)

lemma pitLaneBlock_pitCore:
  assumes "pitCore s1 = pitCore s"
  shows "pitCore (pitLaneBlock s1 lap) = pitCore (pitLaneBlock s lap)"
  using assms
  by (auto simp: pitCore_def pitTracker_def pitLaneBlock_def Let_def recompute_frame
      split: option.splits)

lemma playerLapUpdate_pitCore:
  assumes "noRewind s lap"
  shows "pitCore (playerLapUpdate s pci lap) = pitCore (pitLaneBlock s lap)"
proof -
  let ?s1 = "penaltiesBlock s lap"
  let ?s3 = "tyreAtLapStartBlock ?s1 lap"
  let ?s4 = "pitLaneBlock ?s3 lap"
  have n1: "noRewind ?s1 lap"
    using assms by (simp add: noRewind_def currentLapNum_frame)
  have r: "rewindBlock ?s1 lap = ?s1" by (rule rewindBlock_noRewind[OF n1])
  have c3: "pitCore ?s3 = pitCore s"
    by (simp add: pitCore_def pitTracker_frame pitTables_frame)
  have "pitCore (playerLapUpdate s pci lap) = pitCore ?s4"
    by (simp add: playerLapUpdate_def Let_def r pitCore_def pitTracker_frame pitTables_frame)
  also have "\<dots> = pitCore (pitLaneBlock s lap)"
    by (rule pitLaneBlock_pitCore[OF c3])
  finally show ?thesis .
qed

lemma pitCore_fields:
  assumes "pitCore s1 = pitCore s"
  shows "pitLaneActive (playerState s1) = pitLaneActive (playerState s)"
    "pitLaneStartLapNum (playerState s1) = pitLaneStartLapNum (playerState s)"
    "pitLaneMaxTimeMs (playerState s1) = pitLaneMaxTimeMs (playerState s)"
    "pitLanePitStatusMax (playerState s1) = pitLanePitStatusMax (playerState s)"
    "pitLaneTimeByLap s1 = pitLaneTimeByLap s"
    "pitLaneStatusByLap s1 = pitLaneStatusByLap s"
  using assms by (simp_all add: pitCore_def pitTracker_def)

lemma pitPatched_recompute: "pitPatched s n t u \<Longrightarrow> pitPatched (recomputeFromLaps s) n t u"
  by (auto simp: pitPatched_def recompute_lapsByNumber recompute_frame Map_get_markAll
      split: option.splits)

lemma pitPatched_blocks:
  assumes "pitPatched s n t u"
  shows "pitPatched (liveTimesBlock s lap) n t u"
    and "pitPatched (liveBestSectorsBlock s lap) n t u"
    and "pitPatched (currentLapBlock s lap) n t u"
    and "pitPatched (liveDeltaBlock s lap) n t u"
proof -
  show "pitPatched (liveTimesBlock s lap) n t u"
    using assms by (simp add: pitPatched_def liveTimesBlock_def)
  show "pitPatched (currentLapBlock s lap) n t u"
    using assms by (simp add: pitPatched_def currentLapBlock_def Let_def)
  show "pitPatched (liveDeltaBlock s lap) n t u"
    using assms by (simp add: pitPatched_def liveDeltaBlock_def Let_def)
  have "pitPatched (s\<lparr>lapsState := ls\<rparr>) n t u" for ls
    using assms by (simp add: pitPatched_def)
  then show "pitPatched (liveBestSectorsBlock s lap) n t u"
    using pitPatched_recompute[OF assms]
    by (simp add: liveBestSectorsBlock_def Let_def)
qed

lemma pitPatched_finalize:
  assumes "pitPatched s n t u"
  shows "pitPatched (finalizeLapBlock s pci lap) n t u"
proof (cases "PlayerState.currentLapNum (playerState s)")
  case None
  then show ?thesis using assms by (simp add: finalizeLapBlock_def)
next
  case (Some f)
  show ?thesis
  proof (cases "LapData.currentLapNum lap > f \<and> lastLapTimeInMS lap > 0")
    case False
    then have "finalizeLapBlock s pci lap = s"
      by (auto simp: finalizeLapBlock_def Some)
    then show ?thesis using assms by simp
  next
    case True
    have t: "Map_get (pitLaneTimeByLap s) n = Some t" "Map_get (pitLaneStatusByLap s) n = Some u"
      using assms by (simp_all add: pitPatched_def)
    obtain e where e: "Map_get (lapsByNumber s) n = Some e"
      "LapEntry.pitLaneTimeMs e = Some t" "LapEntry.pitStatus e = u"
      using assms by (auto simp: pitPatched_def split: option.splits)
    show ?thesis
      using True t e
      by (cases "n = f")
         (auto simp: finalizeLapBlock_def Some Let_def pitPatched_def recompute_lapsByNumber
            recompute_frame Map_get_markAll)
  qed
qed

lemma playerLapUpdate_close_ledger:
  assumes nr: "noRewind s lap"
    and a: "pitLaneActive (playerState s)" and f: "pitLaneTimerActive lap \<noteq> 1"
    and st: "pitLaneStartLapNum (playerState s) = Some n"
    and pos: "0 < pitLaneMaxTimeMs (playerState s)"
    and e: "Map_get (lapsByNumber s) n = Some e"
  shows "pitPatched (playerLapUpdate s pci lap) n (pitLaneMaxTimeMs (playerState s))
           (pitLanePitStatusMax (playerState s))"
    and "bestsInv (playerLapUpdate s pci lap)"
proof -
  let ?s1 = "penaltiesBlock s lap"
  let ?s3 = "tyreAtLapStartBlock ?s1 lap"
  let ?s4 = "pitLaneBlock ?s3 lap"
  let ?s5 = "liveTimesBlock ?s4 lap"
  let ?s6 = "liveBestSectorsBlock ?s5 lap"
  let ?s7 = "currentLapBlock ?s6 lap"
  let ?s8 = "finalizeLapBlock ?s7 pci lap"
  let ?T = "pitLaneMaxTimeMs (playerState s)"
  let ?U = "pitLanePitStatusMax (playerState s)"
  have n1: "noRewind ?s1 lap"
    using nr by (simp add: noRewind_def currentLapNum_frame)
  have r: "rewindBlock ?s1 lap = ?s1" by (rule rewindBlock_noRewind[OF n1])
  have p3: "playerState ?s3 = playerState s" by (simp add: playerState_blocks)
  have l3: "lapsByNumber ?s3 = lapsByNumber s" by (simp add: ledger_frame)
  have h3: "pitLaneActive (playerState ?s3)" "pitLaneStartLapNum (playerState ?s3) = Some n"
    "0 < pitLaneMaxTimeMs (playerState ?s3)" "Map_get (lapsByNumber ?s3) n = Some e"
    using a st pos e by (simp_all add: p3 l3)
  note c = pit_close[OF h3(1) f h3(2) h3(3)]
  from pit_close_ledger(1)[OF h3(1) f h3(2) h3(3) h3(4)]
  have q4: "pitPatched ?s4 n ?T ?U"
    by (auto simp: pitPatched_def c(2) c(3) p3)
  have i4: "bestsInv ?s4"
    using pit_close_ledger(2)[OF h3(1) f h3(2) h3(3) h3(4)] .
  have eq: "playerLapUpdate s pci lap = liveDeltaBlock ?s8 lap"
    by (simp add: playerLapUpdate_def Let_def r)
  show "pitPatched (playerLapUpdate s pci lap) n ?T ?U"
    unfolding eq
    by (intro pitPatched_blocks pitPatched_finalize q4)
  show "bestsInv (playerLapUpdate s pci lap)"
    unfolding eq
    by (intro liveDeltaBlock_inv finalizeLapBlock_inv currentLapBlock_inv liveBestSectorsBlock_inv
        liveTimesBlock_inv i4)
qed

lemma playerLapUpdate_currentLapNum:
  "PlayerState.currentLapNum (playerState (playerLapUpdate s pci lap)) = Some (LapData.currentLapNum lap)"
  by (simp add: playerLapUpdate_def Let_def currentLapNum_frame)

lemma keys_blocks:
  assumes "Map_has (lapsByNumber s) k"
  shows "Map_has (lapsByNumber (pitLaneBlock s lap)) k"
    and "Map_has (lapsByNumber (liveBestSectorsBlock s lap)) k"
    and "Map_has (lapsByNumber (finalizeLapBlock s pci lap)) k"
  using assms
  by (auto simp: pitLaneBlock_def liveBestSectorsBlock_def finalizeLapBlock_def Let_def
      recompute_lapsByNumber Map_has_markAll split: option.splits)

lemma playerLapUpdate_keeps_keys:
  assumes "noRewind s lap" and "Map_has (lapsByNumber s) k"
  shows "Map_has (lapsByNumber (playerLapUpdate s pci lap)) k"
proof -
  let ?s1 = "penaltiesBlock s lap"
  have n1: "noRewind ?s1 lap"
    using assms(1) by (simp add: noRewind_def currentLapNum_frame)
  have r: "rewindBlock ?s1 lap = ?s1" by (rule rewindBlock_noRewind[OF n1])
  have k3: "Map_has (lapsByNumber (tyreAtLapStartBlock ?s1 lap)) k"
    using assms(2) by (simp add: ledger_frame)
  let ?s4 = "pitLaneBlock (tyreAtLapStartBlock ?s1 lap) lap"
  have k4: "Map_has (lapsByNumber ?s4) k" by (rule keys_blocks(1)[OF k3])
  then have k5: "Map_has (lapsByNumber (liveTimesBlock ?s4 lap)) k" by (simp add: ledger_frame)
  let ?s6 = "liveBestSectorsBlock (liveTimesBlock ?s4 lap) lap"
  have k6: "Map_has (lapsByNumber ?s6) k" by (rule keys_blocks(2)[OF k5])
  then have k7: "Map_has (lapsByNumber (currentLapBlock ?s6 lap)) k" by (simp add: ledger_frame)
  have k8: "Map_has (lapsByNumber (finalizeLapBlock (currentLapBlock ?s6 lap) pci lap)) k"
    by (rule keys_blocks(3)[OF k7])
  show ?thesis
    by (simp add: playerLapUpdate_def Let_def r ledger_frame k8)
qed

lemma lapsNonDecreasing_prefix:
  "lapsNonDecreasing prev (xs @ ys) \<Longrightarrow> lapsNonDecreasing prev xs"
  by (induction xs arbitrary: prev) auto

lemma playerRun_Cons: "playerRun s pci (x # xs) = playerRun (playerLapUpdate s pci x) pci xs"
  by (simp add: playerRun_def)

lemma playerRun_snoc: "playerRun s pci (xs @ [y]) = playerLapUpdate (playerRun s pci xs) pci y"
  by (simp add: playerRun_def)

lemma run_split:
  "lapsNonDecreasing (PlayerState.currentLapNum (playerState s)) (xs @ ys) \<Longrightarrow>
   lapsNonDecreasing (PlayerState.currentLapNum (playerState (playerRun s pci xs))) ys"
proof (induction xs arbitrary: s)
  case Nil
  then show ?case by (simp add: playerRun_def)
next
  case (Cons x xs)
  from Cons.prems have "lapsNonDecreasing (Some (LapData.currentLapNum x)) (xs @ ys)" by simp
  then have "lapsNonDecreasing
      (PlayerState.currentLapNum (playerState (playerLapUpdate s pci x))) (xs @ ys)"
    by (simp add: playerLapUpdate_currentLapNum)
  from Cons.IH[OF this] show ?case by (simp add: playerRun_Cons)
qed

lemma lapsNonDecreasing_head:
  "lapsNonDecreasing (PlayerState.currentLapNum (playerState s)) (x # xs) \<Longrightarrow> noRewind s x"
  by (simp add: noRewind_def)

lemma run_pitCore:
  "pitCore s1 = pitCore s2 \<Longrightarrow>
   lapsNonDecreasing (PlayerState.currentLapNum (playerState s1)) obs \<Longrightarrow>
   pitCore (playerRun s1 pci obs) = pitCore (foldl pitLaneBlock s2 obs)"
proof (induction obs arbitrary: s1 s2)
  case Nil
  then show ?case by (simp add: playerRun_def)
next
  case (Cons x xs)
  have nr: "noRewind s1 x" using Cons.prems(2) by (rule lapsNonDecreasing_head)
  have c: "pitCore (playerLapUpdate s1 pci x) = pitCore (pitLaneBlock s2 x)"
    using playerLapUpdate_pitCore[OF nr, of pci] pitLaneBlock_pitCore[OF Cons.prems(1), of x]
    by simp
  have l: "lapsNonDecreasing
      (PlayerState.currentLapNum (playerState (playerLapUpdate s1 pci x))) xs"
    using Cons.prems(2) by (simp add: playerLapUpdate_currentLapNum)
  from Cons.IH[OF c l] show ?case by (simp add: playerRun_Cons)
qed

lemma run_keeps_keys:
  "lapsNonDecreasing (PlayerState.currentLapNum (playerState s)) obs \<Longrightarrow>
   Map_has (lapsByNumber s) k \<Longrightarrow> Map_has (lapsByNumber (playerRun s pci obs)) k"
proof (induction obs arbitrary: s)
  case Nil
  then show ?case by (simp add: playerRun_def)
next
  case (Cons x xs)
  have nr: "noRewind s x" using Cons.prems(1) by (rule lapsNonDecreasing_head)
  have l: "lapsNonDecreasing
      (PlayerState.currentLapNum (playerState (playerLapUpdate s pci x))) xs"
    using Cons.prems(1) by (simp add: playerLapUpdate_currentLapNum)
  from Cons.IH[OF l playerLapUpdate_keeps_keys[OF nr Cons.prems(2)]]
  show ?case by (simp add: playerRun_Cons)
qed

lemma pit_run_open:
  assumes "\<not> pitLaneActive (playerState s)" "pitLaneTimerActive first = 1"
    "\<forall>ob \<in> set obs. pitLaneTimerActive ob = 1"
  shows "pitLaneActive (playerState (foldl pitLaneBlock s (first # obs)))"
    and "pitLaneStartLapNum (playerState (foldl pitLaneBlock s (first # obs)))
           = Some (LapData.currentLapNum first)"
    and "pitLaneMaxTimeMs (playerState (foldl pitLaneBlock s (first # obs)))
           = Max (insert 0 (set (map pitLaneTimeInLaneInMS (first # obs))))"
    and "pitLanePitStatusMax (playerState (foldl pitLaneBlock s (first # obs)))
           = Max (insert 0 (set (map LapData.pitStatus (first # obs))))"
proof -
  let ?s1 = "pitLaneBlock s first"
  note o = pit_open[OF assms(1,2)]
  have ge: "0 \<le> pitLaneMaxTimeMs (playerState ?s1)" by (simp add: o)
  note r = pit_run_active[OF o(1) assms(3) ge]
  show "pitLaneMaxTimeMs (playerState (foldl pitLaneBlock s (first # obs)))
           = Max (insert 0 (set (map pitLaneTimeInLaneInMS (first # obs))))"
    using r Max_insert_max[of "set (map pitLaneTimeInLaneInMS obs)" 0 "pitLaneTimeInLaneInMS first"]
    by (simp add: o insert_commute del: Max_insert)
  show "pitLanePitStatusMax (playerState (foldl pitLaneBlock s (first # obs)))
           = Max (insert 0 (set (map LapData.pitStatus (first # obs))))"
    using r Max_insert_max[of "set (map LapData.pitStatus obs)" 0 "LapData.pitStatus first"]
    by (simp add: o insert_commute del: Max_insert)
  show "pitLaneActive (playerState (foldl pitLaneBlock s (first # obs)))"
    "pitLaneStartLapNum (playerState (foldl pitLaneBlock s (first # obs)))
           = Some (LapData.currentLapNum first)"
    using r by (simp_all add: o)
qed

lemma player_stint_run:
  assumes nd: "lapsNonDecreasing (PlayerState.currentLapNum (playerState s)) (first # obs @ [final])"
    and h: "\<not> pitLaneActive (playerState s)" "pitLaneTimerActive first = 1"
    "\<forall>ob \<in> set obs. pitLaneTimerActive ob = 1" "pitLaneTimerActive final \<noteq> 1"
    "0 < Max (insert 0 (set (map pitLaneTimeInLaneInMS (first # obs))))"
  shows "Map_get (pitLaneTimeByLap (playerRun s pci (first # obs @ [final]))) (LapData.currentLapNum first)
           = Some (Max (insert 0 (set (map pitLaneTimeInLaneInMS (first # obs)))))"
    and "Map_get (pitLaneStatusByLap (playerRun s pci (first # obs @ [final]))) (LapData.currentLapNum first)
           = Some (Max (insert 0 (set (map LapData.pitStatus (first # obs)))))"
    and "\<not> pitLaneActive (playerState (playerRun s pci (first # obs @ [final])))"
    and "k \<noteq> LapData.currentLapNum first \<Longrightarrow>
         Map_get (pitLaneTimeByLap (playerRun s pci (first # obs @ [final]))) k = Map_get (pitLaneTimeByLap s) k
         \<and> Map_get (pitLaneStatusByLap (playerRun s pci (first # obs @ [final]))) k = Map_get (pitLaneStatusByLap s) k"
    and "Map_get (lapsByNumber s) (LapData.currentLapNum first) = Some e \<Longrightarrow>
         \<exists>e'. Map_get (lapsByNumber (playerRun s pci (first # obs @ [final]))) (LapData.currentLapNum first) = Some e'
            \<and> LapEntry.pitLaneTimeMs e' = Some (Max (insert 0 (set (map pitLaneTimeInLaneInMS (first # obs)))))
            \<and> LapEntry.pitStatus e' = Max (insert 0 (set (map LapData.pitStatus (first # obs))))"
proof -
  let ?all = "first # obs @ [final]"
  let ?n = "LapData.currentLapNum first"
  let ?T = "Max (insert 0 (set (map pitLaneTimeInLaneInMS (first # obs))))"
  let ?U = "Max (insert 0 (set (map LapData.pitStatus (first # obs))))"
  have c: "pitCore (playerRun s pci ?all) = pitCore (foldl pitLaneBlock s ?all)"
    by (rule run_pitCore[OF refl nd])
  note f = pitCore_fields[OF c]
  note r = pit_stint_run[OF h]
  show "Map_get (pitLaneTimeByLap (playerRun s pci ?all)) ?n = Some ?T"
    unfolding f by (rule r(1))
  show "Map_get (pitLaneStatusByLap (playerRun s pci ?all)) ?n = Some ?U"
    unfolding f by (rule r(2))
  show "\<not> pitLaneActive (playerState (playerRun s pci ?all))"
    unfolding f by (rule r(3))
  show "Map_get (pitLaneTimeByLap (playerRun s pci ?all)) k = Map_get (pitLaneTimeByLap s) k
         \<and> Map_get (pitLaneStatusByLap (playerRun s pci ?all)) k = Map_get (pitLaneStatusByLap s) k"
    if "k \<noteq> ?n"
    unfolding f by (rule r(4)[OF that])
  show "\<exists>e'. Map_get (lapsByNumber (playerRun s pci ?all)) ?n = Some e'
            \<and> LapEntry.pitLaneTimeMs e' = Some ?T \<and> LapEntry.pitStatus e' = ?U"
    if e: "Map_get (lapsByNumber s) ?n = Some e"
  proof -
    let ?sB = "playerRun s pci (first # obs)"
    have nd1: "lapsNonDecreasing (PlayerState.currentLapNum (playerState s)) ((first # obs) @ [final])"
      using nd by simp
    then have ndB: "lapsNonDecreasing (PlayerState.currentLapNum (playerState s)) (first # obs)"
      by (rule lapsNonDecreasing_prefix)
    have cB: "pitCore ?sB = pitCore (foldl pitLaneBlock s (first # obs))"
      by (rule run_pitCore[OF refl ndB])
    note fB = pitCore_fields[OF cB]
    note o = pit_run_open[OF h(1,2,3)]
    have nrB: "noRewind ?sB final"
      using run_split[OF nd1, of pci] by (simp add: noRewind_def)
    have hasB: "Map_has (lapsByNumber ?sB) ?n"
      using run_keeps_keys[OF ndB, of ?n pci] e by (simp add: Map_has_get)
    then obtain eB where eB: "Map_get (lapsByNumber ?sB) ?n = Some eB"
      by (auto simp: Map_has_get)
    have aB: "pitLaneActive (playerState ?sB)" unfolding fB by (rule o(1))
    have stB: "pitLaneStartLapNum (playerState ?sB) = Some ?n" unfolding fB by (rule o(2))
    have TB: "pitLaneMaxTimeMs (playerState ?sB) = ?T" unfolding fB by (rule o(3))
    have UB: "pitLanePitStatusMax (playerState ?sB) = ?U" unfolding fB by (rule o(4))
    have posB: "0 < pitLaneMaxTimeMs (playerState ?sB)" unfolding TB by (rule h(5))
    have eq: "playerRun s pci ?all = playerLapUpdate ?sB pci final"
      using playerRun_snoc[of s pci "first # obs" final] by simp
    from playerLapUpdate_close_ledger(1)[OF nrB aB h(4) stB posB eB, of pci]
    show ?thesis
      unfolding eq TB UB by (auto simp: pitPatched_def split: option.splits)
  qed
qed

section \<open>The tyre snapshots through every handler\<close>

lemma keepsKnownFields_refl [simp]: "keepsKnownFields t t"
  by (simp add: keepsKnownFields_def split: option.splits)

lemma tyreCore_upd [simp]:
  "tyreCore (s\<lparr>lapsState := a0\<rparr>) = tyreCore s"
  "tyreCore (s\<lparr>numActiveCars := a1\<rparr>) = tyreCore s"
  "tyreCore (s\<lparr>State.raceBestSector1TimeMs := a2\<rparr>) = tyreCore s"
  "tyreCore (s\<lparr>State.raceBestSector2TimeMs := a3\<rparr>) = tyreCore s"
  "tyreCore (s\<lparr>State.raceBestSector3TimeMs := a4\<rparr>) = tyreCore s"
  "tyreCore (s\<lparr>State.raceBestSector1CarIndex := a5\<rparr>) = tyreCore s"
  "tyreCore (s\<lparr>State.raceBestSector2CarIndex := a6\<rparr>) = tyreCore s"
  "tyreCore (s\<lparr>State.raceBestSector3CarIndex := a7\<rparr>) = tyreCore s"
  "tyreCore (s\<lparr>State.raceBestLapTimeMs := a8\<rparr>) = tyreCore s"
  "tyreCore (s\<lparr>State.raceBestLapCarIndex := a9\<rparr>) = tyreCore s"
  "tyreCore (s\<lparr>State.raceBestLapNum := a10\<rparr>) = tyreCore s"
  "tyreCore (s\<lparr>participantsNameByIndex := a11\<rparr>) = tyreCore s"
  "tyreCore (s\<lparr>participantsTeamIdByIndex := a12\<rparr>) = tyreCore s"
  "tyreCore (s\<lparr>participantsColorByIndex := a13\<rparr>) = tyreCore s"
  "tyreCore (s\<lparr>carStatusByIndex := a14\<rparr>) = tyreCore s"
  "tyreCore (s\<lparr>carTelemetryByIndex := a15\<rparr>) = tyreCore s"
  "tyreCore (s\<lparr>carDamageByIndex := a16\<rparr>) = tyreCore s"
  "tyreCore (s\<lparr>lapDataByIndex := a17\<rparr>) = tyreCore s"
  "tyreCore (s\<lparr>sectorCacheByIndex := a18\<rparr>) = tyreCore s"
  "tyreCore (s\<lparr>pitLaneStintByIndex := a19\<rparr>) = tyreCore s"
  "tyreCore (s\<lparr>sessionHistoryByCarIndex := a20\<rparr>) = tyreCore s"
  "tyreCore (s\<lparr>lapsByNumber := a21\<rparr>) = tyreCore s"
  "tyreCore (s\<lparr>pitLaneTimeByLap := a22\<rparr>) = tyreCore s"
  "tyreCore (s\<lparr>pitLaneStatusByLap := a23\<rparr>) = tyreCore s"
  by (simp_all add: tyreCore_def)

lemma tyreCore_recompute [simp]: "tyreCore (recomputeFromLaps s) = tyreCore s"
  by (simp add: tyreCore_def recompute_frame)

lemma tyreCore_updateRaceCars [simp]: "tyreCore (updateRaceCars s pci) = tyreCore s"
  by (simp add: tyreCore_def updateRaceCars_frame)

lemma tyreCore_override [simp]: "tyreCore (foldl overrideLapFromHistory s byLap) = tyreCore s"
  by (induction byLap arbitrary: s)
     (auto simp: overrideLapFromHistory_def split: option.splits)

text \<open>The handlers that leave the tyre table and the player's trackers alone.\<close>

lemma handleSessionPacket_core:
  "handleSessionPacket s buf = Some s' \<Longrightarrow> parseHeader buf = Some (Some h) \<Longrightarrow>
   tyreCore s' = tyreCore (resetIfNewSession s h)"
  by (auto simp: handleSessionPacket_def Let_def split: if_splits bind_splits)

lemma participantLoop_core:
  "forEachM xs (participantStep buf base) s = Some s' \<Longrightarrow> tyreCore s = c \<Longrightarrow> tyreCore s' = c"
  by (erule forEachM_inv) (auto simp: participantStep_def Let_def split: if_splits bind_splits)

lemma handleParticipantsPacket_core:
  "handleParticipantsPacket s buf = Some s' \<Longrightarrow> parseHeader buf = Some (Some h) \<Longrightarrow>
   tyreCore s' = tyreCore (resetIfNewSession s h)"
  by (auto simp: handleParticipantsPacket_def Let_def split: if_splits bind_splits
      dest!: participantLoop_core[OF _ refl])

lemma handleSessionHistoryPacket_core:
  "handleSessionHistoryPacket s buf = Some s' \<Longrightarrow> parseHeader buf = Some (Some h) \<Longrightarrow>
   tyreCore s' = tyreCore (resetIfNewSession s h)"
  by (auto simp: handleSessionHistoryPacket_def Let_def applyPlayerHistory_def
      split: if_splits bind_splits)

lemma carTelemetryLoop_core:
  "forEachM xs (carTelemetryStep buf) s = Some s' \<Longrightarrow> tyreCore s = c \<Longrightarrow> tyreCore s' = c"
  by (erule forEachM_inv) (auto simp: carTelemetryStep_def split: option.splits bind_splits)

lemma handleCarTelemetryPacket_core:
  "handleCarTelemetryPacket s buf = Some s' \<Longrightarrow> parseHeader buf = Some (Some h) \<Longrightarrow>
   tyreCore s' = tyreCore (resetIfNewSession s h)"
  by (auto simp: handleCarTelemetryPacket_def Let_def split: if_splits bind_splits option.splits
      dest!: carTelemetryLoop_core[OF _ refl])

lemma carDamageLoop_core:
  "forEachM xs (carDamageStep buf) s = Some s' \<Longrightarrow> tyreCore s = c \<Longrightarrow> tyreCore s' = c"
  by (erule forEachM_inv) (auto simp: carDamageStep_def split: option.splits bind_splits)

lemma handleCarDamagePacket_core:
  "handleCarDamagePacket s buf = Some s' \<Longrightarrow> parseHeader buf = Some (Some h) \<Longrightarrow>
   tyreCore s' = tyreCore (resetIfNewSession s h)"
  by (auto simp: handleCarDamagePacket_def Let_def split: if_splits bind_splits option.splits
      dest!: carDamageLoop_core[OF _ refl])

lemma carStatusLoop_core:
  "forEachM xs (carStatusStep buf) s = Some s' \<Longrightarrow> tyreCore s = c \<Longrightarrow> tyreCore s' = c"
  by (erule forEachM_inv) (auto simp: carStatusStep_def split: option.splits bind_splits)

lemma lapDataLoop_core:
  "forEachM xs (lapDataStep buf) s = Some s' \<Longrightarrow> tyreCore s = c \<Longrightarrow> tyreCore s' = c"
  by (erule forEachM_inv)
     (auto simp: lapDataStep_def updateCarFromLapData_def Let_def split: option.splits bind_splits)

lemma tyreCore_fields:
  assumes "tyreCore s' = tyreCore s"
  shows "tyreByLapStart s' = tyreByLapStart s" and "playerState s' = playerState s"
    and "currentTyres s' = currentTyres s"
  using assms by (simp_all add: tyreCore_def currentTyres_def)

lemma tyreInv_core:
  assumes "tyreCore s' = tyreCore s"
  shows "tyreInv s' = tyreInv s"
  unfolding tyreInv_def tyreCore_fields[OF assms] by (rule refl)

lemma snapshotKept_refl: "tyreByLapStart s' = tyreByLapStart s \<Longrightarrow> snapshotKept s s' k"
  by (cases "Map_get (tyreByLapStart s) k") (simp_all add: snapshotKept_def)

lemma snapshotKept_core:
  assumes "tyreCore s1 = tyreCore s"
  shows "snapshotKept s1 s' k = snapshotKept s s' k"
  unfolding snapshotKept_def tyreCore_fields[OF assms] by (rule refl)

lemma rewoundTo_core:
  assumes "tyreCore s1 = tyreCore s"
  shows "rewoundTo s1 s' k = rewoundTo s s' k"
  unfolding rewoundTo_def tyreCore_fields[OF assms] by (rule refl)

lemma tyreInv_reset: "tyreInv (resetSessionState s uid)"
  by (simp add: tyreInv_def resetSessionState_def currentTyres_def allOrNothing_def Map_values_def)

lemma tyreInv_initial: "tyreInv initialState"
  by (simp add: tyreInv_def initialState_def currentTyres_def allOrNothing_def Map_values_def)

lemma resetIfNewSession_cases:
  "resetIfNewSession s h = s
   \<or> PlayerState.sessionUID (playerState (resetIfNewSession s h)) \<noteq> PlayerState.sessionUID (playerState s)"
  by (auto simp: resetIfNewSession_def resetSessionState_def)

lemma resetIfNewSession_tyreInv: "tyreInv s \<Longrightarrow> tyreInv (resetIfNewSession s h)"
  by (simp add: resetIfNewSession_def tyreInv_reset)

lemma stepOk_same: "tyreInv s \<Longrightarrow> stepOk s s"
  by (simp add: stepOk_def snapshotKept_refl)

lemma stepOk_after_reset:
  assumes "tyreInv s"
    and "tyreInv (resetIfNewSession s h) \<Longrightarrow>
         tyreInv s'
         \<and> PlayerState.sessionUID (playerState s') = PlayerState.sessionUID (playerState (resetIfNewSession s h))
         \<and> (\<forall>k. rewoundTo (resetIfNewSession s h) s' k \<or> snapshotKept (resetIfNewSession s h) s' k)"
  shows "stepOk s s'"
proof -
  note b = assms(2)[OF resetIfNewSession_tyreInv[OF assms(1)]]
  show ?thesis
    using resetIfNewSession_cases[of s h] b by (auto simp: stepOk_def)
qed

lemma stepOk_passive:
  assumes "tyreInv s" and "tyreCore s' = tyreCore (resetIfNewSession s h)"
  shows "stepOk s s'"
proof (rule stepOk_after_reset[OF assms(1), of h])
  assume "tyreInv (resetIfNewSession s h)"
  then show "tyreInv s'
         \<and> PlayerState.sessionUID (playerState s') = PlayerState.sessionUID (playerState (resetIfNewSession s h))
         \<and> (\<forall>k. rewoundTo (resetIfNewSession s h) s' k \<or> snapshotKept (resetIfNewSession s h) s' k)"
    by (simp add: tyreInv_core[OF assms(2)] tyreCore_fields[OF assms(2)]
        snapshotKept_refl[OF tyreCore_fields(1)[OF assms(2)]])
qed

text \<open>The player's update.\<close>

lemma sessionUID_frame:
  "PlayerState.sessionUID (playerState (penaltiesBlock s lap)) = PlayerState.sessionUID (playerState s)"
  "PlayerState.sessionUID (playerState (rewindBlock s lap)) = PlayerState.sessionUID (playerState s)"
  "PlayerState.sessionUID (playerState (tyreAtLapStartBlock s lap)) = PlayerState.sessionUID (playerState s)"
  "PlayerState.sessionUID (playerState (pitLaneBlock s lap)) = PlayerState.sessionUID (playerState s)"
  "PlayerState.sessionUID (playerState (liveTimesBlock s lap)) = PlayerState.sessionUID (playerState s)"
  "PlayerState.sessionUID (playerState (liveBestSectorsBlock s lap)) = PlayerState.sessionUID (playerState s)"
  "PlayerState.sessionUID (playerState (currentLapBlock s lap)) = PlayerState.sessionUID (playerState s)"
  "PlayerState.sessionUID (playerState (finalizeLapBlock s pci lap)) = PlayerState.sessionUID (playerState s)"
  "PlayerState.sessionUID (playerState (liveDeltaBlock s lap)) = PlayerState.sessionUID (playerState s)"
  by (simp_all add: block_defs Let_def recompute_frame split: option.splits)

lemma playerLapUpdate_player:
  "PlayerState.sessionUID (playerState (playerLapUpdate s pci lap)) = PlayerState.sessionUID (playerState s)"
  "PlayerState.currentLapNum (playerState (playerLapUpdate s pci lap)) = Some (LapData.currentLapNum lap)"
  "currentTyres (playerLapUpdate s pci lap) = currentTyres s"
  by (simp_all add: playerLapUpdate_def Let_def sessionUID_frame currentLapNum_frame
      currentTyres_frame)

lemma rewindBlock_tyres:
  "tyreByLapStart (rewindBlock s lap) =
     (case PlayerState.currentLapNum (playerState s) of
        None \<Rightarrow> tyreByLapStart s
      | Some p \<Rightarrow> if LapData.currentLapNum lap < p
                  then deleteLapsFrom (tyreByLapStart s) (LapData.currentLapNum lap)
                  else tyreByLapStart s)"
  by (simp add: rewindBlock_def recompute_frame split: option.splits)

lemma playerLapUpdate_tyres:
  "tyreByLapStart (playerLapUpdate s pci lap) =
     (if Map_has (tyreByLapStart (rewindBlock s lap)) (LapData.currentLapNum lap)
      then tyreByLapStart (rewindBlock s lap)
      else Map_set (tyreByLapStart (rewindBlock s lap)) (LapData.currentLapNum lap) (currentTyres s))"
proof -
  have r: "tyreByLapStart (rewindBlock (penaltiesBlock s lap) lap) = tyreByLapStart (rewindBlock s lap)"
    by (simp add: rewindBlock_tyres playerState_blocks tyre_frame split: option.splits)
  show ?thesis
    by (simp add: playerLapUpdate_def Let_def tyre_frame tyreAtLapStartBlock_def r
        currentTyres_frame)
qed

lemma values_Map_set: "set (Map_values (Map_set m k v)) \<subseteq> insert v (set (Map_values m))"
  using set_Map_set[of m k v] by (auto simp: Map_values_def)

lemma values_deleteLapsFrom: "set (Map_values (deleteLapsFrom m c)) \<subseteq> set (Map_values m)"
  by (auto simp: deleteLapsFrom_filter Map_values_def)

lemma rewindBlock_values:
  "set (Map_values (tyreByLapStart (rewindBlock s lap))) \<subseteq> set (Map_values (tyreByLapStart s))"
  using values_deleteLapsFrom[of "tyreByLapStart s" "LapData.currentLapNum lap"]
  by (simp add: rewindBlock_tyres split: option.splits)

lemma playerLapUpdate_tyreInv:
  assumes "tyreInv s"
  shows "tyreInv (playerLapUpdate s pci lap)"
proof -
  let ?T0 = "tyreByLapStart (rewindBlock s lap)"
  let ?c = "LapData.currentLapNum lap"
  have v: "set (Map_values (tyreByLapStart (playerLapUpdate s pci lap)))
      \<subseteq> insert (currentTyres s) (set (Map_values (tyreByLapStart s)))"
    using values_Map_set[of ?T0 ?c "currentTyres s"] rewindBlock_values[of s lap]
    by (auto simp: playerLapUpdate_tyres)
  have h: "Map_has (tyreByLapStart (playerLapUpdate s pci lap)) ?c"
    by (simp add: playerLapUpdate_tyres)
  from assms v have "list_all allOrNothing (Map_values (tyreByLapStart (playerLapUpdate s pci lap)))"
    by (auto simp: tyreInv_def list_all_iff)
  with assms h show ?thesis
    by (simp add: tyreInv_def playerLapUpdate_player)
qed

lemma playerLapUpdate_kept:
  "rewoundTo s (playerLapUpdate s pci lap) k \<or> snapshotKept s (playerLapUpdate s pci lap) k"
proof (cases "Map_get (tyreByLapStart s) k")
  case None
  then show ?thesis by (simp add: snapshotKept_def)
next
  case (Some t)
  let ?T0 = "tyreByLapStart (rewindBlock s lap)"
  let ?c = "LapData.currentLapNum lap"
  show ?thesis
  proof (cases "rewoundTo s (playerLapUpdate s pci lap) k")
    case True then show ?thesis by simp
  next
    case False
    then have t0: "Map_get ?T0 k = Some t"
      using Some
      by (auto simp: rewoundTo_def playerLapUpdate_player rewindBlock_tyres split: option.splits)
    then have h: "Map_has ?T0 k" by (simp add: Map_has_get)
    have "Map_get (tyreByLapStart (playerLapUpdate s pci lap)) k = Some t"
      using t0 h by (auto simp: playerLapUpdate_tyres)
    then show ?thesis by (simp add: snapshotKept_def Some)
  qed
qed

text \<open>The car status.\<close>

lemma playerTyresFromStatus_core:
  "tyreByLapStart (playerTyresFromStatus s pci) = tyreByLapStart s"
  "PlayerState.sessionUID (playerState (playerTyresFromStatus s pci)) = PlayerState.sessionUID (playerState s)"
  "PlayerState.currentLapNum (playerState (playerTyresFromStatus s pci)) = PlayerState.currentLapNum (playerState s)"
  "allOrNothing (currentTyres s) \<Longrightarrow> allOrNothing (currentTyres (playerTyresFromStatus s pci))"
  by (simp_all add: playerTyresFromStatus_def currentTyres_def allOrNothing_def split: option.splits)

lemma playerTyresFromStatus_tyreInv: "tyreInv s \<Longrightarrow> tyreInv (playerTyresFromStatus s pci)"
  by (simp add: tyreInv_def playerTyresFromStatus_core split: option.splits)

lemma backfill_player:
  "playerState (backfillTyreAtLapStart s) = playerState s"
  "currentTyres (backfillTyreAtLapStart s) = currentTyres s"
  by (simp_all add: backfillTyreAtLapStart_def currentTyres_def Let_def split: option.splits)

lemma backfill_tyreInv:
  assumes "tyreInv s"
  shows "tyreInv (backfillTyreAtLapStart s)"
proof (cases "PlayerState.currentLapNum (playerState s)")
  case None
  then show ?thesis using assms by (simp add: backfillTyreAtLapStart_def)
next
  case (Some c)
  have v: "set (Map_values (tyreByLapStart (backfillTyreAtLapStart s)))
      \<subseteq> insert (currentTyres s) (set (Map_values (tyreByLapStart s)))"
    using values_Map_set[of "tyreByLapStart s" c "currentTyres s"]
    by (auto simp: backfillTyreAtLapStart_def Some Let_def)
  have h: "Map_has (tyreByLapStart (backfillTyreAtLapStart s)) c"
    using assms by (auto simp: backfillTyreAtLapStart_def Some Let_def tyreInv_def)
  from assms v have "list_all allOrNothing (Map_values (tyreByLapStart (backfillTyreAtLapStart s)))"
    by (auto simp: tyreInv_def list_all_iff)
  with assms h show ?thesis
    by (simp add: tyreInv_def backfill_player Some)
qed

lemma Map_get_values: "Map_get m k = Some v \<Longrightarrow> v \<in> set (Map_values m)"
  by (auto simp: Map_get_def Map_values_def dest!: map_of_SomeD intro: rev_image_eqI)

lemma backfill_kept:
  assumes "list_all allOrNothing (Map_values (tyreByLapStart s))"
  shows "snapshotKept s (backfillTyreAtLapStart s) k"
proof (cases "Map_get (tyreByLapStart s) k")
  case None
  then show ?thesis by (simp add: snapshotKept_def)
next
  case (Some t)
  have a: "allOrNothing t"
    using assms Map_get_values[OF Some] by (simp add: list_all_iff)
  show ?thesis
  proof (cases "PlayerState.currentLapNum (playerState s) = Some k")
    case True
    show ?thesis
      using a
      by (auto simp: snapshotKept_def Some backfillTyreAtLapStart_def True Let_def
          keepsKnownFields_def allOrNothing_def split: option.splits)
  next
    case False
    then show ?thesis
      by (auto simp: snapshotKept_def Some backfillTyreAtLapStart_def Let_def
          split: option.splits)
  qed
qed

lemma handleCarStatusPacket_stepOk:
  assumes "tyreInv s" and "handleCarStatusPacket s buf = Some s'"
  shows "stepOk s s'"
proof -
  obtain r where r: "parseHeader buf = Some r" using parseHeader_total by blast
  show ?thesis
  proof (cases r)
    case None
    then have "s' = s" using assms(2) by (simp add: handleCarStatusPacket_def r)
    then show ?thesis using assms(1) by (simp add: stepOk_same)
  next
    case (Some h)
    let ?s1 = "resetIfNewSession s h"
    from assms(2) obtain s2 where
      loop: "forEachM [0..<NUM_CARS] (carStatusStep buf) ?s1 = Some s2"
      and s': "s' = backfillTyreAtLapStart (playerTyresFromStatus s2 (Header.playerCarIndex h))"
      by (auto simp: handleCarStatusPacket_def r Some Let_def split: bind_splits)
    have c2: "tyreCore s2 = tyreCore ?s1" using carStatusLoop_core[OF loop refl] .
    let ?s3 = "playerTyresFromStatus s2 (Header.playerCarIndex h)"
    show ?thesis
    proof (rule stepOk_after_reset[OF assms(1), of h])
      assume i1: "tyreInv ?s1"
      then have i2: "tyreInv s2" by (simp add: tyreInv_core[OF c2])
      then have i3: "tyreInv ?s3" by (rule playerTyresFromStatus_tyreInv)
      have k3: "snapshotKept ?s3 s' k" for k
        unfolding s' using i3 by (intro backfill_kept) (simp add: tyreInv_def)
      have k1: "snapshotKept ?s1 s' k" for k
        using k3[of k]
        by (simp add: snapshotKept_def playerTyresFromStatus_core tyreCore_fields[OF c2])
      show "tyreInv s'
         \<and> PlayerState.sessionUID (playerState s') = PlayerState.sessionUID (playerState ?s1)
         \<and> (\<forall>k. rewoundTo ?s1 s' k \<or> snapshotKept ?s1 s' k)"
        using k1 backfill_tyreInv[OF i3]
        by (simp add: s' backfill_player playerTyresFromStatus_core tyreCore_fields[OF c2])
    qed
  qed
qed

lemma handleLapDataPacket_stepOk:
  assumes "tyreInv s" and "handleLapDataPacket s buf = Some s'"
  shows "stepOk s s'"
proof -
  obtain r where r: "parseHeader buf = Some r" using parseHeader_total by blast
  show ?thesis
  proof (cases r)
    case None
    then have "s' = s" using assms(2) by (simp add: handleLapDataPacket_def r)
    then show ?thesis using assms(1) by (simp add: stepOk_same)
  next
    case (Some h)
    let ?s1 = "resetIfNewSession s h"
    let ?s2 = "?s1\<lparr>lapsState := (lapsState ?s1)
                          \<lparr>isConnected := True,
                           LapsState.playerCarIndex := Some (Header.playerCarIndex h)\<rparr>\<rparr>"
    from assms(2) obtain s3 where
      loop: "forEachM [0..<NUM_CARS] (lapDataStep buf) ?s2 = Some s3"
      and s': "s' = (if Header.playerCarIndex h \<ge> NUM_CARS then updateRaceCars s3 (Header.playerCarIndex h)
                   else (case Map_get (lapDataByIndex (updateRaceCars s3 (Header.playerCarIndex h))) (Header.playerCarIndex h) of
                           None \<Rightarrow> updateRaceCars s3 (Header.playerCarIndex h)
                         | Some lap \<Rightarrow> playerLapUpdate (updateRaceCars s3 (Header.playerCarIndex h)) (Header.playerCarIndex h) lap))"
      by (auto simp: handleLapDataPacket_def r Some Let_def split: bind_splits)
    let ?s4 = "updateRaceCars s3 (Header.playerCarIndex h)"
    have c3: "tyreCore s3 = tyreCore ?s2" using lapDataLoop_core[OF loop refl] .
    have c4: "tyreCore ?s4 = tyreCore ?s1" by (simp add: c3)
    show ?thesis
    proof (rule stepOk_after_reset[OF assms(1), of h])
      assume i1: "tyreInv ?s1"
      then have i4: "tyreInv ?s4" by (simp add: tyreInv_core[OF c4])
      have "s' = ?s4 \<or> (\<exists>lap. s' = playerLapUpdate ?s4 (Header.playerCarIndex h) lap)"
        unfolding s' by (auto split: option.splits)
      then show "tyreInv s'
         \<and> PlayerState.sessionUID (playerState s') = PlayerState.sessionUID (playerState ?s1)
         \<and> (\<forall>k. rewoundTo ?s1 s' k \<or> snapshotKept ?s1 s' k)"
      proof
        assume e: "s' = ?s4"
        show ?thesis
          using i4 by (simp add: e tyreCore_fields[OF c4] snapshotKept_refl)
      next
        assume "\<exists>lap. s' = playerLapUpdate ?s4 (Header.playerCarIndex h) lap"
        then obtain lap where e: "s' = playerLapUpdate ?s4 (Header.playerCarIndex h) lap" by blast
        have "rewoundTo ?s4 s' k \<or> snapshotKept ?s4 s' k" for k
          unfolding e by (rule playerLapUpdate_kept)
        then have "rewoundTo ?s1 s' k \<or> snapshotKept ?s1 s' k" for k
          by (simp add: rewoundTo_core[OF c4] snapshotKept_core[OF c4])
        then show ?thesis
          using playerLapUpdate_tyreInv[OF i4]
          by (simp add: e playerLapUpdate_player tyreCore_fields[OF c4])
      qed
    qed
  qed
qed

lemma handler_stepOk_passive:
  assumes "tyreInv s"
    and "\<And>h. parseHeader buf = Some (Some h) \<Longrightarrow> tyreCore s' = tyreCore (resetIfNewSession s h)"
    and "parseHeader buf = Some None \<Longrightarrow> s' = s"
  shows "stepOk s s'"
proof -
  obtain r where r: "parseHeader buf = Some r" using parseHeader_total by blast
  show ?thesis
  proof (cases r)
    case None
    then show ?thesis using assms(1,3) r by (simp add: stepOk_same)
  next
    case (Some h)
    have "parseHeader buf = Some (Some h)" by (simp add: r Some)
    from stepOk_passive[OF assms(1) assms(2)[OF this]] show ?thesis .
  qed
qed

lemma handleSessionPacket_stepOk:
  assumes "tyreInv s" and "handleSessionPacket s buf = Some s'"
  shows "stepOk s s'"
proof (rule handler_stepOk_passive[OF assms(1), of buf])
  fix h assume "parseHeader buf = Some (Some h)"
  then show "tyreCore s' = tyreCore (resetIfNewSession s h)"
    by (rule handleSessionPacket_core[OF assms(2)])
next
  assume "parseHeader buf = Some None"
  then show "s' = s" using assms(2) by (simp add: handleSessionPacket_def)
qed

lemma handleParticipantsPacket_stepOk:
  assumes "tyreInv s" and "handleParticipantsPacket s buf = Some s'"
  shows "stepOk s s'"
proof (rule handler_stepOk_passive[OF assms(1), of buf])
  fix h assume "parseHeader buf = Some (Some h)"
  then show "tyreCore s' = tyreCore (resetIfNewSession s h)"
    by (rule handleParticipantsPacket_core[OF assms(2)])
next
  assume "parseHeader buf = Some None"
  then show "s' = s" using assms(2) by (simp add: handleParticipantsPacket_def)
qed

lemma handleSessionHistoryPacket_stepOk:
  assumes "tyreInv s" and "handleSessionHistoryPacket s buf = Some s'"
  shows "stepOk s s'"
proof (rule handler_stepOk_passive[OF assms(1), of buf])
  fix h assume "parseHeader buf = Some (Some h)"
  then show "tyreCore s' = tyreCore (resetIfNewSession s h)"
    by (rule handleSessionHistoryPacket_core[OF assms(2)])
next
  assume "parseHeader buf = Some None"
  then show "s' = s" using assms(2) by (simp add: handleSessionHistoryPacket_def)
qed

lemma handleCarTelemetryPacket_stepOk:
  assumes "tyreInv s" and "handleCarTelemetryPacket s buf = Some s'"
  shows "stepOk s s'"
proof (rule handler_stepOk_passive[OF assms(1), of buf])
  fix h assume "parseHeader buf = Some (Some h)"
  then show "tyreCore s' = tyreCore (resetIfNewSession s h)"
    by (rule handleCarTelemetryPacket_core[OF assms(2)])
next
  assume "parseHeader buf = Some None"
  then show "s' = s" using assms(2) by (simp add: handleCarTelemetryPacket_def)
qed

lemma handleCarDamagePacket_stepOk:
  assumes "tyreInv s" and "handleCarDamagePacket s buf = Some s'"
  shows "stepOk s s'"
proof (rule handler_stepOk_passive[OF assms(1), of buf])
  fix h assume "parseHeader buf = Some (Some h)"
  then show "tyreCore s' = tyreCore (resetIfNewSession s h)"
    by (rule handleCarDamagePacket_core[OF assms(2)])
next
  assume "parseHeader buf = Some None"
  then show "s' = s" using assms(2) by (simp add: handleCarDamagePacket_def)
qed

lemma onMessage_cases:
  assumes "onMessage s msg = Some s'"
  shows "handleSessionPacket s msg = Some s' \<or> handleParticipantsPacket s msg = Some s'
    \<or> handleSessionHistoryPacket s msg = Some s' \<or> handleLapDataPacket s msg = Some s'
    \<or> handleCarTelemetryPacket s msg = Some s' \<or> handleCarStatusPacket s msg = Some s'
    \<or> handleCarDamagePacket s msg = Some s' \<or> s' = s"
proof -
  obtain r where r: "parseHeader msg = Some r" using parseHeader_total by blast
  show ?thesis
  proof (cases r)
    case None
    then have "s' = s" using assms by (simp add: onMessage_def r)
    then show ?thesis by simp
  next
    case (Some h)
    from assms show ?thesis
      unfolding onMessage_def r Some by (simp split: if_splits)
  qed
qed

lemma onMessage_stepOk:
  assumes "tyreInv s" and "onMessage s msg = Some s'"
  shows "stepOk s s'"
  using onMessage_cases[OF assms(2)]
proof (elim disjE)
  assume "handleSessionPacket s msg = Some s'"
  then show ?thesis by (rule handleSessionPacket_stepOk[OF assms(1)])
next
  assume "handleParticipantsPacket s msg = Some s'"
  then show ?thesis by (rule handleParticipantsPacket_stepOk[OF assms(1)])
next
  assume "handleSessionHistoryPacket s msg = Some s'"
  then show ?thesis by (rule handleSessionHistoryPacket_stepOk[OF assms(1)])
next
  assume "handleLapDataPacket s msg = Some s'"
  then show ?thesis by (rule handleLapDataPacket_stepOk[OF assms(1)])
next
  assume "handleCarTelemetryPacket s msg = Some s'"
  then show ?thesis by (rule handleCarTelemetryPacket_stepOk[OF assms(1)])
next
  assume "handleCarStatusPacket s msg = Some s'"
  then show ?thesis by (rule handleCarStatusPacket_stepOk[OF assms(1)])
next
  assume "handleCarDamagePacket s msg = Some s'"
  then show ?thesis by (rule handleCarDamagePacket_stepOk[OF assms(1)])
next
  assume "s' = s"
  then show ?thesis using assms(1) by (simp add: stepOk_same)
qed

lemma reachable_tyreInv: "reachable s \<Longrightarrow> tyreInv s"
proof (induction rule: reachable.induct)
  case reachable_initial
  show ?case by (rule tyreInv_initial)
next
  case (reachable_step s msg s')
  from onMessage_stepOk[OF reachable_step.IH reachable_step.hyps(2)]
  show ?case by (simp add: stepOk_def)
qed

lemma carStatusDatagram_header:
  "parseHeader carStatusDatagram = Some (Some carStatusDatagramHeader)"
  by (simp add: parseHeader_def carStatusDatagram_def carStatusDatagramHeader_def reads sizes)

lemma carStatusDatagram_player:
  "\<exists>st. parseCarStatusForCar carStatusDatagram 29 = Some (Some st)
     \<and> actualTyreCompound st = 19 \<and> visualTyreCompound st = 18 \<and> CarStatus.tyresAgeLaps st = 5"
  by (simp add: parseCarStatusForCar_def carStatusDatagram_def reads sizes)

lemma carStatusLoop_short:
  assumes "\<forall>i \<in> set xs. length buf < HEADER_SIZE + i * CAR_STATUS_DATA_SIZE + 55"
  shows "forEachM xs (carStatusStep buf) s = Some s"
  using assms
  by (induction xs) (simp_all add: carStatusStep_def parseCarStatusForCar_def sizes)

lemma tyreExampleState_inv: "tyreInv tyreExampleState"
  by (simp add: tyreInv_def tyreExampleState_def currentTyres_def allOrNothing_def
      exampleTyres_def Map_values_def Map_has_def)

lemma tyreExampleState_fields:
  "PlayerState.currentLapNum (playerState tyreExampleState) = Some 7"
  "PlayerState.sessionUID (playerState tyreExampleState) = Some 0"
  "tyreByLapStart tyreExampleState = [(3, exampleTyres 18 16 2), (7, exampleTyres 17 17 0)]"
  "currentTyres tyreExampleState = exampleTyres 17 17 0"
  "carStatusByIndex tyreExampleState = []"
  by (simp_all add: tyreExampleState_def currentTyres_def exampleTyres_def initialState_def)

lemma tyreExampleState_session:
  "resetIfNewSession tyreExampleState carStatusDatagramHeader = tyreExampleState"
  by (simp add: resetIfNewSession_def tyreExampleState_fields carStatusDatagramHeader_def)

lemma carStatus_example:
  "\<exists>st. handleCarStatusPacket tyreExampleState carStatusDatagram =
          Some (backfillTyreAtLapStart
                  (playerTyresFromStatus (tyreExampleState\<lparr>carStatusByIndex := [(0, st)]\<rparr>) 0))
     \<and> actualTyreCompound st = 19 \<and> visualTyreCompound st = 18 \<and> CarStatus.tyresAgeLaps st = 5"
proof -
  from carStatusDatagram_player obtain st where
    st: "parseCarStatusForCar carStatusDatagram 29 = Some (Some st)"
    and f: "actualTyreCompound st = 19" "visualTyreCompound st = 18" "CarStatus.tyresAgeLaps st = 5"
    by blast
  have pci: "Header.playerCarIndex carStatusDatagramHeader = 0"
    by (simp add: carStatusDatagramHeader_def)
  have split: "[0..<NUM_CARS] = 0 # [Suc 0..<22]"
    by (simp add: NUM_CARS_def upt_conv_Cons)
  have short: "\<forall>i \<in> set [Suc 0..<22]. length carStatusDatagram < HEADER_SIZE + i * CAR_STATUS_DATA_SIZE + 55"
    by (auto simp: carStatusDatagram_def sizes)
  have loop: "forEachM [0..<NUM_CARS] (carStatusStep carStatusDatagram) tyreExampleState
      = Some (tyreExampleState\<lparr>carStatusByIndex := [(0, st)]\<rparr>)"
    unfolding split
    by (simp add: carStatusStep_def HEADER_SIZE_def st carStatusLoop_short[OF short]
        tyreExampleState_fields)
  have "handleCarStatusPacket tyreExampleState carStatusDatagram =
          Some (backfillTyreAtLapStart
                  (playerTyresFromStatus (tyreExampleState\<lparr>carStatusByIndex := [(0, st)]\<rparr>) 0))"
    by (simp add: handleCarStatusPacket_def carStatusDatagram_header tyreExampleState_session
        loop pci)
  with f show ?thesis by blast
qed

lemma carStatus_example_onMessage:
  "onMessage tyreExampleState carStatusDatagram = handleCarStatusPacket tyreExampleState carStatusDatagram"
  by (simp add: onMessage_def carStatusDatagram_header carStatusDatagramHeader_def packet_ids)

lemma playerLapUpdate_records:
  "Map_get (tyreByLapStart (playerLapUpdate s pci lap)) (LapData.currentLapNum lap) =
     (if (case PlayerState.currentLapNum (playerState s) of
            None \<Rightarrow> False | Some p \<Rightarrow> LapData.currentLapNum lap < p)
         \<or> \<not> Map_has (tyreByLapStart s) (LapData.currentLapNum lap)
      then Some (currentTyres s)
      else Map_get (tyreByLapStart s) (LapData.currentLapNum lap))"
  by (auto simp: playerLapUpdate_tyres rewindBlock_tyres split: option.splits)

lemma keepsKnownFields_known:
  "keepsKnownFields (exampleTyres a1 a2 a3) t' \<Longrightarrow> t' = exampleTyres a1 a2 a3"
  by (simp add: keepsKnownFields_def exampleTyres_def)

section \<open>The leaderboard and the live delta on the examples\<close>

lemma leaderboard_after_lapData:
  assumes "handleLapDataPacket s buf = Some s'" and "parseHeader buf = Some (Some header)"
  shows "onLeaderboard s' i \<longleftrightarrow>
           (\<exists>lap. (i, lap) \<in> set (lapDataByIndex s') \<and> hasKnownName s' i
              \<and> (i = Header.playerCarIndex header
                   \<or> (belowActiveCount s' i \<and> resultStatus lap \<noteq> 0)))"
proof -
  let ?pci = "Header.playerCarIndex header"
  from assms obtain s3 where
    s': "s' = updateRaceCars s3 ?pci \<or> (\<exists>lap. s' = playerLapUpdate (updateRaceCars s3 ?pci) ?pci lap)"
    by (rule handleLapDataPacket_shape)
  let ?u = "updateRaceCars s3 ?pci"
  have same: "onLeaderboard s' = onLeaderboard ?u" "lapDataByIndex s' = lapDataByIndex s3"
    "hasKnownName s' = hasKnownName s3" "belowActiveCount s' = belowActiveCount s3"
    using s'
    by (auto simp: onLeaderboard_def fun_eq_iff playerLapUpdate_frame updateRaceCars_frame
        updateRaceCars_frame2 hasKnownName_def belowActiveCount_def)
  show ?thesis
    unfolding same by (rule onLeaderboard_updateRaceCars)
qed

lemma parseHeader_headerOnlyLapDatagram:
  "parseHeader headerOnlyLapDatagram = Some (Some lapDatagramHeader)"
  by (simp add: parseHeader_def headerOnlyLapDatagram_def lapDatagramHeader_def reads sizes)

lemma namedPlayer_after:
  assumes "handleLapDataPacket namedPlayerState headerOnlyLapDatagram = Some s'"
  shows "lapDataByIndex s' = []" and "participantsNameByIndex s' = [(0, [0x41])]"
proof -
  have r: "resetIfNewSession namedPlayerState lapDatagramHeader = namedPlayerState"
    by (simp add: resetIfNewSession_def namedPlayerState_def lapDatagramHeader_def)
  from handleLapDataPacket_frame[OF assms parseHeader_headerOnlyLapDatagram] obtain s3 where
    loop: "forEachM [0..<NUM_CARS] (lapDataStep headerOnlyLapDatagram)
             (namedPlayerState\<lparr>lapsState := (lapsState namedPlayerState)
                \<lparr>isConnected := True, LapsState.playerCarIndex := Some 0\<rparr>\<rparr>) = Some s3"
    and f: "lapDataByIndex s' = lapDataByIndex s3"
      "participantsNameByIndex s' = participantsNameByIndex namedPlayerState"
    unfolding r by (auto simp: lapDatagramHeader_def)
  have short: "\<forall>i \<in> set [0..<NUM_CARS]. length headerOnlyLapDatagram < HEADER_SIZE + i * LAP_DATA_SIZE + 57"
    by (auto simp: headerOnlyLapDatagram_def sizes)
  from loop have s3: "s3 = namedPlayerState\<lparr>lapsState := (lapsState namedPlayerState)
                \<lparr>isConnected := True, LapsState.playerCarIndex := Some 0\<rparr>\<rparr>"
    by (simp add: lapDataLoop_short[OF short])
  show "lapDataByIndex s' = []"
    unfolding f s3 by (simp add: namedPlayerState_def initialState_def)
  show "participantsNameByIndex s' = [(0, [0x41])]"
    unfolding f by (simp add: namedPlayerState_def)
qed

lemma override_lapsState [simp]:
  "lapsState (foldl overrideLapFromHistory s byLap) = lapsState s"
  by (induction byLap arbitrary: s) (auto simp: overrideLapFromHistory_def split: option.splits)

lemma applyPlayerHistory_live:
  "liveLapTimeMs (lapsState (applyPlayerHistory s byLap)) = liveLapTimeMs (lapsState s)"
  "liveDeltaToBestMs (lapsState (applyPlayerHistory s byLap)) = liveDeltaToBestMs (lapsState s)"
  by (simp_all add: applyPlayerHistory_def recompute_frame recompute_frame2)

lemma parseCarDamageForCar_headerOnly:
  "length buf = 29 \<Longrightarrow> parseCarDamageForCar buf off = Some None"
  by (simp add: parseCarDamageForCar_def sizes)

lemma carDamageLoop_headerOnly:
  "length buf = 29 \<Longrightarrow> forEachM xs (carDamageStep buf) s = Some s"
  by (induction xs) (simp_all add: carDamageStep_def parseCarDamageForCar_headerOnly)

lemma handleCarDamagePacket_headerOnly:
  assumes "length buf = 29" and "parseHeader buf = Some (Some h)" and "resetIfNewSession s h = s"
  shows "\<exists>s'. handleCarDamagePacket s buf = Some s'
     \<and> LapsState.bestLapTimeMs (lapsState s') = LapsState.bestLapTimeMs (lapsState s)
     \<and> liveLapTimeMs (lapsState s') = liveLapTimeMs (lapsState s)
     \<and> liveDeltaToBestMs (lapsState s') = liveDeltaToBestMs (lapsState s)"
  by (simp add: handleCarDamagePacket_def assms(2,3) carDamageLoop_headerOnly[OF assms(1)]
      split: option.splits)

lemma headerOnlyDamageDatagram_header:
  "\<exists>h. parseHeader headerOnlyDamageDatagram = Some (Some h) \<and> packetId h = 10
      \<and> Header.sessionUID h = 0"
  by (simp add: parseHeader_def headerOnlyDamageDatagram_def reads sizes)

lemma historyState_fields:
  "bestsInv historyState"
  "playerState historyState = (playerState initialState)\<lparr>PlayerState.sessionUID := Some 0\<rparr>"
  "LapsState.bestLapTimeMs (lapsState historyState) = Some 90000"
  by (simp_all add: historyState_def recompute_frame recompute_bestLapTimeMs bestOf_def
      exampleLap_def Map_values_def nullOrLess_def betterSector_def)

lemma deltaState_fields:
  "lapsByNumber deltaState = lapsByNumber historyState"
  "LapsState.bestLapTimeMs (lapsState deltaState) = Some 90000"
  "liveLapTimeMs (lapsState deltaState) = 45000"
  "liveDeltaToBestMs (lapsState deltaState) = Some 45000"
  "PlayerState.sessionUID (playerState deltaState) = Some 0"
proof -
  have q: "PlayerState.currentLapNum (playerState historyState) = None"
    "\<not> pitLaneActive (playerState historyState)"
    "pitLaneTimerActive (exampleLapData 3 45000) \<noteq> 1"
    by (simp_all add: historyState_fields initialState_def exampleLapData_def)
  note fl = first_lap_quiet[OF historyState_fields(1) q, of 0]
  have cur: "currentLapTimeInMS (exampleLapData 3 45000) = 45000" by (simp add: exampleLapData_def)
  show "lapsByNumber deltaState = lapsByNumber historyState"
    unfolding deltaState_def by (rule fl(1))
  show b: "LapsState.bestLapTimeMs (lapsState deltaState) = Some 90000"
    unfolding deltaState_def by (simp add: fl(2) historyState_fields)
  show l: "liveLapTimeMs (lapsState deltaState) = 45000"
    unfolding deltaState_def by (simp add: playerLapUpdate_liveLapTimeMs cur)
  show "liveDeltaToBestMs (lapsState deltaState) = Some 45000"
    using playerLapUpdate_liveDelta[of historyState 0 "exampleLapData 3 45000"]
    by (simp add: deltaState_def[symmetric] b l)
  show "PlayerState.sessionUID (playerState deltaState) = Some 0"
    unfolding deltaState_def by (simp add: playerLapUpdate_player historyState_fields)
qed

lemma deltaState_history:
  "\<exists>s2. handleSessionHistoryPacket deltaState historyDatagram = Some s2
     \<and> LapsState.bestLapTimeMs (lapsState s2) = Some 89000
     \<and> liveLapTimeMs (lapsState s2) = 45000
     \<and> liveDeltaToBestMs (lapsState s2) = Some 45000
     \<and> PlayerState.sessionUID (playerState s2) = Some 0"
proof -
  have len: "HEADER_SIZE + 7 + LAP_HISTORY_DATA_SIZE \<le> length historyDatagram"
    by (simp add: sizes historyDatagram_fields(1))
  have car: "readUInt8 historyDatagram HEADER_SIZE = Some (Header.playerCarIndex historyDatagramHeader)"
    by (simp add: historyDatagram_fields historyDatagramHeader_def)
  have r: "resetIfNewSession deltaState historyDatagramHeader = deltaState"
    by (simp add: resetIfNewSession_def deltaState_fields historyDatagramHeader_def)
  let ?s1 = "deltaState\<lparr>sessionHistoryByCarIndex :=
               Map_set (sessionHistoryByCarIndex deltaState)
                 (Header.playerCarIndex historyDatagramHeader)
                 [(1, historyLap None None None None 0),
                  (2, historyLap (Some 89000) (Some 29000) (Some 30000) (Some 30000) 15)]\<rparr>"
  let ?byLap = "[(1, historyLap None None None None 0),
                  (2, historyLap (Some 89000) (Some 29000) (Some 30000) (Some 30000) 15)]"
  from handleSessionHistoryPacket_player[OF historyDatagram_header car historyDatagram_fields(3) len,
      of deltaState]
  have h: "handleSessionHistoryPacket deltaState historyDatagram = Some (applyPlayerHistory ?s1 ?byLap)"
    unfolding historyDatagram_byLap r by simp
  have best: "LapsState.bestLapTimeMs (lapsState (applyPlayerHistory ?s1 ?byLap)) = Some 89000"
    by (simp add: applyPlayerHistory_def recompute_bestLapTimeMs overrideLapFromHistory_def
        deltaState_fields(1) historyState_ledger Map_get_def historyLap_def bestOf_def
        exampleLap_def Map_values_def nullOrLess_def betterSector_def)
  have uid: "PlayerState.sessionUID (playerState (applyPlayerHistory ?s1 ?byLap)) = Some 0"
  proof -
    have "tyreCore (applyPlayerHistory ?s1 ?byLap) = tyreCore deltaState"
      by (simp only: applyPlayerHistory_def tyreCore_recompute tyreCore_override tyreCore_upd)
    from tyreCore_fields(2)[OF this] show ?thesis by (simp add: deltaState_fields)
  qed
  show ?thesis
    using h best uid by (simp add: applyPlayerHistory_live deltaState_fields)
qed

lemma onMessage_history_example:
  "onMessage s historyDatagram = handleSessionHistoryPacket s historyDatagram"
  by (simp add: onMessage_def historyDatagram_header historyDatagramHeader_def packet_ids)

lemma onMessage_damage_example:
  "onMessage s headerOnlyDamageDatagram = handleCarDamagePacket s headerOnlyDamageDatagram"
  using headerOnlyDamageDatagram_header by (auto simp: onMessage_def packet_ids)

text \<open>A lap-data packet with lap data of the player ends with the player's update.\<close>

lemma handleLapDataPacket_player:
  assumes inv: "bestsInv s"
    and h: "handleLapDataPacket s buf = Some s'"
    and p: "parseHeader buf = Some (Some header)"
    and n: "Header.playerCarIndex header < NUM_CARS"
    and l: "Map_get (lapDataByIndex s') (Header.playerCarIndex header) = Some plap"
  shows "\<exists>s4. bestsInv s4 \<and> s' = playerLapUpdate s4 (Header.playerCarIndex header) plap"
proof -
  let ?pci = "Header.playerCarIndex header"
  let ?s1 = "resetIfNewSession s header"
  let ?s2 = "?s1\<lparr>lapsState := (lapsState ?s1)
                 \<lparr>isConnected := True, LapsState.playerCarIndex := Some ?pci\<rparr>\<rparr>"
  from h p obtain s3 where loop: "forEachM [0..<NUM_CARS] (lapDataStep buf) ?s2 = Some s3"
    and s': "s' = (case Map_get (lapDataByIndex (updateRaceCars s3 ?pci)) ?pci of
                     None \<Rightarrow> updateRaceCars s3 ?pci
                   | Some lap \<Rightarrow> playerLapUpdate (updateRaceCars s3 ?pci) ?pci lap)"
    using n by (auto simp: handleLapDataPacket_def Let_def split: bind_splits)
  have i2: "bestsInv ?s2"
    using resetIfNewSession_inv[OF inv, of header] by (simp add: bestsInv_lapsState_upd)
  have i4: "bestsInv (updateRaceCars s3 ?pci)"
    by (rule updateRaceCars_inv[OF lapDataLoop_inv[OF loop i2]])
  have same: "lapDataByIndex s' = lapDataByIndex (updateRaceCars s3 ?pci)"
    unfolding s' by (simp add: playerLapUpdate_frame split: option.splits)
  from l have "Map_get (lapDataByIndex (updateRaceCars s3 ?pci)) ?pci = Some plap"
    unfolding same .
  then have "s' = playerLapUpdate (updateRaceCars s3 ?pci) ?pci plap"
    unfolding s' by simp
  with i4 show ?thesis by blast
qed

section \<open>A packet of a new session\<close>

text \<open>What a handler leaves of the state that it finds after the reset.\<close>

lemma handleSessionPacket_rest:
  assumes "handleSessionPacket s buf = Some s'" and "parseHeader buf = Some (Some h)"
  shows "s'\<lparr>lapsState := ls\<rparr> = (resetIfNewSession s h)\<lparr>lapsState := ls\<rparr>"
    and "laps (lapsState s') = laps (lapsState (resetIfNewSession s h))"
    and "LapsState.bestLapTimeMs (lapsState s') = LapsState.bestLapTimeMs (lapsState (resetIfNewSession s h))"
    and "raceCars (lapsState s') = raceCars (lapsState (resetIfNewSession s h))"
  using assms
  by (auto simp: handleSessionPacket_def Let_def split: if_splits bind_splits)

lemma participantLoop_rest:
  "forEachM xs (participantStep buf base) x = Some x' \<Longrightarrow>
   x'\<lparr>participantsNameByIndex := [], participantsTeamIdByIndex := [],
       participantsColorByIndex := []\<rparr>
   = x\<lparr>participantsNameByIndex := [], participantsTeamIdByIndex := [],
       participantsColorByIndex := []\<rparr>"
proof -
  assume a: "forEachM xs (participantStep buf base) x = Some x'"
  show ?thesis
    by (rule forEachM_inv[OF a, where P = "\<lambda>y. y\<lparr>participantsNameByIndex := [], participantsTeamIdByIndex := [],
       participantsColorByIndex := []\<rparr>
   = x\<lparr>participantsNameByIndex := [], participantsTeamIdByIndex := [],
       participantsColorByIndex := []\<rparr>"])
       (auto simp: participantStep_def Let_def split: if_splits bind_splits)
qed

lemma handleParticipantsPacket_rest:
  assumes "handleParticipantsPacket s buf = Some s'" and "parseHeader buf = Some (Some h)"
  shows "s'\<lparr>participantsNameByIndex := [], participantsTeamIdByIndex := [],
       participantsColorByIndex := [], numActiveCars := None\<rparr>
   = (resetIfNewSession s h)\<lparr>participantsNameByIndex := [], participantsTeamIdByIndex := [],
       participantsColorByIndex := [], numActiveCars := None\<rparr>"
proof -
  let ?s1 = "resetIfNewSession s h"
  from assms obtain n where
    c: "s' = ?s1\<lparr>numActiveCars := Some n\<rparr>
        \<or> forEachM [0..<NUM_CARS] (participantStep buf (HEADER_SIZE + 1)) (?s1\<lparr>numActiveCars := Some n\<rparr>) = Some s'"
    by (auto simp: handleParticipantsPacket_def Let_def split: if_splits bind_splits)
  then show ?thesis
  proof
    assume "s' = ?s1\<lparr>numActiveCars := Some n\<rparr>"
    then show ?thesis by simp
  next
    assume "forEachM [0..<NUM_CARS] (participantStep buf (HEADER_SIZE + 1)) (?s1\<lparr>numActiveCars := Some n\<rparr>) = Some s'"
    from participantLoop_rest[OF this]
    have "(s'\<lparr>participantsNameByIndex := [], participantsTeamIdByIndex := [],
       participantsColorByIndex := []\<rparr>)\<lparr>numActiveCars := None\<rparr>
      = (?s1\<lparr>numActiveCars := Some n\<rparr>\<lparr>participantsNameByIndex := [], participantsTeamIdByIndex := [],
       participantsColorByIndex := []\<rparr>)\<lparr>numActiveCars := None\<rparr>"
      by (rule arg_cong)
    then show ?thesis by simp
  qed
qed

lemma parseParticipantMeta_total:
  "off + 48 \<le> length buf \<Longrightarrow> \<exists>m. parseParticipantMeta buf off = Some m"
  by (simp add: parseParticipantMeta_def reads)

lemma participantLoop_total:
  assumes "\<forall>i \<in> set xs. base + i * PARTICIPANT_DATA_SIZE + 48 \<le> length buf"
  shows "\<exists>x'. forEachM xs (participantStep buf base) x = Some x'"
  using assms
proof (induction xs arbitrary: x)
  case Nil then show ?case by simp
next
  case (Cons i xs)
  from Cons.prems obtain m where "parseParticipantMeta buf (base + i * PARTICIPANT_DATA_SIZE) = Some m"
    using parseParticipantMeta_total[of "base + i * PARTICIPANT_DATA_SIZE" buf] by auto
  then have "\<exists>x1. participantStep buf base x i = Some x1"
    by (simp add: participantStep_def Let_def)
  then obtain x1 where "participantStep buf base x i = Some x1" by blast
  moreover from Cons.prems have "\<forall>i \<in> set xs. base + i * PARTICIPANT_DATA_SIZE + 48 \<le> length buf"
    by simp
  ultimately show ?case using Cons.IH by simp
qed

lemma handleParticipantsPacket_returns:
  assumes "HEADER_SIZE < length buf"
  shows "\<exists>s'. handleParticipantsPacket s buf = Some s'"
proof -
  have "HEADER_SIZE \<le> length buf" using assms by simp
  then obtain h where h: "parseHeader buf = Some (Some h)"
    using parseHeader_long[of buf] by (auto simp: sizes)
  obtain n where n: "readUInt8 buf HEADER_SIZE = Some n"
    using assms by (simp add: reads)
  show ?thesis
  proof (cases "length buf < HEADER_SIZE + 1 + NUM_CARS * PARTICIPANT_DATA_SIZE")
    case True
    then show ?thesis by (simp add: handleParticipantsPacket_def h n Let_def)
  next
    case False
    then have "\<forall>i \<in> set [0..<NUM_CARS]. HEADER_SIZE + 1 + i * PARTICIPANT_DATA_SIZE + 48 \<le> length buf"
      by (auto simp: sizes)
    from participantLoop_total[OF this] False show ?thesis
      by (simp add: handleParticipantsPacket_def h n Let_def)
  qed
qed

lemma carTelemetryLoop_rest:
  "forEachM xs (carTelemetryStep buf) x = Some x' \<Longrightarrow>
   x'\<lparr>carTelemetryByIndex := []\<rparr> = x\<lparr>carTelemetryByIndex := []\<rparr>"
proof -
  assume a: "forEachM xs (carTelemetryStep buf) x = Some x'"
  show ?thesis
    by (rule forEachM_inv[OF a, where P = "\<lambda>y. y\<lparr>carTelemetryByIndex := []\<rparr> = x\<lparr>carTelemetryByIndex := []\<rparr>"])
       (auto simp: carTelemetryStep_def split: option.splits bind_splits)
qed

lemma handleCarTelemetryPacket_rest:
  assumes "handleCarTelemetryPacket s buf = Some s'" and "parseHeader buf = Some (Some h)"
  shows "s'\<lparr>carTelemetryByIndex := [], lapsState := (lapsState s')\<lparr>currentCarTelemetry := None\<rparr>\<rparr>
   = (resetIfNewSession s h)\<lparr>carTelemetryByIndex := [],
        lapsState := (lapsState (resetIfNewSession s h))\<lparr>currentCarTelemetry := None\<rparr>\<rparr>"
proof -
  let ?s1 = "resetIfNewSession s h"
  from assms obtain s2 where
    loop: "forEachM [0..<NUM_CARS] (carTelemetryStep buf) ?s1 = Some s2"
    and c: "s' = s2 \<or> (\<exists>t. s' = s2\<lparr>lapsState := (lapsState s2)\<lparr>currentCarTelemetry := Some t\<rparr>\<rparr>)"
    by (auto simp: handleCarTelemetryPacket_def Let_def split: if_splits bind_splits option.splits)
  note r = carTelemetryLoop_rest[OF loop]
  have l2: "lapsState s2 = lapsState ?s1"
    using arg_cong[OF r, of lapsState] by simp
  from c have "s'\<lparr>carTelemetryByIndex := [], lapsState := (lapsState s')\<lparr>currentCarTelemetry := None\<rparr>\<rparr>
      = s2\<lparr>carTelemetryByIndex := [], lapsState := (lapsState s2)\<lparr>currentCarTelemetry := None\<rparr>\<rparr>"
    by auto
  also have "\<dots> = (s2\<lparr>carTelemetryByIndex := []\<rparr>)\<lparr>lapsState := (lapsState ?s1)\<lparr>currentCarTelemetry := None\<rparr>\<rparr>"
    by (simp add: l2)
  also have "\<dots> = ?s1\<lparr>carTelemetryByIndex := [], lapsState := (lapsState ?s1)\<lparr>currentCarTelemetry := None\<rparr>\<rparr>"
    unfolding r by simp
  finally show ?thesis .
qed

lemma carDamageLoop_rest:
  "forEachM xs (carDamageStep buf) x = Some x' \<Longrightarrow>
   x'\<lparr>carDamageByIndex := []\<rparr> = x\<lparr>carDamageByIndex := []\<rparr>"
proof -
  assume a: "forEachM xs (carDamageStep buf) x = Some x'"
  show ?thesis
    by (rule forEachM_inv[OF a, where P = "\<lambda>y. y\<lparr>carDamageByIndex := []\<rparr> = x\<lparr>carDamageByIndex := []\<rparr>"])
       (auto simp: carDamageStep_def split: option.splits bind_splits)
qed

lemma handleCarDamagePacket_rest:
  assumes "handleCarDamagePacket s buf = Some s'" and "parseHeader buf = Some (Some h)"
  shows "s'\<lparr>carDamageByIndex := [], lapsState := (lapsState s')\<lparr>currentCarDamage := None\<rparr>\<rparr>
   = (resetIfNewSession s h)\<lparr>carDamageByIndex := [],
        lapsState := (lapsState (resetIfNewSession s h))\<lparr>currentCarDamage := None\<rparr>\<rparr>"
proof -
  let ?s1 = "resetIfNewSession s h"
  from assms obtain s2 where
    loop: "forEachM [0..<NUM_CARS] (carDamageStep buf) ?s1 = Some s2"
    and c: "s' = s2 \<or> (\<exists>t. s' = s2\<lparr>lapsState := (lapsState s2)\<lparr>currentCarDamage := Some t\<rparr>\<rparr>)"
    by (auto simp: handleCarDamagePacket_def Let_def split: if_splits bind_splits option.splits)
  note r = carDamageLoop_rest[OF loop]
  have l2: "lapsState s2 = lapsState ?s1"
    using arg_cong[OF r, of lapsState] by simp
  from c have "s'\<lparr>carDamageByIndex := [], lapsState := (lapsState s')\<lparr>currentCarDamage := None\<rparr>\<rparr>
      = s2\<lparr>carDamageByIndex := [], lapsState := (lapsState s2)\<lparr>currentCarDamage := None\<rparr>\<rparr>"
    by auto
  also have "\<dots> = (s2\<lparr>carDamageByIndex := []\<rparr>)\<lparr>lapsState := (lapsState ?s1)\<lparr>currentCarDamage := None\<rparr>\<rparr>"
    by (simp add: l2)
  also have "\<dots> = ?s1\<lparr>carDamageByIndex := [], lapsState := (lapsState ?s1)\<lparr>currentCarDamage := None\<rparr>\<rparr>"
    unfolding r by simp
  finally show ?thesis .
qed

lemma parseCarDamageForCar_full:
  assumes "HEADER_SIZE + NUM_CARS * CAR_DAMAGE_DATA_SIZE \<le> length buf"
    and "off + CAR_DAMAGE_DATA_SIZE \<le> length buf"
  shows "\<exists>d. parseCarDamageForCar buf off = Some d"
proof -
  have "(1012::int) \<le> int (length buf) - 29"
    using assms(1) by (simp add: sizes)
  then have "(1012::int) div 22 \<le> (int (length buf) - 29) div 22"
    by (intro zdiv_mono1) simp_all
  then have "int CAR_DAMAGE_DATA_SIZE \<le> (int (length buf) - int HEADER_SIZE) div int NUM_CARS"
    by (simp add: sizes)
  then have m: "min (int CAR_DAMAGE_DATA_SIZE) ((int (length buf) - int HEADER_SIZE) div int NUM_CARS)
      = int CAR_DAMAGE_DATA_SIZE" by simp
  show ?thesis
    using assms(2) unfolding parseCarDamageForCar_def Let_def m
    by (simp add: sizes reads read4FloatLE_def read4UInt8_def)
qed

lemma carDamageLoop_total:
  assumes "HEADER_SIZE + NUM_CARS * CAR_DAMAGE_DATA_SIZE \<le> length buf"
    and "\<forall>i \<in> set xs. i < NUM_CARS"
  shows "\<exists>x'. forEachM xs (carDamageStep buf) x = Some x'"
  using assms(2)
proof (induction xs arbitrary: x)
  case Nil then show ?case by simp
next
  case (Cons i xs)
  have "i < NUM_CARS" using Cons.prems by simp
  then have "HEADER_SIZE + i * CAR_DAMAGE_DATA_SIZE + CAR_DAMAGE_DATA_SIZE \<le> length buf"
    using assms(1) by (simp add: sizes)
  from parseCarDamageForCar_full[OF assms(1) this] obtain x1 where "carDamageStep buf x i = Some x1"
    by (auto simp: carDamageStep_def)
  moreover from Cons.prems have "\<forall>i \<in> set xs. i < NUM_CARS" by simp
  ultimately show ?case using Cons.IH by simp
qed

lemma handleCarDamagePacket_returns:
  assumes "HEADER_SIZE + NUM_CARS * CAR_DAMAGE_DATA_SIZE \<le> length buf"
  shows "\<exists>s'. handleCarDamagePacket s buf = Some s'"
proof -
  have "29 \<le> length buf" using assms by (simp add: sizes)
  then obtain h where h: "parseHeader buf = Some (Some h)"
    using parseHeader_long[of buf] by auto
  have "\<forall>i \<in> set [0..<NUM_CARS]. i < NUM_CARS" by simp
  from carDamageLoop_total[OF assms this, of "resetIfNewSession s h"] show ?thesis
    by (auto simp: handleCarDamagePacket_def h Let_def)
qed

lemma carStatusLoop_rest:
  "forEachM xs (carStatusStep buf) x = Some x' \<Longrightarrow>
   x'\<lparr>carStatusByIndex := []\<rparr> = x\<lparr>carStatusByIndex := []\<rparr>"
proof -
  assume a: "forEachM xs (carStatusStep buf) x = Some x'"
  show ?thesis
    by (rule forEachM_inv[OF a, where P = "\<lambda>y. y\<lparr>carStatusByIndex := []\<rparr> = x\<lparr>carStatusByIndex := []\<rparr>"])
       (auto simp: carStatusStep_def split: option.splits bind_splits)
qed

lemma staticRest_recompute: "staticRest (recomputeFromLaps s) = staticRest s"
  by (simp add: staticRest_def recompute_frame recompute_frame2)

lemma staticRest_blocks:
  "staticRest (penaltiesBlock s lap) = staticRest s"
  "staticRest (rewindBlock s lap) = staticRest s"
  "staticRest (tyreAtLapStartBlock s lap) = staticRest s"
  "staticRest (pitLaneBlock s lap) = staticRest s"
  "staticRest (liveTimesBlock s lap) = staticRest s"
  "staticRest (liveBestSectorsBlock s lap) = staticRest s"
  "staticRest (currentLapBlock s lap) = staticRest s"
  "staticRest (finalizeLapBlock s pci lap) = staticRest s"
  "staticRest (liveDeltaBlock s lap) = staticRest s"
  by (simp_all add: staticRest_def block_defs Let_def recompute_frame recompute_frame2
      split: option.splits)

lemma staticRest_playerLapUpdate: "staticRest (playerLapUpdate s pci lap) = staticRest s"
  by (simp add: playerLapUpdate_def Let_def staticRest_blocks)

lemma staticRest_upd [simp]:
  "staticRest (s\<lparr>lapsState := a0\<rparr>) = staticRest s"
  "staticRest (s\<lparr>playerState := a1\<rparr>) = staticRest s"
  "staticRest (s\<lparr>lapDataByIndex := a2\<rparr>) = staticRest s"
  "staticRest (s\<lparr>sectorCacheByIndex := a3\<rparr>) = staticRest s"
  "staticRest (s\<lparr>pitLaneStintByIndex := a4\<rparr>) = staticRest s"
  "staticRest (s\<lparr>State.raceBestSector1TimeMs := a5\<rparr>) = staticRest s"
  "staticRest (s\<lparr>State.raceBestSector2TimeMs := a6\<rparr>) = staticRest s"
  "staticRest (s\<lparr>State.raceBestSector3TimeMs := a7\<rparr>) = staticRest s"
  "staticRest (s\<lparr>State.raceBestSector1CarIndex := a8\<rparr>) = staticRest s"
  "staticRest (s\<lparr>State.raceBestSector2CarIndex := a9\<rparr>) = staticRest s"
  "staticRest (s\<lparr>State.raceBestSector3CarIndex := a10\<rparr>) = staticRest s"
  "staticRest (s\<lparr>State.raceBestLapTimeMs := a11\<rparr>) = staticRest s"
  "staticRest (s\<lparr>State.raceBestLapCarIndex := a12\<rparr>) = staticRest s"
  "staticRest (s\<lparr>State.raceBestLapNum := a13\<rparr>) = staticRest s"
  "staticRest (s\<lparr>tyreByLapStart := a14\<rparr>) = staticRest s"
  by (simp_all add: staticRest_def)

lemma staticRest_raceBestFold: "staticRest (fst (foldl raceBestStep acc cs)) = staticRest (fst acc)"
proof (induction cs arbitrary: acc)
  case Nil then show ?case by simp
next
  case (Cons c cs)
  have "staticRest (fst (raceBestStep acc c)) = staticRest (fst acc)"
    by (cases acc) (simp add: raceBestStep_def Let_def split: option.splits)
  with Cons.IH[of "raceBestStep acc c"] show ?case by simp
qed

lemma staticRest_updateRaceCars: "staticRest (updateRaceCars s pci) = staticRest s"
  using staticRest_raceBestFold[of "(s, State.raceBestLapNum s)" "withGaps s (raceCarsRaw s pci)"]
  by (auto simp: updateRaceCars_def Let_def split: prod.splits)

lemma staticRest_lapDataLoop:
  "forEachM xs (lapDataStep buf) x = Some x' \<Longrightarrow> staticRest x' = staticRest x"
proof -
  assume a: "forEachM xs (lapDataStep buf) x = Some x'"
  show ?thesis
    by (rule forEachM_inv[OF a, where P = "\<lambda>y. staticRest y = staticRest x"])
       (auto simp: lapDataStep_def updateCarFromLapData_def Let_def split: option.splits bind_splits)
qed

lemma lapCore_lapDataLoop:
  "forEachM xs (lapDataStep buf) x = Some x' \<Longrightarrow> lapCore x' = lapCore x"
proof -
  assume a: "forEachM xs (lapDataStep buf) x = Some x'"
  show ?thesis
    by (rule forEachM_inv[OF a, where P = "\<lambda>y. lapCore y = lapCore x"])
       (auto simp: lapCore_def lapDataStep_def updateCarFromLapData_def Let_def
          split: option.splits bind_splits)
qed

lemma laps_raceBestFold: "laps (lapsState (fst (foldl raceBestStep acc cs))) = laps (lapsState (fst acc))"
  by (simp add: raceBestFold_frame)

lemma lapCore_updateRaceCars: "lapCore (updateRaceCars s pci) = lapCore s"
  using raceBestFold_frame[of "(s, State.raceBestLapNum s)" "withGaps s (raceCarsRaw s pci)"]
  by (auto simp: lapCore_def updateRaceCars_def Let_def split: prod.splits)

lemma liveBestSectorsBlock_empty:
  assumes "lapsByNumber s = []"
  shows "lapsByNumber (liveBestSectorsBlock s lap) = []"
    and "laps (lapsState s) = [] \<Longrightarrow> laps (lapsState (liveBestSectorsBlock s lap)) = []"
    and "LapsState.bestLapTimeMs (lapsState s) = None \<Longrightarrow>
         LapsState.bestLapTimeMs (lapsState (liveBestSectorsBlock s lap)) = None"
  using assms
  by (simp_all add: liveBestSectorsBlock_def Let_def recomputeFromLaps_def syncLapsArrayFromMap_def
      Map_values_def split: option.splits)

lemma playerLapUpdate_fresh:
  assumes c: "PlayerState.currentLapNum (playerState s) = None"
    and t: "pitTracker s = (False, None, 0, 0)"
    and l: "lapsByNumber s = []"
  shows "lapsByNumber (playerLapUpdate s pci lap) = []"
    and "pitLaneTimeByLap (playerLapUpdate s pci lap) = pitLaneTimeByLap s"
    and "pitLaneStatusByLap (playerLapUpdate s pci lap) = pitLaneStatusByLap s"
    and "laps (lapsState s) = [] \<Longrightarrow> laps (lapsState (playerLapUpdate s pci lap)) = []"
    and "LapsState.bestLapTimeMs (lapsState s) = None \<Longrightarrow>
         LapsState.bestLapTimeMs (lapsState (playerLapUpdate s pci lap)) = None"
proof -
  let ?s1 = "penaltiesBlock s lap"
  let ?s3 = "tyreAtLapStartBlock ?s1 lap"
  let ?s4 = "pitLaneBlock ?s3 lap"
  let ?s5 = "liveTimesBlock ?s4 lap"
  let ?s6 = "liveBestSectorsBlock ?s5 lap"
  let ?s7 = "currentLapBlock ?s6 lap"
  have r: "rewindBlock ?s1 lap = ?s1"
    using c by (simp add: rewindBlock_def currentLapNum_frame)
  have t3: "pitTracker ?s3 = (False, None, 0, 0)"
    using t by (simp add: pitTracker_frame)
  note pb = pitLaneBlock_inactive[OF t3, of lap]
  have c7: "PlayerState.currentLapNum (playerState ?s7) = None"
    using c by (simp add: currentLapNum_frame)
  have f: "finalizeLapBlock ?s7 pci lap = ?s7"
    using c7 by (simp add: finalizeLapBlock_def)
  have eq: "playerLapUpdate s pci lap = liveDeltaBlock ?s7 lap"
    by (simp add: playerLapUpdate_def Let_def r f)
  have l5: "lapsByNumber ?s5 = []"
    using l by (simp add: ledger_frame pb)
  note e = liveBestSectorsBlock_empty[OF l5, of lap]
  show "lapsByNumber (playerLapUpdate s pci lap) = []"
    unfolding eq by (simp add: ledger_frame e)
  show "pitLaneTimeByLap (playerLapUpdate s pci lap) = pitLaneTimeByLap s"
    unfolding eq by (simp add: pitTables_frame pb)
  show "pitLaneStatusByLap (playerLapUpdate s pci lap) = pitLaneStatusByLap s"
    unfolding eq by (simp add: pitTables_frame pb)
  have laps_frame: "laps (lapsState (penaltiesBlock x lap)) = laps (lapsState x)"
    "laps (lapsState (tyreAtLapStartBlock x lap)) = laps (lapsState x)"
    "laps (lapsState (liveTimesBlock x lap)) = laps (lapsState x)"
    "laps (lapsState (currentLapBlock x lap)) = laps (lapsState x)"
    "laps (lapsState (liveDeltaBlock x lap)) = laps (lapsState x)" for x
    by (simp_all add: block_defs Let_def)
  have laps4: "laps (lapsState ?s4) = laps (lapsState ?s3)"
    using t3 by (auto simp: pitLaneBlock_def pitTracker_def Let_def)
  show "laps (lapsState (playerLapUpdate s pci lap)) = []" if "laps (lapsState s) = []"
    unfolding eq using that by (simp add: laps_frame e laps4)
  show "LapsState.bestLapTimeMs (lapsState (playerLapUpdate s pci lap)) = None"
    if "LapsState.bestLapTimeMs (lapsState s) = None"
    unfolding eq using that by (simp add: quiet_blocks e pb)
qed

lemma playerLapUpdate_fresh_tyres:
  assumes "PlayerState.currentLapNum (playerState s) = None" and "tyreByLapStart s = []"
  shows "tyreByLapStart (playerLapUpdate s pci lap) = [(LapData.currentLapNum lap, currentTyres s)]"
proof -
  have r: "rewindBlock (penaltiesBlock s lap) lap = penaltiesBlock s lap"
    using assms(1) by (simp add: rewindBlock_def currentLapNum_frame)
  show ?thesis
    by (simp add: playerLapUpdate_def Let_def r tyre_frame tyreAtLapStartBlock_def assms(2)
        currentTyres_frame Map_has_def)
qed

lemma playerWithoutLapData_blocks:
  "playerWithoutLapData (playerState (penaltiesBlock s lap)) = playerWithoutLapData (playerState s)"
  "playerWithoutLapData (playerState (rewindBlock s lap)) = playerWithoutLapData (playerState s)"
  "playerWithoutLapData (playerState (tyreAtLapStartBlock s lap)) = playerWithoutLapData (playerState s)"
  "playerWithoutLapData (playerState (pitLaneBlock s lap)) = playerWithoutLapData (playerState s)"
  "playerWithoutLapData (playerState (liveTimesBlock s lap)) = playerWithoutLapData (playerState s)"
  "playerWithoutLapData (playerState (liveBestSectorsBlock s lap)) = playerWithoutLapData (playerState s)"
  "playerWithoutLapData (playerState (currentLapBlock s lap)) = playerWithoutLapData (playerState s)"
  "playerWithoutLapData (playerState (finalizeLapBlock s pci lap)) = playerWithoutLapData (playerState s)"
  "playerWithoutLapData (playerState (liveDeltaBlock s lap)) = playerWithoutLapData (playerState s)"
  by (simp_all add: playerWithoutLapData_def block_defs Let_def recompute_frame recompute_frame2
      split: option.splits)

lemma playerWithoutLapData_playerLapUpdate:
  "playerWithoutLapData (playerState (playerLapUpdate s pci lap)) = playerWithoutLapData (playerState s)"
  by (simp add: playerLapUpdate_def Let_def playerWithoutLapData_blocks)

lemma lapsStateWithoutLapData_blocks:
  "lapsStateWithoutLapData (lapsState (penaltiesBlock s lap)) = lapsStateWithoutLapData (lapsState s)"
  "lapsStateWithoutLapData (lapsState (tyreAtLapStartBlock s lap)) = lapsStateWithoutLapData (lapsState s)"
  "lapsStateWithoutLapData (lapsState (liveTimesBlock s lap)) = lapsStateWithoutLapData (lapsState s)"
  "lapsStateWithoutLapData (lapsState (currentLapBlock s lap)) = lapsStateWithoutLapData (lapsState s)"
  "lapsStateWithoutLapData (lapsState (liveDeltaBlock s lap)) = lapsStateWithoutLapData (lapsState s)"
  by (simp_all add: lapsStateWithoutLapData_def block_defs Let_def)

lemma lapsStateWithoutLapData_pitLaneBlock:
  "pitTracker s = (False, None, 0, 0) \<Longrightarrow>
   lapsStateWithoutLapData (lapsState (pitLaneBlock s lap)) = lapsStateWithoutLapData (lapsState s)"
  by (auto simp: pitLaneBlock_def pitTracker_def Let_def)

lemma fresh_fields:
  assumes "lapsStateWithoutLapData ls = freshLapsState"
  shows "laps ls = []" "LapsState.bestLapTimeMs ls = None" "bestLapNumber ls = None"
    "bestSector3TimeMs ls = None"
  using arg_cong[OF assms, of laps] arg_cong[OF assms, of LapsState.bestLapTimeMs]
    arg_cong[OF assms, of bestLapNumber] arg_cong[OF assms, of bestSector3TimeMs]
  by (simp_all add: lapsStateWithoutLapData_def freshLapsState_def)

lemma lapsStateWithoutLapData_recompute:
  assumes "lapsByNumber s = []" and "lapsStateWithoutLapData (lapsState s) = freshLapsState"
  shows "lapsStateWithoutLapData (lapsState (recomputeFromLaps s)) = freshLapsState"
proof -
  note f = fresh_fields[OF assms(2)]
  have "lapsState (recomputeFromLaps s)
      = (lapsState s)\<lparr>LapsState.bestLapTimeMs := None, bestLapNumber := None,
           bestSector1TimeMs := None, bestSector2TimeMs := None, bestSector3TimeMs := None,
           laps := []\<rparr>"
    by (simp add: recomputeFromLaps_def syncLapsArrayFromMap_def Map_values_def assms(1))
  then have "lapsStateWithoutLapData (lapsState (recomputeFromLaps s))
      = (lapsStateWithoutLapData (lapsState s))\<lparr>LapsState.bestLapTimeMs := None, bestLapNumber := None,
           bestSector3TimeMs := None, laps := []\<rparr>"
    by (simp add: lapsStateWithoutLapData_def)
  also have "\<dots> = freshLapsState"
    unfolding assms(2) by (simp add: freshLapsState_def)
  finally show ?thesis .
qed

lemma lapsStateWithoutLapData_liveBestSectorsBlock:
  assumes "lapsByNumber s = []" and "lapsStateWithoutLapData (lapsState s) = freshLapsState"
  shows "lapsStateWithoutLapData (lapsState (liveBestSectorsBlock s lap)) = freshLapsState"
proof (cases "if isRaceSession s then True else LapData.currentLapInvalid lap = 0")
  case True
  then have "lapsStateWithoutLapData (lapsState (liveBestSectorsBlock s lap))
      = lapsStateWithoutLapData (lapsState s)"
    by (simp add: liveBestSectorsBlock_def Let_def lapsStateWithoutLapData_def split: option.splits)
  then show ?thesis by (simp add: assms(2))
next
  case False
  then have "liveBestSectorsBlock s lap = recomputeFromLaps s"
    by (simp add: liveBestSectorsBlock_def Let_def)
  then show ?thesis by (simp add: lapsStateWithoutLapData_recompute[OF assms])
qed

lemma playerLapUpdate_fresh_lapsState:
  assumes c: "PlayerState.currentLapNum (playerState s) = None"
    and t: "pitTracker s = (False, None, 0, 0)"
    and l: "lapsByNumber s = []"
    and q: "lapsStateWithoutLapData (lapsState s) = freshLapsState"
  shows "lapsStateWithoutLapData (lapsState (playerLapUpdate s pci lap)) = freshLapsState"
proof -
  let ?s1 = "penaltiesBlock s lap"
  let ?s3 = "tyreAtLapStartBlock ?s1 lap"
  let ?s4 = "pitLaneBlock ?s3 lap"
  let ?s5 = "liveTimesBlock ?s4 lap"
  let ?s6 = "liveBestSectorsBlock ?s5 lap"
  let ?s7 = "currentLapBlock ?s6 lap"
  have r: "rewindBlock ?s1 lap = ?s1"
    using c by (simp add: rewindBlock_def currentLapNum_frame)
  have t3: "pitTracker ?s3 = (False, None, 0, 0)"
    using t by (simp add: pitTracker_frame)
  note pb = pitLaneBlock_inactive[OF t3, of lap]
  have c7: "PlayerState.currentLapNum (playerState ?s7) = None"
    using c by (simp add: currentLapNum_frame)
  have f: "finalizeLapBlock ?s7 pci lap = ?s7"
    using c7 by (simp add: finalizeLapBlock_def)
  have eq: "playerLapUpdate s pci lap = liveDeltaBlock ?s7 lap"
    by (simp add: playerLapUpdate_def Let_def r f)
  have l5: "lapsByNumber ?s5 = []"
    using l by (simp add: ledger_frame pb)
  have q5: "lapsStateWithoutLapData (lapsState ?s5) = freshLapsState"
    using q by (simp add: lapsStateWithoutLapData_blocks lapsStateWithoutLapData_pitLaneBlock[OF t3])
  note q6 = lapsStateWithoutLapData_liveBestSectorsBlock[OF l5 q5, of lap]
  show ?thesis
    unfolding eq by (simp add: lapsStateWithoutLapData_blocks q6)
qed

lemma lapsState_lapDataLoop:
  "forEachM xs (lapDataStep buf) x = Some x' \<Longrightarrow> lapsState x' = lapsState x"
proof -
  assume a: "forEachM xs (lapDataStep buf) x = Some x'"
  show ?thesis
    by (rule forEachM_inv[OF a, where P = "\<lambda>y. lapsState y = lapsState x"])
       (auto simp: lapDataStep_def updateCarFromLapData_def Let_def split: option.splits bind_splits)
qed

lemma lapsStateWithoutLapData_updateRaceCars:
  "lapsStateWithoutLapData (lapsState (updateRaceCars s pci)) = lapsStateWithoutLapData (lapsState s)"
  using raceBestFold_frame(2)[of "(s, State.raceBestLapNum s)" "withGaps s (raceCarsRaw s pci)"]
  by (auto simp: lapsStateWithoutLapData_def updateRaceCars_def Let_def split: prod.splits)

text \<open>A lap-data packet of a new session.\<close>

lemma handleLapDataPacket_cleared:
  assumes h: "parseHeader buf = Some (Some header)"
    and n: "PlayerState.sessionUID (playerState s) \<noteq> Some (Header.sessionUID header)"
  shows "\<exists>s'. handleLapDataPacket s buf = Some s' \<and> sessionStateCleared (withoutLapData s')
           \<and> (tyreByLapStart s' = []
               \<or> (\<exists>k. tyreByLapStart s' =
                     [(k, \<lparr>TyreSnapshot.tyreActualCompound = None, tyreVisualCompound = None,
                           tyresAgeLaps = None\<rparr>)]))"
proof -
  let ?s1 = "resetSessionState s (Header.sessionUID header)"
  let ?s2 = "?s1\<lparr>lapsState := (lapsState ?s1)
                 \<lparr>isConnected := True,
                  LapsState.playerCarIndex := Some (Header.playerCarIndex header)\<rparr>\<rparr>"
  have r: "resetIfNewSession s header = ?s1"
    using n by (simp add: resetIfNewSession_def)
  obtain s3 where loop: "forEachM [0..<NUM_CARS] (lapDataStep buf) ?s2 = Some s3"
    using forEachM_total[of "lapDataStep buf" "[0..<NUM_CARS]" ?s2] lapDataStep_total by blast
  let ?s4 = "updateRaceCars s3 (Header.playerCarIndex header)"
  define s' where "s' = (if Header.playerCarIndex header \<ge> NUM_CARS then ?s4
                   else (case Map_get (lapDataByIndex ?s4) (Header.playerCarIndex header) of
                           None \<Rightarrow> ?s4
                         | Some lap \<Rightarrow> playerLapUpdate ?s4 (Header.playerCarIndex header) lap))"
  have res: "handleLapDataPacket s buf = Some s'"
    by (simp add: handleLapDataPacket_def h r Let_def loop s'_def)
  have st4: "staticRest ?s4 = staticRest ?s1"
  proof -
    have "staticRest ?s4 = staticRest s3" by (rule staticRest_updateRaceCars)
    also have "\<dots> = staticRest ?s2" by (rule staticRest_lapDataLoop[OF loop])
    also have "\<dots> = staticRest ?s1" by simp
    finally show ?thesis .
  qed
  have core4: "lapCore ?s4 = lapCore ?s1"
  proof -
    have "lapCore ?s4 = lapCore s3" by (rule lapCore_updateRaceCars)
    also have "\<dots> = lapCore ?s2" by (rule lapCore_lapDataLoop[OF loop])
    also have "\<dots> = lapCore ?s1" by (simp add: lapCore_def)
    finally show ?thesis .
  qed
  have q4: "lapsStateWithoutLapData (lapsState ?s4) = freshLapsState"
  proof -
    have "lapsStateWithoutLapData (lapsState ?s4) = lapsStateWithoutLapData (lapsState s3)"
      by (rule lapsStateWithoutLapData_updateRaceCars)
    also have "\<dots> = lapsStateWithoutLapData (lapsState ?s2)"
      unfolding lapsState_lapDataLoop[OF loop] by (rule refl)
    also have "\<dots> = freshLapsState"
      by (simp add: lapsStateWithoutLapData_def resetSessionState_def freshLapsState_def)
    finally show ?thesis .
  qed
  have ps4: "playerState ?s4 = playerState ?s1"
    using core4 by (simp add: lapCore_def)
  have l4: "lapsByNumber ?s4 = []" "pitLaneTimeByLap ?s4 = []" "pitLaneStatusByLap ?s4 = []"
    "tyreByLapStart ?s4 = []"
    using core4 by (simp_all add: lapCore_def resetSessionState_def)
  have c4: "PlayerState.currentLapNum (playerState ?s4) = None"
    unfolding ps4 by (simp add: resetSessionState_def)
  have t4: "pitTracker ?s4 = (False, None, 0, 0)"
    unfolding pitTracker_def ps4 by (simp add: resetSessionState_def)
  have ty4: "currentTyres ?s4 = \<lparr>TyreSnapshot.tyreActualCompound = None, tyreVisualCompound = None,
                           tyresAgeLaps = None\<rparr>"
    unfolding currentTyres_def ps4 by (simp add: resetSessionState_def)
  have pw1: "playerWithoutLapData (playerState ?s1) = playerState ?s1"
    by (simp add: playerWithoutLapData_def resetSessionState_def)
  have d: "s' = ?s4 \<or> (\<exists>lap. s' = playerLapUpdate ?s4 (Header.playerCarIndex header) lap)"
    unfolding s'_def by (simp split: option.splits) blast
  have main: "staticRest s' = staticRest ?s1 \<and> lapsByNumber s' = []
      \<and> pitLaneTimeByLap s' = [] \<and> pitLaneStatusByLap s' = []
      \<and> lapsStateWithoutLapData (lapsState s') = freshLapsState
      \<and> playerWithoutLapData (playerState s') = playerState ?s1
      \<and> (tyreByLapStart s' = []
               \<or> (\<exists>k. tyreByLapStart s' =
                     [(k, \<lparr>TyreSnapshot.tyreActualCompound = None, tyreVisualCompound = None,
                           tyresAgeLaps = None\<rparr>)]))"
  proof (cases "s' = ?s4")
    case a: True
    show ?thesis unfolding a using st4 l4 q4 by (simp add: ps4 pw1)
  next
    case False
    then obtain lap where b: "s' = playerLapUpdate ?s4 (Header.playerCarIndex header) lap"
      using d by blast
    note fr = playerLapUpdate_fresh[OF c4 t4 l4(1), of "Header.playerCarIndex header" lap]
    note ql = playerLapUpdate_fresh_lapsState[OF c4 t4 l4(1) q4, of "Header.playerCarIndex header" lap]
    note ty = playerLapUpdate_fresh_tyres[OF c4 l4(4), of "Header.playerCarIndex header" lap]
    show ?thesis unfolding b
      using st4 fr(1,2,3) ql ty l4
      by (simp add: staticRest_playerLapUpdate playerWithoutLapData_playerLapUpdate ps4 pw1 ty4)
  qed
  have st1: "staticRest ?s1 = (None, [], [], [], [], [], [], [])"
    by (simp add: staticRest_def resetSessionState_def)
  have cl: "sessionStateCleared (withoutLapData s')"
    using main st1
    by (simp add: sessionStateCleared_def withoutLapData_def staticRest_def resetSessionState_def)
  show ?thesis using res cl main by blast
qed

lemma reset_cleared: "sessionStateCleared (resetSessionState s uid)"
  by (simp add: sessionStateCleared_def resetSessionState_def)

lemma reset_sessionUID [simp]: "PlayerState.sessionUID (playerState (resetSessionState s uid)) = Some uid"
  by (simp add: resetSessionState_def)

lemma reset_indep: "resetSessionState s uid = resetSessionState s' uid"
  by (cases s; cases s'; cases "playerState s"; cases "playerState s'") (simp add: resetSessionState_def)

lemma resetIfNewSession_new:
  "PlayerState.sessionUID (playerState s) \<noteq> Some (Header.sessionUID header) \<Longrightarrow>
   resetIfNewSession s header = resetSessionState s (Header.sessionUID header)"
  by (simp add: resetIfNewSession_def)

lemma resetIfNewSession_same:
  "PlayerState.sessionUID (playerState s) = Some (Header.sessionUID header) \<Longrightarrow>
   resetIfNewSession s header = s"
  by (simp add: resetIfNewSession_def)

lemma resetIfNewSession_idem:
  "resetIfNewSession (resetIfNewSession s header) header = resetIfNewSession s header"
  by (simp add: resetIfNewSession_def)

lemma handleSessionPacket_reset_first:
  assumes "parseHeader buf = Some (Some header)"
  shows "handleSessionPacket (resetIfNewSession s header) buf = handleSessionPacket s buf"
  by (simp only: handleSessionPacket_def assms resetIfNewSession_idem bind.bind_lunit option.case)

lemma handleParticipantsPacket_reset_first:
  assumes "parseHeader buf = Some (Some header)"
  shows "handleParticipantsPacket (resetIfNewSession s header) buf = handleParticipantsPacket s buf"
  by (simp only: handleParticipantsPacket_def assms resetIfNewSession_idem bind.bind_lunit option.case Let_def)

lemma handleSessionHistoryPacket_reset_first:
  assumes "parseHeader buf = Some (Some header)"
  shows "handleSessionHistoryPacket (resetIfNewSession s header) buf = handleSessionHistoryPacket s buf"
  by (simp only: handleSessionHistoryPacket_def assms resetIfNewSession_idem bind.bind_lunit option.case Let_def)

lemma handleLapDataPacket_reset_first:
  assumes "parseHeader buf = Some (Some header)"
  shows "handleLapDataPacket (resetIfNewSession s header) buf = handleLapDataPacket s buf"
  by (simp only: handleLapDataPacket_def assms resetIfNewSession_idem bind.bind_lunit option.case Let_def)

lemma handleCarTelemetryPacket_reset_first:
  assumes "parseHeader buf = Some (Some header)"
  shows "handleCarTelemetryPacket (resetIfNewSession s header) buf = handleCarTelemetryPacket s buf"
  by (simp only: handleCarTelemetryPacket_def assms resetIfNewSession_idem bind.bind_lunit option.case Let_def)

lemma handleCarStatusPacket_reset_first:
  assumes "parseHeader buf = Some (Some header)"
  shows "handleCarStatusPacket (resetIfNewSession s header) buf = handleCarStatusPacket s buf"
  by (simp only: handleCarStatusPacket_def assms resetIfNewSession_idem bind.bind_lunit option.case Let_def)

lemma handleCarDamagePacket_reset_first:
  assumes "parseHeader buf = Some (Some header)"
  shows "handleCarDamagePacket (resetIfNewSession s header) buf = handleCarDamagePacket s buf"
  by (simp only: handleCarDamagePacket_def assms resetIfNewSession_idem bind.bind_lunit option.case Let_def)

lemma handleSessionPacket_total:
  assumes "parseHeader buf = Some (Some header)"
  shows "\<exists>s'. handleSessionPacket s buf = Some s'
           \<and> lapsByNumber s' = lapsByNumber (resetIfNewSession s header)
           \<and> pitLaneTimeByLap s' = pitLaneTimeByLap (resetIfNewSession s header)
           \<and> pitLaneStatusByLap s' = pitLaneStatusByLap (resetIfNewSession s header)
           \<and> tyreByLapStart s' = tyreByLapStart (resetIfNewSession s header)
           \<and> laps (lapsState s') = laps (lapsState (resetIfNewSession s header))"
  by (cases "length buf < HEADER_SIZE + 14")
     (simp_all add: handleSessionPacket_def assms reads sizes Let_def)

lemma parseHeader_sessionDatagram: "parseHeader sessionDatagram = Some (Some sessionDatagramHeader)"
  by (simp add: parseHeader_def sessionDatagram_def sessionDatagramHeader_def reads sizes)

lemma override_empty: "lapsByNumber x = [] \<Longrightarrow> foldl overrideLapFromHistory x byLap = x"
  by (induction byLap) (simp_all add: overrideLapFromHistory_def Map_get_def split: prod.splits)

lemma recompute_fresh:
  assumes "lapsByNumber x = []" and "lapsState x = freshLapsState"
  shows "recomputeFromLaps x = x"
  using assms
  by (cases x) (simp add: recomputeFromLaps_def syncLapsArrayFromMap_def Map_values_def freshLapsState_def)

lemma applyPlayerHistory_fresh:
  assumes "lapsByNumber x = []" and "lapsState x = freshLapsState"
  shows "applyPlayerHistory x byLap = x"
  by (simp add: applyPlayerHistory_def override_empty[OF assms(1)] recompute_fresh[OF assms])

lemma handleSessionHistoryPacket_cleared:
  assumes h: "parseHeader buf = Some (Some header)"
    and n: "PlayerState.sessionUID (playerState s) \<noteq> Some (Header.sessionUID header)"
  shows "\<exists>s'. handleSessionHistoryPacket s buf = Some s'
           \<and> sessionStateCleared (s'\<lparr>sessionHistoryByCarIndex := []\<rparr>)"
proof -
  let ?s1 = "resetSessionState s (Header.sessionUID header)"
  have r: "resetIfNewSession s header = ?s1"
    using n by (simp add: resetIfNewSession_def)
  obtain s' where s': "handleSessionHistoryPacket s buf = Some s'"
    using handleSessionHistoryPacket_total by blast
  have ap: "applyPlayerHistory (?s1\<lparr>sessionHistoryByCarIndex := m\<rparr>) byLap
      = ?s1\<lparr>sessionHistoryByCarIndex := m\<rparr>" for m byLap
    by (rule applyPlayerHistory_fresh) (simp_all add: resetSessionState_def)
  from s' have "s' = ?s1 \<or> (\<exists>m. s' = ?s1\<lparr>sessionHistoryByCarIndex := m\<rparr>)"
    by (auto simp: handleSessionHistoryPacket_def h r Let_def ap split: if_splits bind_splits)
  then have "s'\<lparr>sessionHistoryByCarIndex := []\<rparr> = ?s1"
    by (auto simp: resetSessionState_def)
  then show ?thesis using s' reset_cleared[of s "Header.sessionUID header"] by auto
qed

lemma handleSessionPacket_cleared:
  assumes h: "parseHeader buf = Some (Some header)"
    and n: "PlayerState.sessionUID (playerState s) \<noteq> Some (Header.sessionUID header)"
  shows "\<exists>s'. handleSessionPacket s buf = Some s'
           \<and> sessionStateCleared (s'\<lparr>lapsState := freshLapsState\<rparr>)
           \<and> lapsByNumber s' = [] \<and> laps (lapsState s') = []
           \<and> pitLaneTimeByLap s' = [] \<and> pitLaneStatusByLap s' = [] \<and> tyreByLapStart s' = []
           \<and> LapsState.bestLapTimeMs (lapsState s') = None \<and> raceCars (lapsState s') = []"
proof -
  let ?s1 = "resetSessionState s (Header.sessionUID header)"
  have r: "resetIfNewSession s header = ?s1"
    using n by (simp add: resetIfNewSession_def)
  from handleSessionPacket_total[OF h, of s] obtain s' where
    s': "handleSessionPacket s buf = Some s'" "lapsByNumber s' = []" "laps (lapsState s') = []"
       "pitLaneTimeByLap s' = []" "pitLaneStatusByLap s' = []" "tyreByLapStart s' = []"
    unfolding r by (auto simp: resetSessionState_def freshLapsState_def)
  note rest = handleSessionPacket_rest[OF s'(1) h]
  have "s'\<lparr>lapsState := freshLapsState\<rparr> = ?s1\<lparr>lapsState := freshLapsState\<rparr>"
    using rest(1)[of freshLapsState] unfolding r .
  also have "\<dots> = ?s1" by (simp add: resetSessionState_def)
  finally have c: "sessionStateCleared (s'\<lparr>lapsState := freshLapsState\<rparr>)"
    using reset_cleared[of s "Header.sessionUID header"] by simp
  have b: "LapsState.bestLapTimeMs (lapsState s') = None" "raceCars (lapsState s') = []"
    using rest(3,4) unfolding r by (simp_all add: resetSessionState_def freshLapsState_def)
  show ?thesis using s' c b by blast
qed

lemma handleParticipantsPacket_cleared:
  assumes h: "parseHeader buf = Some (Some header)"
    and n: "PlayerState.sessionUID (playerState s) \<noteq> Some (Header.sessionUID header)"
    and s': "handleParticipantsPacket s buf = Some s'"
  shows "sessionStateCleared (s'\<lparr>participantsNameByIndex := [], participantsTeamIdByIndex := [],
           participantsColorByIndex := [], numActiveCars := None\<rparr>)"
proof -
  let ?s1 = "resetSessionState s (Header.sessionUID header)"
  have r: "resetIfNewSession s header = ?s1"
    using n by (simp add: resetIfNewSession_def)
  have "s'\<lparr>participantsNameByIndex := [], participantsTeamIdByIndex := [],
           participantsColorByIndex := [], numActiveCars := None\<rparr>
      = ?s1\<lparr>participantsNameByIndex := [], participantsTeamIdByIndex := [],
           participantsColorByIndex := [], numActiveCars := None\<rparr>"
    using handleParticipantsPacket_rest[OF s' h] unfolding r .
  also have "\<dots> = ?s1" by (simp add: resetSessionState_def)
  finally show ?thesis using reset_cleared[of s "Header.sessionUID header"] by simp
qed

lemma handleCarTelemetryPacket_cleared:
  assumes h: "parseHeader buf = Some (Some header)"
    and n: "PlayerState.sessionUID (playerState s) \<noteq> Some (Header.sessionUID header)"
  shows "\<exists>s'. handleCarTelemetryPacket s buf = Some s'
           \<and> sessionStateCleared (s'\<lparr>carTelemetryByIndex := [],
                 lapsState := (lapsState s')\<lparr>currentCarTelemetry := None\<rparr>\<rparr>)"
proof -
  let ?s1 = "resetSessionState s (Header.sessionUID header)"
  have r: "resetIfNewSession s header = ?s1"
    using n by (simp add: resetIfNewSession_def)
  obtain s' where s': "handleCarTelemetryPacket s buf = Some s'"
    using handleCarTelemetryPacket_total by blast
  have "s'\<lparr>carTelemetryByIndex := [], lapsState := (lapsState s')\<lparr>currentCarTelemetry := None\<rparr>\<rparr>
      = ?s1\<lparr>carTelemetryByIndex := [], lapsState := (lapsState ?s1)\<lparr>currentCarTelemetry := None\<rparr>\<rparr>"
    using handleCarTelemetryPacket_rest[OF s' h] unfolding r .
  also have "\<dots> = ?s1" by (simp add: resetSessionState_def freshLapsState_def)
  finally show ?thesis using s' reset_cleared[of s "Header.sessionUID header"] by auto
qed

lemma handleCarDamagePacket_cleared:
  assumes h: "parseHeader buf = Some (Some header)"
    and n: "PlayerState.sessionUID (playerState s) \<noteq> Some (Header.sessionUID header)"
    and s': "handleCarDamagePacket s buf = Some s'"
  shows "sessionStateCleared (s'\<lparr>carDamageByIndex := [],
                 lapsState := (lapsState s')\<lparr>currentCarDamage := None\<rparr>\<rparr>)"
proof -
  let ?s1 = "resetSessionState s (Header.sessionUID header)"
  have r: "resetIfNewSession s header = ?s1"
    using n by (simp add: resetIfNewSession_def)
  have "s'\<lparr>carDamageByIndex := [], lapsState := (lapsState s')\<lparr>currentCarDamage := None\<rparr>\<rparr>
      = ?s1\<lparr>carDamageByIndex := [], lapsState := (lapsState ?s1)\<lparr>currentCarDamage := None\<rparr>\<rparr>"
    using handleCarDamagePacket_rest[OF s' h] unfolding r .
  also have "\<dots> = ?s1" by (simp add: resetSessionState_def freshLapsState_def)
  finally show ?thesis using reset_cleared[of s "Header.sessionUID header"] by simp
qed

lemma handleCarStatusPacket_cleared:
  assumes h: "parseHeader buf = Some (Some header)"
    and n: "PlayerState.sessionUID (playerState s) \<noteq> Some (Header.sessionUID header)"
  shows "\<exists>s'. handleCarStatusPacket s buf = Some s'
           \<and> sessionStateCleared (s'\<lparr>carStatusByIndex := [],
                 lapsState := (lapsState s')\<lparr>currentCarStatus := None\<rparr>,
                 playerState := (playerState s')\<lparr>currentTyreActualCompound := None,
                    currentTyreVisualCompound := None, currentTyresAgeLaps := None\<rparr>\<rparr>)"
proof -
  let ?s1 = "resetSessionState s (Header.sessionUID header)"
  have r: "resetIfNewSession s header = ?s1"
    using n by (simp add: resetIfNewSession_def)
  obtain s2 where loop: "forEachM [0..<NUM_CARS] (carStatusStep buf) ?s1 = Some s2"
    using forEachM_total[of "carStatusStep buf" "[0..<NUM_CARS]" ?s1] carStatusStep_total by blast
  note r2 = carStatusLoop_rest[OF loop]
  have l2: "lapsState s2 = lapsState ?s1" "playerState s2 = playerState ?s1"
    using arg_cong[OF r2, of lapsState] arg_cong[OF r2, of playerState] by simp_all
  let ?s3 = "playerTyresFromStatus s2 (Header.playerCarIndex header)"
  have c3: "PlayerState.currentLapNum (playerState ?s3) = None"
    by (simp add: playerTyresFromStatus_def l2 resetSessionState_def split: option.splits)
  have b: "backfillTyreAtLapStart ?s3 = ?s3"
    by (simp add: backfillTyreAtLapStart_def c3)
  have res: "handleCarStatusPacket s buf = Some ?s3"
    by (simp add: handleCarStatusPacket_def h r Let_def loop b)
  have "?s3\<lparr>carStatusByIndex := [],
                 lapsState := (lapsState ?s3)\<lparr>currentCarStatus := None\<rparr>,
                 playerState := (playerState ?s3)\<lparr>currentTyreActualCompound := None,
                    currentTyreVisualCompound := None, currentTyresAgeLaps := None\<rparr>\<rparr>
      = s2\<lparr>carStatusByIndex := [],
                 lapsState := (lapsState s2)\<lparr>currentCarStatus := None\<rparr>,
                 playerState := (playerState s2)\<lparr>currentTyreActualCompound := None,
                    currentTyreVisualCompound := None, currentTyresAgeLaps := None\<rparr>\<rparr>"
    by (simp add: playerTyresFromStatus_def split: option.splits)
  also have "\<dots> = (s2\<lparr>carStatusByIndex := []\<rparr>)\<lparr>
                 lapsState := (lapsState ?s1)\<lparr>currentCarStatus := None\<rparr>,
                 playerState := (playerState ?s1)\<lparr>currentTyreActualCompound := None,
                    currentTyreVisualCompound := None, currentTyresAgeLaps := None\<rparr>\<rparr>"
    by (simp add: l2)
  also have "\<dots> = ?s1"
    unfolding r2 by (simp add: resetSessionState_def freshLapsState_def)
  finally show ?thesis using res reset_cleared[of s "Header.sessionUID header"] by auto
qed

lemma parseHeader_fullDamageDatagram:
  "parseHeader fullDamageDatagram = Some (Some fullDamageDatagramHeader)"
  by (simp add: parseHeader_def fullDamageDatagram_def fullDamageDatagramHeader_def
      sessionDatagramHeader_def reads sizes)


section \<open>C1: personal bests after a recomputation\<close>

text \<open>
  C1. After \<^verbatim>\<open>recomputeFromLaps\<close>, every ledger entry that is valid and has a positive
  lap time \<open>t\<close> has \<open>isBest\<close> exactly when \<open>t\<close> is the minimum lap time over the
  valid entries with a positive lap time, and its \<open>deltaMs\<close> is \<open>t\<close> minus that minimum,
  which is not negative (zero for the best lap). Entries that are not valid or have no
  positive time are not in the set the minimum is taken over.
\<close>

theorem C1_bests_after_recompute:
  assumes "(k, l) \<in> set (lapsByNumber (recomputeFromLaps s))"
    and "LapEntry.valid l" and "LapEntry.lapTimeMs l = Some t" and "0 < t"
  shows "(isBest l \<longleftrightarrow> t = Min (validLapTimes (lapsByNumber (recomputeFromLaps s))))
       \<and> deltaMs l = Some (t - Min (validLapTimes (lapsByNumber (recomputeFromLaps s))))
       \<and> 0 \<le> t - Min (validLapTimes (lapsByNumber (recomputeFromLaps s)))"
proof -
  let ?m = "lapsByNumber s"
  let ?T = "validLapTimes ?m"
  have post: "validLapTimes (lapsByNumber (recomputeFromLaps s)) = ?T"
    by (simp add: recompute_lapsByNumber)
  from assms(1) obtain l0 where l0: "(k, l0) \<in> set ?m" and l: "l = markLap (bestOf ?m) l0"
    by (auto simp: recompute_lapsByNumber markAll_def)
  have tin: "t \<in> ?T"
    using l0 assms(2-4) l by (force simp: validLapTimes_def Map_values_def)
  have best: "bestOf ?m = Some (Min ?T)"
    using tin by (rule bestOf_Some_Min)
  have le: "Min ?T \<le> t" using tin by (simp add: Min_le)
  show ?thesis
    using assms(2-4) le unfolding post l
    by (simp add: markLap_def best)
qed

text \<open>
  The witness: lap 1 of the example ledger (1:30.000, valid) is not the best lap and is
  2000 ms behind the minimum 88000; the invalid lap 3 of 85000 ms is not the minimum.
\<close>

theorem C1_bests_after_recompute_witness:
  "(1, (exampleLap 1 90000 True)\<lparr>deltaMs := Some 2000\<rparr>)
      \<in> set (lapsByNumber (recomputeFromLaps exampleState))
   \<and> LapEntry.valid ((exampleLap 1 90000 True)\<lparr>deltaMs := Some 2000\<rparr>)
   \<and> LapEntry.lapTimeMs ((exampleLap 1 90000 True)\<lparr>deltaMs := Some 2000\<rparr>) = Some 90000
   \<and> (0::int) < 90000
   \<and> (isBest ((exampleLap 1 90000 True)\<lparr>deltaMs := Some 2000\<rparr>)
        \<longleftrightarrow> 90000 = Min (validLapTimes (lapsByNumber (recomputeFromLaps exampleState))))
   \<and> deltaMs ((exampleLap 1 90000 True)\<lparr>deltaMs := Some 2000\<rparr>)
        = Some (90000 - Min (validLapTimes (lapsByNumber (recomputeFromLaps exampleState))))
   \<and> 0 \<le> 90000 - Min (validLapTimes (lapsByNumber (recomputeFromLaps exampleState)))
   \<and> Min (validLapTimes (lapsByNumber (recomputeFromLaps exampleState))) = 88000"
proof -
  let ?l = "(exampleLap 1 90000 True)\<lparr>deltaMs := Some 2000\<rparr>"
  have mem: "(1, ?l) \<in> set (lapsByNumber (recomputeFromLaps exampleState))"
    by (simp add: exampleState_recomputed)
  have v: "LapEntry.valid ?l" and t: "LapEntry.lapTimeMs ?l = Some 90000"
    by (simp_all add: exampleLap_def)
  have pos: "(0::int) < 90000" by simp
  have d: "deltaMs ?l = Some 2000" by simp
  from C1_bests_after_recompute[OF mem v t pos] mem v t d
  show ?thesis by simp
qed

section \<open>C2: two-part time fields\<close>

text \<open>
  The decoder of the live lap data is as the claim says: absent on a sentinel in either
  part or when both parts are zero, and \<open>minutes * 60000 + sub-minute part\<close> otherwise.
\<close>

lemma decodeMinutesMs_spec:
  "decodeMinutesMs msPart minutesPart =
     (if msPart = 65535 \<or> minutesPart = 255 \<or> (msPart = 0 \<and> minutesPart = 0) then None
      else Some (int minutesPart * 60000 + int msPart))"
  by (simp add: decodeMinutesMs_def)

lemma decodeMinutesMs_examples:
  "decodeMinutesMs 500 1 = Some 60500" "decodeMinutesMs 65535 m = None"
  "decodeMinutesMs 0 0 = None"
  by (simp_all add: decodeMinutesMs_def)

text \<open>
  The sector times of a session-history lap are decoded without the sentinel test:
  every lap of 14 bytes inside the buffer decodes, and a part is absent only when both
  its halves are zero.
\<close>

lemma parseLapHistoryEntry_sector1:
  assumes "off + 14 \<le> length buf"
  shows "\<exists>e. parseLapHistoryEntry buf off = Some e
           \<and> HistoryEntry.sector1TimeMs e =
               (let ms = leNat (take 2 (drop (off + 4) buf));
                    mn = leNat (take 1 (drop (off + 6) buf))
                in if ms \<noteq> 0 \<or> mn \<noteq> 0 then Some (int ms + int mn * 60000) else None)"
  using assms by (simp add: parseLapHistoryEntry_def reads Let_def)

text \<open>
  C2. At \<open>historyEntryBytes\<close> the sub-minute part of sector 1 is the sentinel 65535, and
  \<^verbatim>\<open>parseLapHistoryEntry\<close> returns 65535 ms for it, where the decoder of the live lap data
  returns absent for the same two parts.
\<close>

theorem C2_history_sentinel_not_absent:
  "parseLapHistoryEntry historyEntryBytes 0 =
     Some \<lparr>HistoryEntry.lapTimeMs = Some 90000, sector1TimeMs = Some 65535,
           sector2TimeMs = Some 30000, sector3TimeMs = Some 30000, validFlags = 15\<rparr>
   \<and> decodeMinutesMs 65535 0 = None"
  by (simp add: parseLapHistoryEntry_def historyEntryBytes_def reads decodeMinutesMs_def)

text \<open>The same at the one field: the sentinel comes out as a sector time of 65535 ms.\<close>

theorem C2_history_sentinel_not_absent_witness:
  "map_option HistoryEntry.sector1TimeMs (parseLapHistoryEntry historyEntryBytes 0)
     = Some (Some 65535)"
  using C2_history_sentinel_not_absent by simp

section \<open>C3: short buffers\<close>

lemma parseHeader_shortDamageDatagram:
  "\<exists>h. parseHeader shortDamageDatagram = Some (Some h) \<and> packetId h = 10"
  by (simp add: parseHeader_def shortDamageDatagram_def reads sizes)

lemma parseCarDamageForCar_shortDamageDatagram:
  "parseCarDamageForCar shortDamageDatagram 29 = None"
  by (simp add: parseCarDamageForCar_def shortDamageDatagram_def reads sizes)

lemma handleCarDamagePacket_shortDamageDatagram:
  "handleCarDamagePacket s shortDamageDatagram = None"
proof -
  obtain h where h: "parseHeader shortDamageDatagram = Some (Some h)"
    using parseHeader_shortDamageDatagram by blast
  have "[0..<NUM_CARS] = 0 # [1..<NUM_CARS]"
    by (simp add: NUM_CARS_def upt_conv_Cons)
  then show ?thesis
    by (simp add: handleCarDamagePacket_def h carDamageStep_def
        parseCarDamageForCar_shortDamageDatagram HEADER_SIZE_def)
qed

lemma parseHeader_shortParticipantsDatagram:
  "\<exists>h. parseHeader shortParticipantsDatagram = Some (Some h) \<and> packetId h = 4"
  by (simp add: parseHeader_def shortParticipantsDatagram_def reads sizes)

lemma handleParticipantsPacket_shortParticipantsDatagram:
  "handleParticipantsPacket s shortParticipantsDatagram = None"
proof -
  obtain h where h: "parseHeader shortParticipantsDatagram = Some (Some h)"
    using parseHeader_shortParticipantsDatagram by blast
  have "readUInt8 shortParticipantsDatagram HEADER_SIZE = None"
    by (simp add: shortParticipantsDatagram_def reads sizes)
  then show ?thesis
    by (simp add: handleParticipantsPacket_def h)
qed

text \<open>
  C3. Two datagrams that are too short for their records and are not skipped. On the
  51-byte car-damage datagram \<^verbatim>\<open>parseCarDamageForCar\<close> passes its length test
  (\<open>needed = 1\<close>) and then reads past the end: the read throws, in the decoder and so in
  the message callback, whatever the state. On the 29-byte participants datagram
  \<^verbatim>\<open>handleParticipantsPacket\<close> reads the byte at offset 29 before it tests the length,
  and the read throws.
\<close>

theorem C3_short_datagram_throws:
  "parseCarDamageForCar shortDamageDatagram 29 = None
   \<and> onMessage s shortDamageDatagram = None
   \<and> onMessage s shortParticipantsDatagram = None"
proof -
  obtain h where h: "parseHeader shortDamageDatagram = Some (Some h)" "packetId h = 10"
    using parseHeader_shortDamageDatagram by blast
  obtain h' where h': "parseHeader shortParticipantsDatagram = Some (Some h')" "packetId h' = 4"
    using parseHeader_shortParticipantsDatagram by blast
  have "onMessage s shortDamageDatagram = None"
    by (simp add: onMessage_def h packet_ids handleCarDamagePacket_shortDamageDatagram)
  moreover have "onMessage s shortParticipantsDatagram = None"
    by (simp add: onMessage_def h' packet_ids handleParticipantsPacket_shortParticipantsDatagram)
  ultimately show ?thesis
    by (simp add: parseCarDamageForCar_shortDamageDatagram)
qed
section \<open>C4: a new session identifier resets first\<close>

text \<open>
  C4. When the header's session identifier is not the tracked one (or none is tracked),
  \<^verbatim>\<open>resetSessionState\<close> leaves every piece of session-scoped state empty, every handler gives
  what it gives on that cleared state, and what a handler returns is the cleared state
  with the payload of this packet applied to it: the session, session-history, lap-data,
  car-telemetry and car-status handlers return, and once the fields that the packet kind
  writes are blanked the returned state is the cleared one; the participants and
  car-damage handlers return when the datagram holds the byte after the header and,
  respectively, the 22 car records, and whatever they return is cleared in the same
  sense. After a lap-data packet the tyre table holds at most one snapshot, a blank one;
  after a session packet the ledger, the lap list, the pit tables and the tyre table
  are empty.
\<close>

theorem C4_new_session_resets_first:
  assumes "parseHeader buf = Some (Some header)"
    and "PlayerState.sessionUID (playerState s) \<noteq> Some (Header.sessionUID header)"
  shows "sessionStateCleared (resetSessionState s (Header.sessionUID header))
     \<and> handleSessionPacket s buf = handleSessionPacket (resetSessionState s (Header.sessionUID header)) buf
     \<and> handleParticipantsPacket s buf = handleParticipantsPacket (resetSessionState s (Header.sessionUID header)) buf
     \<and> handleSessionHistoryPacket s buf = handleSessionHistoryPacket (resetSessionState s (Header.sessionUID header)) buf
     \<and> handleLapDataPacket s buf = handleLapDataPacket (resetSessionState s (Header.sessionUID header)) buf
     \<and> handleCarTelemetryPacket s buf = handleCarTelemetryPacket (resetSessionState s (Header.sessionUID header)) buf
     \<and> handleCarStatusPacket s buf = handleCarStatusPacket (resetSessionState s (Header.sessionUID header)) buf
     \<and> handleCarDamagePacket s buf = handleCarDamagePacket (resetSessionState s (Header.sessionUID header)) buf
     \<and> (\<exists>s'. handleSessionPacket s buf = Some s' \<and> lapsByNumber s' = [] \<and> laps (lapsState s') = []
            \<and> pitLaneTimeByLap s' = [] \<and> pitLaneStatusByLap s' = [] \<and> tyreByLapStart s' = []
            \<and> LapsState.bestLapTimeMs (lapsState s') = None \<and> raceCars (lapsState s') = []
            \<and> sessionStateCleared (s'\<lparr>lapsState := freshLapsState\<rparr>))
     \<and> (\<exists>s'. handleSessionHistoryPacket s buf = Some s'
            \<and> sessionStateCleared (s'\<lparr>sessionHistoryByCarIndex := []\<rparr>))
     \<and> (\<exists>s'. handleLapDataPacket s buf = Some s' \<and> sessionStateCleared (withoutLapData s')
            \<and> (tyreByLapStart s' = []
                \<or> (\<exists>k. tyreByLapStart s' =
                      [(k, \<lparr>TyreSnapshot.tyreActualCompound = None, tyreVisualCompound = None,
                            tyresAgeLaps = None\<rparr>)])))
     \<and> (\<exists>s'. handleCarTelemetryPacket s buf = Some s'
            \<and> sessionStateCleared (s'\<lparr>carTelemetryByIndex := [],
                  lapsState := (lapsState s')\<lparr>currentCarTelemetry := None\<rparr>\<rparr>))
     \<and> (\<exists>s'. handleCarStatusPacket s buf = Some s'
            \<and> sessionStateCleared (s'\<lparr>carStatusByIndex := [],
                  lapsState := (lapsState s')\<lparr>currentCarStatus := None\<rparr>,
                  playerState := (playerState s')\<lparr>currentTyreActualCompound := None,
                     currentTyreVisualCompound := None, currentTyresAgeLaps := None\<rparr>\<rparr>))
     \<and> (HEADER_SIZE < length buf \<longrightarrow> (\<exists>s'. handleParticipantsPacket s buf = Some s'))
     \<and> (\<forall>s'. handleParticipantsPacket s buf = Some s' \<longrightarrow>
            sessionStateCleared (s'\<lparr>participantsNameByIndex := [], participantsTeamIdByIndex := [],
               participantsColorByIndex := [], numActiveCars := None\<rparr>))
     \<and> (HEADER_SIZE + NUM_CARS * CAR_DAMAGE_DATA_SIZE \<le> length buf \<longrightarrow>
            (\<exists>s'. handleCarDamagePacket s buf = Some s'))
     \<and> (\<forall>s'. handleCarDamagePacket s buf = Some s' \<longrightarrow>
            sessionStateCleared (s'\<lparr>carDamageByIndex := [],
               lapsState := (lapsState s')\<lparr>currentCarDamage := None\<rparr>\<rparr>))"
proof -
  have r: "resetIfNewSession s header = resetSessionState s (Header.sessionUID header)"
    using assms(2) by (rule resetIfNewSession_new)
  have c: "sessionStateCleared (resetSessionState s (Header.sessionUID header))"
    by (rule reset_cleared)
  have e1: "handleSessionPacket s buf = handleSessionPacket (resetSessionState s (Header.sessionUID header)) buf"
    using handleSessionPacket_reset_first[OF assms(1), of s] unfolding r by simp
  have e2: "handleParticipantsPacket s buf = handleParticipantsPacket (resetSessionState s (Header.sessionUID header)) buf"
    using handleParticipantsPacket_reset_first[OF assms(1), of s] unfolding r by simp
  have e3: "handleSessionHistoryPacket s buf = handleSessionHistoryPacket (resetSessionState s (Header.sessionUID header)) buf"
    using handleSessionHistoryPacket_reset_first[OF assms(1), of s] unfolding r by simp
  have e4: "handleLapDataPacket s buf = handleLapDataPacket (resetSessionState s (Header.sessionUID header)) buf"
    using handleLapDataPacket_reset_first[OF assms(1), of s] unfolding r by simp
  have e5: "handleCarTelemetryPacket s buf = handleCarTelemetryPacket (resetSessionState s (Header.sessionUID header)) buf"
    using handleCarTelemetryPacket_reset_first[OF assms(1), of s] unfolding r by simp
  have e6: "handleCarStatusPacket s buf = handleCarStatusPacket (resetSessionState s (Header.sessionUID header)) buf"
    using handleCarStatusPacket_reset_first[OF assms(1), of s] unfolding r by simp
  have e7: "handleCarDamagePacket s buf = handleCarDamagePacket (resetSessionState s (Header.sessionUID header)) buf"
    using handleCarDamagePacket_reset_first[OF assms(1), of s] unfolding r by simp
  have p1: "\<exists>s'. handleSessionPacket s buf = Some s' \<and> lapsByNumber s' = [] \<and> laps (lapsState s') = []
            \<and> pitLaneTimeByLap s' = [] \<and> pitLaneStatusByLap s' = [] \<and> tyreByLapStart s' = []
            \<and> LapsState.bestLapTimeMs (lapsState s') = None \<and> raceCars (lapsState s') = []
            \<and> sessionStateCleared (s'\<lparr>lapsState := freshLapsState\<rparr>)"
    using handleSessionPacket_cleared[OF assms] by blast
  note p3 = handleSessionHistoryPacket_cleared[OF assms]
  note p4 = handleLapDataPacket_cleared[OF assms]
  note p5 = handleCarTelemetryPacket_cleared[OF assms]
  note p6 = handleCarStatusPacket_cleared[OF assms]
  have p2a: "HEADER_SIZE < length buf \<longrightarrow> (\<exists>s'. handleParticipantsPacket s buf = Some s')"
    using handleParticipantsPacket_returns[of buf s] by blast
  have p2b: "\<forall>s'. handleParticipantsPacket s buf = Some s' \<longrightarrow>
            sessionStateCleared (s'\<lparr>participantsNameByIndex := [], participantsTeamIdByIndex := [],
               participantsColorByIndex := [], numActiveCars := None\<rparr>)"
    using handleParticipantsPacket_cleared[OF assms] by blast
  have p7a: "HEADER_SIZE + NUM_CARS * CAR_DAMAGE_DATA_SIZE \<le> length buf \<longrightarrow>
            (\<exists>s'. handleCarDamagePacket s buf = Some s')"
    using handleCarDamagePacket_returns[of buf s] by blast
  have p7b: "\<forall>s'. handleCarDamagePacket s buf = Some s' \<longrightarrow>
            sessionStateCleared (s'\<lparr>carDamageByIndex := [],
               lapsState := (lapsState s')\<lparr>currentCarDamage := None\<rparr>\<rparr>)"
    using handleCarDamagePacket_cleared[OF assms] by blast
  show ?thesis
    by (intro conjI c e1 e2 e3 e4 e5 e6 e7 p1 p3 p4 p5 p6 p2a p2b p7a p7b)
qed

text \<open>
  The witness: the state of session 7 with three laps and a pit record, with a
  session-metadata datagram of session 0 (43 bytes) given to each of the handlers that
  return on it, and with a car-damage datagram of session 0 that holds all 22 records.
\<close>

theorem C4_new_session_resets_first_witness:
  "parseHeader sessionDatagram = Some (Some sessionDatagramHeader)
   \<and> PlayerState.sessionUID (playerState examplePitState) \<noteq> Some (Header.sessionUID sessionDatagramHeader)
   \<and> lapsByNumber examplePitState \<noteq> [] \<and> pitLaneTimeByLap examplePitState \<noteq> []
   \<and> pitLaneStatusByLap examplePitState \<noteq> []
   \<and> (\<exists>s'. handleSessionPacket examplePitState sessionDatagram = Some s' \<and> lapsByNumber s' = []
          \<and> laps (lapsState s') = [] \<and> pitLaneTimeByLap s' = [] \<and> pitLaneStatusByLap s' = []
          \<and> tyreByLapStart s' = [])
   \<and> (\<exists>s'. handleSessionHistoryPacket examplePitState sessionDatagram = Some s'
          \<and> sessionStateCleared (s'\<lparr>sessionHistoryByCarIndex := []\<rparr>))
   \<and> (\<exists>s'. handleLapDataPacket examplePitState sessionDatagram = Some s'
          \<and> sessionStateCleared (withoutLapData s'))
   \<and> (\<exists>s'. handleCarTelemetryPacket examplePitState sessionDatagram = Some s'
          \<and> sessionStateCleared (s'\<lparr>carTelemetryByIndex := [],
                lapsState := (lapsState s')\<lparr>currentCarTelemetry := None\<rparr>\<rparr>))
   \<and> (\<exists>s'. handleCarStatusPacket examplePitState sessionDatagram = Some s'
          \<and> sessionStateCleared (s'\<lparr>carStatusByIndex := [],
                lapsState := (lapsState s')\<lparr>currentCarStatus := None\<rparr>,
                playerState := (playerState s')\<lparr>currentTyreActualCompound := None,
                   currentTyreVisualCompound := None, currentTyresAgeLaps := None\<rparr>\<rparr>))
   \<and> (\<exists>s'. handleParticipantsPacket examplePitState sessionDatagram = Some s'
          \<and> sessionStateCleared (s'\<lparr>participantsNameByIndex := [], participantsTeamIdByIndex := [],
               participantsColorByIndex := [], numActiveCars := None\<rparr>))
   \<and> parseHeader fullDamageDatagram = Some (Some fullDamageDatagramHeader)
   \<and> PlayerState.sessionUID (playerState examplePitState) \<noteq> Some (Header.sessionUID fullDamageDatagramHeader)
   \<and> HEADER_SIZE + NUM_CARS * CAR_DAMAGE_DATA_SIZE \<le> length fullDamageDatagram
   \<and> (\<exists>s'. handleCarDamagePacket examplePitState fullDamageDatagram = Some s'
          \<and> sessionStateCleared (s'\<lparr>carDamageByIndex := [],
               lapsState := (lapsState s')\<lparr>currentCarDamage := None\<rparr>\<rparr>))"
proof -
  have u: "PlayerState.sessionUID (playerState examplePitState) \<noteq> Some (Header.sessionUID sessionDatagramHeader)"
    by (simp add: examplePitState_def sessionDatagramHeader_def)
  have u2: "PlayerState.sessionUID (playerState examplePitState) \<noteq> Some (Header.sessionUID fullDamageDatagramHeader)"
    by (simp add: examplePitState_def fullDamageDatagramHeader_def sessionDatagramHeader_def)
  have ne: "lapsByNumber examplePitState \<noteq> []" "pitLaneTimeByLap examplePitState \<noteq> []"
    "pitLaneStatusByLap examplePitState \<noteq> []"
    by (simp_all add: examplePitState_def exampleState_def exampleLedger_def)
  have len: "HEADER_SIZE < length sessionDatagram"
    by (simp add: sessionDatagram_def sizes)
  have len2: "HEADER_SIZE + NUM_CARS * CAR_DAMAGE_DATA_SIZE \<le> length fullDamageDatagram"
    by (simp add: fullDamageDatagram_def sizes)
  note a = C4_new_session_resets_first[OF parseHeader_sessionDatagram u]
  note b = C4_new_session_resets_first[OF parseHeader_fullDamageDatagram u2]
  from a have a1: "\<exists>s'. handleSessionPacket examplePitState sessionDatagram = Some s' \<and> lapsByNumber s' = []
          \<and> laps (lapsState s') = [] \<and> pitLaneTimeByLap s' = [] \<and> pitLaneStatusByLap s' = []
          \<and> tyreByLapStart s' = []" by blast
  from a have a3: "\<exists>s'. handleSessionHistoryPacket examplePitState sessionDatagram = Some s'
          \<and> sessionStateCleared (s'\<lparr>sessionHistoryByCarIndex := []\<rparr>)" by blast
  from a have a4: "\<exists>s'. handleLapDataPacket examplePitState sessionDatagram = Some s'
          \<and> sessionStateCleared (withoutLapData s')" by blast
  from a have a5: "\<exists>s'. handleCarTelemetryPacket examplePitState sessionDatagram = Some s'
          \<and> sessionStateCleared (s'\<lparr>carTelemetryByIndex := [],
                lapsState := (lapsState s')\<lparr>currentCarTelemetry := None\<rparr>\<rparr>)" by blast
  from a have a6: "\<exists>s'. handleCarStatusPacket examplePitState sessionDatagram = Some s'
          \<and> sessionStateCleared (s'\<lparr>carStatusByIndex := [],
                lapsState := (lapsState s')\<lparr>currentCarStatus := None\<rparr>,
                playerState := (playerState s')\<lparr>currentTyreActualCompound := None,
                   currentTyreVisualCompound := None, currentTyresAgeLaps := None\<rparr>\<rparr>)" by blast
  from a len have a2: "\<exists>s'. handleParticipantsPacket examplePitState sessionDatagram = Some s'
          \<and> sessionStateCleared (s'\<lparr>participantsNameByIndex := [], participantsTeamIdByIndex := [],
               participantsColorByIndex := [], numActiveCars := None\<rparr>)" by blast
  from b len2 have b7: "\<exists>s'. handleCarDamagePacket examplePitState fullDamageDatagram = Some s'
          \<and> sessionStateCleared (s'\<lparr>carDamageByIndex := [],
               lapsState := (lapsState s')\<lparr>currentCarDamage := None\<rparr>\<rparr>)" by blast
  show ?thesis
    by (intro conjI parseHeader_sessionDatagram u ne a1 a3 a4 a5 a6 a2
        parseHeader_fullDamageDatagram u2 len2 b7)
qed


section \<open>C5: the rewind\<close>

text \<open>
  C5, as the specification has it: on a live-lap update for the player whose lap number is
  smaller than the one observed before, the ledger entries, tyre snapshots and pit records
  of the laps from the new current lap on are deleted, the stint in progress is abandoned,
  the bests are recomputed, and every record of an earlier lap is left unchanged.

  The last part does not hold. After the laps 1 (90000 ms), 2 (88000 ms) and 5 (85000 ms,
  the best), a rewind from lap 7 to lap 3 deletes lap 5, and the recomputation that follows
  rewrites the entry of lap 2: it becomes the best, and its delta goes from 3000 to 0.
  The same update also records a tyre snapshot for lap 3, the new current lap, from the
  current tyres.
\<close>

theorem C5_entries_below_change:
  "PlayerState.currentLapNum (playerState rewindState) = Some 7
   \<and> LapData.currentLapNum (exampleLapData 3 1000) = 3
   \<and> Map_get (lapsByNumber rewindState) 2 = Some ((exampleLap 2 88000 True)\<lparr>deltaMs := Some 3000\<rparr>)
   \<and> Map_get (lapsByNumber (playerLapUpdate rewindState 0 (exampleLapData 3 1000))) 2
       = Some ((exampleLap 2 88000 True)\<lparr>deltaMs := Some 0, isBest := True\<rparr>)
   \<and> Map_get (lapsByNumber (playerLapUpdate rewindState 0 (exampleLapData 3 1000))) 2
       \<noteq> Map_get (lapsByNumber rewindState) 2
   \<and> Map_get (tyreByLapStart (playerLapUpdate rewindState 0 (exampleLapData 3 1000))) 3
       = Some (exampleTyres 17 17 0)"
proof -
  have c: "LapData.currentLapNum (exampleLapData 3 1000) = 3" by (simp add: exampleLapData_def)
  have lt: "LapData.currentLapNum (exampleLapData 3 1000) < 7" by (simp add: c)
  have t: "Map_get (tyreByLapStart (playerLapUpdate rewindState 0 (exampleLapData 3 1000))) 3
       = Some (exampleTyres 17 17 0)"
    unfolding rewind_update(2)[OF rewindState_player(1) lt] c
    by (simp add: rewindState_player)
  have g1: "Map_get (lapsByNumber rewindState) 2 = Some ((exampleLap 2 88000 True)\<lparr>deltaMs := Some 3000\<rparr>)"
    by (simp add: rewindState_ledger Map_get_def)
  have g2: "Map_get (lapsByNumber (playerLapUpdate rewindState 0 (exampleLapData 3 1000))) 2
       = Some ((exampleLap 2 88000 True)\<lparr>deltaMs := Some 0, isBest := True\<rparr>)"
    by (simp add: rewindState_after Map_get_def)
  show ?thesis
    by (simp add: rewindState_player(1) c g1 g2 t exampleLap_def)
qed

text \<open>
  C5, amended: on such an update the ledger keeps exactly the entries of the laps below
  the new current lap, each unchanged but for \<open>isBest\<close> and \<open>deltaMs\<close>, which are recomputed
  against the best of the laps that remain; the published best is the best of that ledger;
  the tyre snapshots and pit records of the laps below the new current lap are unchanged,
  those from it on are deleted, and one tyre snapshot is recorded for the new current lap
  from the current tyres; the stint in progress is abandoned, and a new one starts at the
  new current lap when the update itself reports the pit-lane timer as active.
\<close>

theorem C5_rewind_deletes_later_laps:
  assumes "PlayerState.currentLapNum (playerState s) = Some p"
    and "LapData.currentLapNum lap < p"
  shows "(\<forall>k. Map_has (lapsByNumber (playerLapUpdate s pci lap)) k
               = (k < LapData.currentLapNum lap \<and> Map_has (lapsByNumber s) k))
    \<and> (\<forall>k. Map_get (lapsByNumber (playerLapUpdate s pci lap)) k
            = (if k < LapData.currentLapNum lap
               then map_option (markLap (LapsState.bestLapTimeMs (lapsState (playerLapUpdate s pci lap))))
                      (Map_get (lapsByNumber s) k)
               else None))
    \<and> LapsState.bestLapTimeMs (lapsState (playerLapUpdate s pci lap))
        = bestOf (lapsByNumber (playerLapUpdate s pci lap))
    \<and> (\<forall>k. Map_get (tyreByLapStart (playerLapUpdate s pci lap)) k
            = (if k < LapData.currentLapNum lap then Map_get (tyreByLapStart s) k
               else if k = LapData.currentLapNum lap then Some (currentTyres s) else None))
    \<and> (\<forall>k. Map_get (pitLaneTimeByLap (playerLapUpdate s pci lap)) k
            = (if k < LapData.currentLapNum lap then Map_get (pitLaneTimeByLap s) k else None))
    \<and> (\<forall>k. Map_get (pitLaneStatusByLap (playerLapUpdate s pci lap)) k
            = (if k < LapData.currentLapNum lap then Map_get (pitLaneStatusByLap s) k else None))
    \<and> pitTracker (playerLapUpdate s pci lap)
        = (if pitLaneTimerActive lap = 1
           then (True, Some (LapData.currentLapNum lap), max 0 (pitLaneTimeInLaneInMS lap),
                 LapData.pitStatus lap)
           else (False, None, 0, 0))"
proof -
  note ru = rewind_update[OF assms, of pci]
  have best: "LapsState.bestLapTimeMs (lapsState (playerLapUpdate s pci lap))
        = bestOf (lapsByNumber (playerLapUpdate s pci lap))"
    using ru(6) by (simp add: bestsInv_def)
  have best': "LapsState.bestLapTimeMs (lapsState (playerLapUpdate s pci lap))
        = bestOf (deleteLapsFrom (lapsByNumber s) (LapData.currentLapNum lap))"
    unfolding best unfolding ru(1) by (rule bestOf_markAll)
  have has: "\<forall>k. Map_has (lapsByNumber (playerLapUpdate s pci lap)) k
               = (k < LapData.currentLapNum lap \<and> Map_has (lapsByNumber s) k)"
    unfolding ru(1) by (simp add: Map_has_markAll)
  have get: "\<forall>k. Map_get (lapsByNumber (playerLapUpdate s pci lap)) k
            = (if k < LapData.currentLapNum lap
               then map_option (markLap (LapsState.bestLapTimeMs (lapsState (playerLapUpdate s pci lap))))
                      (Map_get (lapsByNumber s) k)
               else None)"
    unfolding best' unfolding ru(1) by (simp add: Map_get_markAll)
  have tyre: "\<forall>k. Map_get (tyreByLapStart (playerLapUpdate s pci lap)) k
            = (if k < LapData.currentLapNum lap then Map_get (tyreByLapStart s) k
               else if k = LapData.currentLapNum lap then Some (currentTyres s) else None)"
    unfolding ru(2) by simp
  have pit1: "\<forall>k. Map_get (pitLaneTimeByLap (playerLapUpdate s pci lap)) k
            = (if k < LapData.currentLapNum lap then Map_get (pitLaneTimeByLap s) k else None)"
    unfolding ru(3) by simp
  have pit2: "\<forall>k. Map_get (pitLaneStatusByLap (playerLapUpdate s pci lap)) k
            = (if k < LapData.currentLapNum lap then Map_get (pitLaneStatusByLap s) k else None)"
    unfolding ru(4) by simp
  from has get best tyre pit1 pit2 ru(5) show ?thesis by (intro conjI)
qed

text \<open>
  The witness: the rewind from lap 7 to lap 3 in the example state. Lap 5 leaves the ledger
  and lap 2 stays, the snapshot of lap 1 and the pit record of lap 2 stay, the pit record
  of lap 4 goes, the snapshot of lap 3 is the current tyres, the stint is abandoned.
\<close>

theorem C5_rewind_deletes_later_laps_witness:
  "PlayerState.currentLapNum (playerState rewindState) = Some 7
   \<and> LapData.currentLapNum (exampleLapData 3 1000) < 7
   \<and> Map_has (lapsByNumber (playerLapUpdate rewindState 0 (exampleLapData 3 1000))) 5 = False
   \<and> Map_has (lapsByNumber (playerLapUpdate rewindState 0 (exampleLapData 3 1000))) 2 = True
   \<and> Map_get (tyreByLapStart (playerLapUpdate rewindState 0 (exampleLapData 3 1000))) 1
       = Some (exampleTyres 18 16 0)
   \<and> Map_get (tyreByLapStart (playerLapUpdate rewindState 0 (exampleLapData 3 1000))) 3
       = Some (exampleTyres 17 17 0)
   \<and> Map_get (pitLaneTimeByLap (playerLapUpdate rewindState 0 (exampleLapData 3 1000))) 2 = Some 25000
   \<and> Map_get (pitLaneTimeByLap (playerLapUpdate rewindState 0 (exampleLapData 3 1000))) 4 = None
   \<and> pitTracker rewindState = (True, Some 7, 5000, 1)
   \<and> pitTracker (playerLapUpdate rewindState 0 (exampleLapData 3 1000)) = (False, None, 0, 0)"
proof -
  have c: "LapData.currentLapNum (exampleLapData 3 1000) = 3"
    "pitLaneTimerActive (exampleLapData 3 1000) = 0"
    by (simp_all add: exampleLapData_def)
  have lt: "LapData.currentLapNum (exampleLapData 3 1000) < 7" by (simp add: c)
  from C5_rewind_deletes_later_laps[OF rewindState_player(1) lt, of 0]
  show ?thesis
    by (simp add: c rewindState_player rewindState_ledger Map_has_def Map_get_def)
qed

section \<open>C6: the player's pit-lane stint\<close>

text \<open>
  C6, as the specification has it: the stint opens on the 0-to-1 transition of the timer
  flag with the current lap as its start lap, its time and status are maxima that never
  decrease while it is active, and on the 1-to-0 transition a non-zero time is attributed
  to the start lap.

  This does not hold of an update that takes the player back to an earlier lap: the
  rewind block comes before the pit-lane block and abandons the stint. In the example
  state the stint is active since lap 7 with 5000 ms and status 1. An update for lap 3
  with the flag 0 is a 1-to-0 transition with a non-zero time, and nothing is attributed
  to lap 7: the tracker is reset and the pit tables have no record of lap 7. An update for
  lap 3 with the flag still 1 and 1000 ms leaves a stint that starts on lap 3 with
  1000 ms: the start lap has changed and the maximum has gone down from 5000 to 1000.
\<close>

theorem C6_rewind_abandons_stint:
  "pitTracker rewindState = (True, Some 7, 5000, 1)
   \<and> PlayerState.currentLapNum (playerState rewindState) = Some 7
   \<and> pitLaneTimerActive (pitObservation 3 0 0 0) = 0
   \<and> pitTracker (playerLapUpdate rewindState 0 (pitObservation 3 0 0 0)) = (False, None, 0, 0)
   \<and> Map_get (pitLaneTimeByLap (playerLapUpdate rewindState 0 (pitObservation 3 0 0 0))) 7 = None
   \<and> Map_get (pitLaneStatusByLap (playerLapUpdate rewindState 0 (pitObservation 3 0 0 0))) 7 = None
   \<and> pitLaneTimerActive (pitObservation 3 1 1000 1) = 1
   \<and> pitTracker (playerLapUpdate rewindState 0 (pitObservation 3 1 1000 1)) = (True, Some 3, 1000, 1)"
proof -
  have c: "LapData.currentLapNum (pitObservation 3 0 0 0) = 3"
    "pitLaneTimerActive (pitObservation 3 0 0 0) = 0"
    "LapData.currentLapNum (pitObservation 3 1 1000 1) = 3"
    "pitLaneTimerActive (pitObservation 3 1 1000 1) = 1"
    "pitLaneTimeInLaneInMS (pitObservation 3 1 1000 1) = 1000"
    "LapData.pitStatus (pitObservation 3 1 1000 1) = 1"
    by (simp_all add: pitObservation_def exampleLapData_def)
  have lt: "LapData.currentLapNum (pitObservation 3 0 0 0) < 7"
    "LapData.currentLapNum (pitObservation 3 1 1000 1) < 7"
    by (simp_all add: pitObservation_def exampleLapData_def)
  note a = rewind_update[OF rewindState_player(1) lt(1), of 0]
  note b = rewind_update[OF rewindState_player(1) lt(2), of 0]
  have t1: "pitTracker (playerLapUpdate rewindState 0 (pitObservation 3 0 0 0)) = (False, None, 0, 0)"
    unfolding a(5) by (simp add: pitObservation_def exampleLapData_def)
  have t2: "Map_get (pitLaneTimeByLap (playerLapUpdate rewindState 0 (pitObservation 3 0 0 0))) 7 = None"
    unfolding a(3) by (simp add: pitObservation_def exampleLapData_def)
  have t3: "Map_get (pitLaneStatusByLap (playerLapUpdate rewindState 0 (pitObservation 3 0 0 0))) 7 = None"
    unfolding a(4) by (simp add: pitObservation_def exampleLapData_def)
  have t4: "pitTracker (playerLapUpdate rewindState 0 (pitObservation 3 1 1000 1)) = (True, Some 3, 1000, 1)"
    unfolding b(5) by (simp add: pitObservation_def exampleLapData_def)
  from rewindState_player(2) rewindState_player(1) c(2) t1 t2 t3 c(4) t4
  show ?thesis by (intro conjI)
qed

text \<open>
  C6, amended: the claim holds of every update of the player whose lap number is not below
  the one seen before (\<open>noRewind\<close>). On such an update, with the stint inactive and the
  flag 1, the stint opens with the current lap number as its start lap. With the stint
  active and the flag 1, the start lap stays, and time and status become the maximum of
  the old value and the observed one (a time that is not positive changes nothing), so
  they never decrease. With the stint active, the flag not 1 and a positive accumulated
  time, the stint closes, time and status are stored under the start lap and under no
  other lap, and if the ledger has that lap, its entry has these pit fields after the
  update and the bests are recomputed. Over a whole stint of such updates (opened by
  \<open>first\<close>, continued by \<open>obs\<close>, closed by \<open>final\<close>, lap numbers never going down) the
  stored values are the maxima of the observed ones, under the lap number of \<open>first\<close>.
  On an update that goes back to an earlier lap the stint is abandoned first (C5).
\<close>

theorem C6_pit_stint_tracker:
  "(noRewind s lap \<and> \<not> pitLaneActive (playerState s) \<and> pitLaneTimerActive lap = 1 \<longrightarrow>
      pitLaneActive (playerState (playerLapUpdate s pci lap))
      \<and> pitLaneStartLapNum (playerState (playerLapUpdate s pci lap)) = Some (LapData.currentLapNum lap)
      \<and> pitLaneMaxTimeMs (playerState (playerLapUpdate s pci lap)) = max 0 (pitLaneTimeInLaneInMS lap)
      \<and> pitLanePitStatusMax (playerState (playerLapUpdate s pci lap)) = LapData.pitStatus lap)
   \<and> (noRewind s lap \<and> pitLaneActive (playerState s) \<and> pitLaneTimerActive lap = 1 \<longrightarrow>
      pitLaneActive (playerState (playerLapUpdate s pci lap))
      \<and> pitLaneStartLapNum (playerState (playerLapUpdate s pci lap)) = pitLaneStartLapNum (playerState s)
      \<and> pitLaneMaxTimeMs (playerState (playerLapUpdate s pci lap)) =
           (if 0 < pitLaneTimeInLaneInMS lap
            then max (pitLaneMaxTimeMs (playerState s)) (pitLaneTimeInLaneInMS lap)
            else pitLaneMaxTimeMs (playerState s))
      \<and> pitLaneMaxTimeMs (playerState s) \<le> pitLaneMaxTimeMs (playerState (playerLapUpdate s pci lap))
      \<and> pitLanePitStatusMax (playerState (playerLapUpdate s pci lap)) =
           max (pitLanePitStatusMax (playerState s)) (LapData.pitStatus lap)
      \<and> pitLanePitStatusMax (playerState s) \<le> pitLanePitStatusMax (playerState (playerLapUpdate s pci lap)))
   \<and> (noRewind s lap \<and> pitLaneActive (playerState s) \<and> pitLaneTimerActive lap \<noteq> 1
        \<and> pitLaneStartLapNum (playerState s) = Some n \<and> 0 < pitLaneMaxTimeMs (playerState s) \<longrightarrow>
      \<not> pitLaneActive (playerState (playerLapUpdate s pci lap))
      \<and> Map_get (pitLaneTimeByLap (playerLapUpdate s pci lap)) n = Some (pitLaneMaxTimeMs (playerState s))
      \<and> Map_get (pitLaneStatusByLap (playerLapUpdate s pci lap)) n = Some (pitLanePitStatusMax (playerState s))
      \<and> (\<forall>k. k \<noteq> n \<longrightarrow>
            Map_get (pitLaneTimeByLap (playerLapUpdate s pci lap)) k = Map_get (pitLaneTimeByLap s) k
            \<and> Map_get (pitLaneStatusByLap (playerLapUpdate s pci lap)) k = Map_get (pitLaneStatusByLap s) k)
      \<and> (\<forall>e. Map_get (lapsByNumber s) n = Some e \<longrightarrow>
            (\<exists>e'. Map_get (lapsByNumber (playerLapUpdate s pci lap)) n = Some e'
               \<and> LapEntry.pitLaneTimeMs e' = Some (pitLaneMaxTimeMs (playerState s))
               \<and> LapEntry.pitStatus e' = pitLanePitStatusMax (playerState s))
            \<and> bestsInv (playerLapUpdate s pci lap)))
   \<and> (lapsNonDecreasing (PlayerState.currentLapNum (playerState s)) (first # obs @ [final])
        \<and> \<not> pitLaneActive (playerState s) \<and> pitLaneTimerActive first = 1
        \<and> (\<forall>ob \<in> set obs. pitLaneTimerActive ob = 1) \<and> pitLaneTimerActive final \<noteq> 1
        \<and> 0 < Max (insert 0 (set (map pitLaneTimeInLaneInMS (first # obs)))) \<longrightarrow>
      Map_get (pitLaneTimeByLap (playerRun s pci (first # obs @ [final]))) (LapData.currentLapNum first)
        = Some (Max (insert 0 (set (map pitLaneTimeInLaneInMS (first # obs)))))
      \<and> Map_get (pitLaneStatusByLap (playerRun s pci (first # obs @ [final]))) (LapData.currentLapNum first)
        = Some (Max (insert 0 (set (map LapData.pitStatus (first # obs)))))
      \<and> (\<forall>k. k \<noteq> LapData.currentLapNum first \<longrightarrow>
            Map_get (pitLaneTimeByLap (playerRun s pci (first # obs @ [final]))) k = Map_get (pitLaneTimeByLap s) k
            \<and> Map_get (pitLaneStatusByLap (playerRun s pci (first # obs @ [final]))) k = Map_get (pitLaneStatusByLap s) k)
      \<and> (\<forall>e. Map_get (lapsByNumber s) (LapData.currentLapNum first) = Some e \<longrightarrow>
            (\<exists>e'. Map_get (lapsByNumber (playerRun s pci (first # obs @ [final]))) (LapData.currentLapNum first) = Some e'
               \<and> LapEntry.pitLaneTimeMs e' = Some (Max (insert 0 (set (map pitLaneTimeInLaneInMS (first # obs)))))
               \<and> LapEntry.pitStatus e' = Max (insert 0 (set (map LapData.pitStatus (first # obs)))))))"
proof (intro conjI impI allI)
  assume h: "noRewind s lap \<and> \<not> pitLaneActive (playerState s) \<and> pitLaneTimerActive lap = 1"
  then have nr: "noRewind s lap" by simp
  note f = pitCore_fields[OF playerLapUpdate_pitCore[OF nr, of pci]]
  note o = pit_open[of s lap]
  from h show "pitLaneActive (playerState (playerLapUpdate s pci lap))" unfolding f by (simp add: o)
  from h show "pitLaneStartLapNum (playerState (playerLapUpdate s pci lap)) = Some (LapData.currentLapNum lap)"
    unfolding f by (simp add: o)
  from h show "pitLaneMaxTimeMs (playerState (playerLapUpdate s pci lap)) = max 0 (pitLaneTimeInLaneInMS lap)"
    unfolding f by (simp add: o)
  from h show "pitLanePitStatusMax (playerState (playerLapUpdate s pci lap)) = LapData.pitStatus lap"
    unfolding f by (simp add: o)
next
  assume h: "noRewind s lap \<and> pitLaneActive (playerState s) \<and> pitLaneTimerActive lap = 1"
  then have nr: "noRewind s lap" by simp
  note f = pitCore_fields[OF playerLapUpdate_pitCore[OF nr, of pci]]
  note c = pit_continue[of s lap]
  from h show "pitLaneActive (playerState (playerLapUpdate s pci lap))" unfolding f by (simp add: c)
  from h show "pitLaneStartLapNum (playerState (playerLapUpdate s pci lap)) = pitLaneStartLapNum (playerState s)"
    unfolding f by (simp add: c)
  from h show "pitLaneMaxTimeMs (playerState (playerLapUpdate s pci lap)) =
           (if 0 < pitLaneTimeInLaneInMS lap
            then max (pitLaneMaxTimeMs (playerState s)) (pitLaneTimeInLaneInMS lap)
            else pitLaneMaxTimeMs (playerState s))" unfolding f by (simp add: c)
  from h show "pitLaneMaxTimeMs (playerState s) \<le> pitLaneMaxTimeMs (playerState (playerLapUpdate s pci lap))"
    unfolding f by (simp add: c)
  from h show "pitLanePitStatusMax (playerState (playerLapUpdate s pci lap)) =
           max (pitLanePitStatusMax (playerState s)) (LapData.pitStatus lap)" unfolding f by (simp add: c)
  from h show "pitLanePitStatusMax (playerState s) \<le> pitLanePitStatusMax (playerState (playerLapUpdate s pci lap))"
    unfolding f by (simp add: c)
next
  assume h: "noRewind s lap \<and> pitLaneActive (playerState s) \<and> pitLaneTimerActive lap \<noteq> 1
        \<and> pitLaneStartLapNum (playerState s) = Some n \<and> 0 < pitLaneMaxTimeMs (playerState s)"
  then have nr: "noRewind s lap" and h': "pitLaneActive (playerState s)" "pitLaneTimerActive lap \<noteq> 1"
    "pitLaneStartLapNum (playerState s) = Some n" "0 < pitLaneMaxTimeMs (playerState s)" by simp_all
  note f = pitCore_fields[OF playerLapUpdate_pitCore[OF nr, of pci]]
  note c = pit_close[OF h']
  show "\<not> pitLaneActive (playerState (playerLapUpdate s pci lap))" unfolding f by (rule c(1))
  show "Map_get (pitLaneTimeByLap (playerLapUpdate s pci lap)) n = Some (pitLaneMaxTimeMs (playerState s))"
    unfolding f by (rule c(2))
  show "Map_get (pitLaneStatusByLap (playerLapUpdate s pci lap)) n = Some (pitLanePitStatusMax (playerState s))"
    unfolding f by (rule c(3))
  show "Map_get (pitLaneTimeByLap (playerLapUpdate s pci lap)) k = Map_get (pitLaneTimeByLap s) k" if "k \<noteq> n" for k
    using that unfolding f c(5) by simp
  show "Map_get (pitLaneStatusByLap (playerLapUpdate s pci lap)) k = Map_get (pitLaneStatusByLap s) k" if "k \<noteq> n" for k
    using that unfolding f c(6) by simp
  fix e assume e: "Map_get (lapsByNumber s) n = Some e"
  have l: "pitPatched (playerLapUpdate s pci lap) n (pitLaneMaxTimeMs (playerState s))
           (pitLanePitStatusMax (playerState s))"
    "bestsInv (playerLapUpdate s pci lap)"
    by (rule playerLapUpdate_close_ledger(1)[OF nr h' e],
        rule playerLapUpdate_close_ledger(2)[OF nr h' e])
  show "\<exists>e'. Map_get (lapsByNumber (playerLapUpdate s pci lap)) n = Some e'
               \<and> LapEntry.pitLaneTimeMs e' = Some (pitLaneMaxTimeMs (playerState s))
               \<and> LapEntry.pitStatus e' = pitLanePitStatusMax (playerState s)"
    using l(1) by (auto simp: pitPatched_def split: option.splits)
  show "bestsInv (playerLapUpdate s pci lap)" by (rule l(2))
next
  assume h: "lapsNonDecreasing (PlayerState.currentLapNum (playerState s)) (first # obs @ [final])
        \<and> \<not> pitLaneActive (playerState s) \<and> pitLaneTimerActive first = 1
        \<and> (\<forall>ob \<in> set obs. pitLaneTimerActive ob = 1) \<and> pitLaneTimerActive final \<noteq> 1
        \<and> 0 < Max (insert 0 (set (map pitLaneTimeInLaneInMS (first # obs))))"
  then have nd: "lapsNonDecreasing (PlayerState.currentLapNum (playerState s)) (first # obs @ [final])"
    and h': "\<not> pitLaneActive (playerState s)" "pitLaneTimerActive first = 1"
    "\<forall>ob \<in> set obs. pitLaneTimerActive ob = 1" "pitLaneTimerActive final \<noteq> 1"
    "0 < Max (insert 0 (set (map pitLaneTimeInLaneInMS (first # obs))))" by simp_all
  note r = player_stint_run[OF nd h', where pci = pci]
  show "Map_get (pitLaneTimeByLap (playerRun s pci (first # obs @ [final]))) (LapData.currentLapNum first)
        = Some (Max (insert 0 (set (map pitLaneTimeInLaneInMS (first # obs)))))" by (rule r(1))
  show "Map_get (pitLaneStatusByLap (playerRun s pci (first # obs @ [final]))) (LapData.currentLapNum first)
        = Some (Max (insert 0 (set (map LapData.pitStatus (first # obs)))))" by (rule r(2))
  show "Map_get (pitLaneTimeByLap (playerRun s pci (first # obs @ [final]))) k = Map_get (pitLaneTimeByLap s) k"
    if "k \<noteq> LapData.currentLapNum first" for k
    using r(4)[OF that] by simp
  show "Map_get (pitLaneStatusByLap (playerRun s pci (first # obs @ [final]))) k = Map_get (pitLaneStatusByLap s) k"
    if "k \<noteq> LapData.currentLapNum first" for k
    using r(4)[OF that] by simp
  fix e assume e: "Map_get (lapsByNumber s) (LapData.currentLapNum first) = Some e"
  show "\<exists>e'. Map_get (lapsByNumber (playerRun s pci (first # obs @ [final]))) (LapData.currentLapNum first) = Some e'
               \<and> LapEntry.pitLaneTimeMs e' = Some (Max (insert 0 (set (map pitLaneTimeInLaneInMS (first # obs)))))
               \<and> LapEntry.pitStatus e' = Max (insert 0 (set (map LapData.pitStatus (first # obs))))"
    by (rule r(5)[OF e])
qed

text \<open>
  The witness: a stint that opens on lap 10 (5000 ms, status 1), sees a transient zero,
  then 21000 ms and status 2 on lap 11, and closes on lap 11, is stored under lap 10
  with 21000 ms and status 2, not under lap 11, and the ledger's lap 10 is patched.
\<close>

theorem C6_pit_stint_tracker_witness:
  "lapsNonDecreasing (PlayerState.currentLapNum (playerState exampleState10))
     [pitObservation 10 1 5000 1, pitObservation 10 1 0 0, pitObservation 11 1 21000 2,
      pitObservation 11 0 0 0]
   \<and> \<not> pitLaneActive (playerState exampleState10)
   \<and> pitLaneTimerActive (pitObservation 10 1 5000 1) = 1
   \<and> pitLaneTimerActive (pitObservation 10 1 0 0) = 1
   \<and> pitLaneTimerActive (pitObservation 11 1 21000 2) = 1
   \<and> pitLaneTimerActive (pitObservation 11 0 0 0) \<noteq> 1
   \<and> Map_get (pitLaneTimeByLap (playerRun exampleState10 0
         [pitObservation 10 1 5000 1, pitObservation 10 1 0 0, pitObservation 11 1 21000 2,
          pitObservation 11 0 0 0])) 10 = Some 21000
   \<and> Map_get (pitLaneStatusByLap (playerRun exampleState10 0
         [pitObservation 10 1 5000 1, pitObservation 10 1 0 0, pitObservation 11 1 21000 2,
          pitObservation 11 0 0 0])) 10 = Some 2
   \<and> Map_get (pitLaneTimeByLap (playerRun exampleState10 0
         [pitObservation 10 1 5000 1, pitObservation 10 1 0 0, pitObservation 11 1 21000 2,
          pitObservation 11 0 0 0])) 11 = None
   \<and> (\<exists>e'. Map_get (lapsByNumber (playerRun exampleState10 0
         [pitObservation 10 1 5000 1, pitObservation 10 1 0 0, pitObservation 11 1 21000 2,
          pitObservation 11 0 0 0])) 10 = Some e'
        \<and> LapEntry.pitLaneTimeMs e' = Some 21000 \<and> LapEntry.pitStatus e' = 2)"
proof -
  let ?first = "pitObservation 10 1 5000 1"
  let ?obs = "[pitObservation 10 1 0 0, pitObservation 11 1 21000 2]"
  let ?final = "pitObservation 11 0 0 0"
  have nd: "lapsNonDecreasing (PlayerState.currentLapNum (playerState exampleState10))
     [pitObservation 10 1 5000 1, pitObservation 10 1 0 0, pitObservation 11 1 21000 2,
      pitObservation 11 0 0 0]"
    by (simp add: exampleState10_def initialState_def pitObservation_def exampleLapData_def)
  have flags: "\<not> pitLaneActive (playerState exampleState10)"
    "pitLaneTimerActive ?first = 1" "pitLaneTimerActive (pitObservation 10 1 0 0) = 1"
    "pitLaneTimerActive (pitObservation 11 1 21000 2) = 1" "pitLaneTimerActive ?final \<noteq> 1"
    by (simp_all add: exampleState10_def initialState_def pitObservation_def)
  have vals: "Max (insert 0 (set (map pitLaneTimeInLaneInMS (?first # ?obs)))) = 21000"
    "Max (insert 0 (set (map LapData.pitStatus (?first # ?obs)))) = 2"
    "LapData.currentLapNum ?first = 10"
    by (simp_all add: pitObservation_def exampleLapData_def)
  have pre: "Map_get (pitLaneTimeByLap exampleState10) 11 = None"
    "Map_get (lapsByNumber exampleState10) 10 = Some (exampleLap 10 95000 True)"
    by (simp_all add: exampleState10_def initialState_def Map_get_def)
  from C6_pit_stint_tracker[where s = exampleState10 and first = ?first and obs = ?obs
      and final = ?final and pci = 0] nd flags vals pre
  show ?thesis by simp
qed

section \<open>C7: the authoritative override\<close>

text \<open>
  C7, as the specification has it: a history lap of the player's car with a lap time
  overwrites the lap time and the three sector times of the ledger entry of that lap, and
  the bests are recomputed; a history lap with a lap time of zero leaves the ledger entry
  entirely unchanged.

  The last part does not hold. The handler recomputes the bests after every packet of the
  player's car, over the whole ledger. In the example packet lap 1 has a lap time of zero
  and lap 2 improves to 89000 ms: the entry of lap 1 loses \<open>isBest\<close> and its delta goes from
  0 to 1000.
\<close>

theorem C7_zero_time_entry_changes:
  "parseLapHistoryEntry historyDatagram (HEADER_SIZE + 7) = Some (historyLap None None None None 0)
   \<and> HistoryEntry.lapTimeMs (historyLap None None None None 0) = None
   \<and> Map_get (lapsByNumber historyState) 1
       = Some ((exampleLap 1 90000 True)\<lparr>deltaMs := Some 0, isBest := True\<rparr>)
   \<and> map_option (\<lambda>s'. Map_get (lapsByNumber s') 1)
        (handleSessionHistoryPacket historyState historyDatagram)
       = Some (Some ((exampleLap 1 90000 True)\<lparr>deltaMs := Some 1000\<rparr>))
   \<and> (exampleLap 1 90000 True)\<lparr>deltaMs := Some 1000\<rparr>
       \<noteq> (exampleLap 1 90000 True)\<lparr>deltaMs := Some 0, isBest := True\<rparr>"
proof -
  have a: "parseLapHistoryEntry historyDatagram (HEADER_SIZE + 7) = Some (historyLap None None None None 0)"
    by (simp add: sizes historyDatagram_laps)
  from historyState_after obtain s' where
    h: "handleSessionHistoryPacket historyState historyDatagram = Some s'"
    and ledger: "lapsByNumber s' =
      [(1, (exampleLap 1 90000 True)\<lparr>deltaMs := Some 1000\<rparr>),
       (2, (exampleLap 2 91000 True)
             \<lparr>LapEntry.lapTimeMs := Some 89000, deltaMs := Some 0, isBest := True,
              LapEntry.sector1TimeMs := Some 29000, LapEntry.sector2TimeMs := Some 30000,
              LapEntry.sector3TimeMs := Some 30000\<rparr>)]"
    by (cases "handleSessionHistoryPacket historyState historyDatagram") auto
  have b: "map_option (\<lambda>s'. Map_get (lapsByNumber s') 1)
        (handleSessionHistoryPacket historyState historyDatagram)
       = Some (Some ((exampleLap 1 90000 True)\<lparr>deltaMs := Some 1000\<rparr>))"
    by (simp add: h ledger Map_get_def)
  have c: "HistoryEntry.lapTimeMs (historyLap None None None None 0) = None"
    by (simp add: historyLap_def)
  have d: "Map_get (lapsByNumber historyState) 1
       = Some ((exampleLap 1 90000 True)\<lparr>deltaMs := Some 0, isBest := True\<rparr>)"
    by (simp add: historyState_ledger Map_get_def)
  have e: "(exampleLap 1 90000 True)\<lparr>deltaMs := Some 1000\<rparr>
       \<noteq> (exampleLap 1 90000 True)\<lparr>deltaMs := Some 0, isBest := True\<rparr>"
    by (simp add: exampleLap_def)
  from a c d b e show ?thesis by (intro conjI)
qed

text \<open>
  C7, amended: for a lap of the packet that is in the ledger (after the reset that a new
  session identifier causes), the handler returns; the entry gets the lap time and the
  three sector times of the history lap when that has a lap time, and keeps its own when
  the lap time is zero; in both cases \<open>isBest\<close> and \<open>deltaMs\<close> of the entry are the ones
  recomputed against the new best, which is the best of the new ledger.
\<close>

theorem C7_history_override:
  assumes "parseHeader buf = Some (Some header)"
    and "readUInt8 buf HEADER_SIZE = Some (Header.playerCarIndex header)"
    and "readUInt8 buf (HEADER_SIZE + 1) = Some numLaps"
    and "0 < lapNum" and "lapNum \<le> min numLaps 100"
    and "HEADER_SIZE + 7 + lapNum * LAP_HISTORY_DATA_SIZE \<le> length buf"
    and "parseLapHistoryEntry buf (HEADER_SIZE + 7 + (lapNum - 1) * LAP_HISTORY_DATA_SIZE) = Some entry"
    and "Map_get (lapsByNumber (resetIfNewSession s header)) lapNum = Some l"
  shows "\<exists>s'. handleSessionHistoryPacket s buf = Some s'
     \<and> Map_get (lapsByNumber s') lapNum
         = Some (markLap (LapsState.bestLapTimeMs (lapsState s'))
                  (case HistoryEntry.lapTimeMs entry of
                     None \<Rightarrow> l
                   | Some t \<Rightarrow>
                       l\<lparr>LapEntry.lapTimeMs := Some t,
                         LapEntry.sector1TimeMs := HistoryEntry.sector1TimeMs entry,
                         LapEntry.sector2TimeMs := HistoryEntry.sector2TimeMs entry,
                         LapEntry.sector3TimeMs := HistoryEntry.sector3TimeMs entry\<rparr>))
     \<and> LapsState.bestLapTimeMs (lapsState s') = bestOf (lapsByNumber s')"
  using history_override[OF assms] by (simp add: withHistory_def)

text \<open>
  The witness: lap 2 of the example packet, 89000 ms with sectors of 29000, 30000 and
  30000 ms, replaces the 91000 ms of the ledger.
\<close>

theorem C7_history_override_witness:
  "parseHeader historyDatagram = Some (Some historyDatagramHeader)
   \<and> readUInt8 historyDatagram HEADER_SIZE = Some (Header.playerCarIndex historyDatagramHeader)
   \<and> readUInt8 historyDatagram (HEADER_SIZE + 1) = Some 2
   \<and> HEADER_SIZE + 7 + 2 * LAP_HISTORY_DATA_SIZE \<le> length historyDatagram
   \<and> parseLapHistoryEntry historyDatagram (HEADER_SIZE + 7 + (2 - 1) * LAP_HISTORY_DATA_SIZE)
       = Some (historyLap (Some 89000) (Some 29000) (Some 30000) (Some 30000) 15)
   \<and> Map_get (lapsByNumber (resetIfNewSession historyState historyDatagramHeader)) 2
       = Some ((exampleLap 2 91000 True)\<lparr>deltaMs := Some 1000\<rparr>)
   \<and> (\<exists>s'. handleSessionHistoryPacket historyState historyDatagram = Some s'
        \<and> map_option LapEntry.lapTimeMs (Map_get (lapsByNumber s') 2) = Some (Some 89000)
        \<and> map_option LapEntry.sector1TimeMs (Map_get (lapsByNumber s') 2) = Some (Some 29000)
        \<and> map_option LapEntry.sector2TimeMs (Map_get (lapsByNumber s') 2) = Some (Some 30000)
        \<and> map_option LapEntry.sector3TimeMs (Map_get (lapsByNumber s') 2) = Some (Some 30000)
        \<and> LapsState.bestLapTimeMs (lapsState s') = bestOf (lapsByNumber s'))"
proof -
  have car: "readUInt8 historyDatagram HEADER_SIZE = Some (Header.playerCarIndex historyDatagramHeader)"
    by (simp add: historyDatagram_fields historyDatagramHeader_def)
  have k: "(0::nat) < 2" "(2::nat) \<le> min 2 100" by simp_all
  have len: "HEADER_SIZE + 7 + 2 * LAP_HISTORY_DATA_SIZE \<le> length historyDatagram"
    by (simp add: sizes historyDatagram_fields(1))
  have e: "parseLapHistoryEntry historyDatagram (HEADER_SIZE + 7 + (2 - 1) * LAP_HISTORY_DATA_SIZE)
       = Some (historyLap (Some 89000) (Some 29000) (Some 30000) (Some 30000) 15)"
    by (simp add: sizes historyDatagram_laps)
  have l: "Map_get (lapsByNumber (resetIfNewSession historyState historyDatagramHeader)) 2
       = Some ((exampleLap 2 91000 True)\<lparr>deltaMs := Some 1000\<rparr>)"
    by (simp add: historyState_session historyState_ledger Map_get_def)
  from C7_history_override[OF historyDatagram_header car historyDatagram_fields(3) k len e l]
  obtain s' where s': "handleSessionHistoryPacket historyState historyDatagram = Some s'"
    "Map_get (lapsByNumber s') 2
       = Some (markLap (LapsState.bestLapTimeMs (lapsState s'))
           ((exampleLap 2 91000 True)
              \<lparr>deltaMs := Some 1000, LapEntry.lapTimeMs := Some 89000,
               LapEntry.sector1TimeMs := Some 29000, LapEntry.sector2TimeMs := Some 30000,
               LapEntry.sector3TimeMs := Some 30000\<rparr>))"
    "LapsState.bestLapTimeMs (lapsState s') = bestOf (lapsByNumber s')"
    by (auto simp: historyLap_def)
  have "\<exists>s'. handleSessionHistoryPacket historyState historyDatagram = Some s'
        \<and> map_option LapEntry.lapTimeMs (Map_get (lapsByNumber s') 2) = Some (Some 89000)
        \<and> map_option LapEntry.sector1TimeMs (Map_get (lapsByNumber s') 2) = Some (Some 29000)
        \<and> map_option LapEntry.sector2TimeMs (Map_get (lapsByNumber s') 2) = Some (Some 30000)
        \<and> map_option LapEntry.sector3TimeMs (Map_get (lapsByNumber s') 2) = Some (Some 30000)
        \<and> LapsState.bestLapTimeMs (lapsState s') = bestOf (lapsByNumber s')"
    by (rule exI[of _ s']) (simp add: s')
  with historyDatagram_header car historyDatagram_fields(3) len e l show ?thesis by (intro conjI)
qed

section \<open>C8: the tyre snapshot of a lap\<close>

text \<open>
  C8, as the specification has it: the snapshot of a lap is recorded the first time the
  lap number is observed, and from then on no field of it that is not absent ever changes.

  The second part does not hold across a rewind. The example state is on lap 7 and holds
  the snapshot of lap 3 with actual compound 18, visual compound 16 and age 2; the player
  is now on compound 17. An update that takes the player back to lap 3 deletes the
  snapshot of lap 3 and records it again from the current tyres: all three fields change.
\<close>

theorem C8_rewind_rewrites_snapshot:
  "tyreInv tyreExampleState
   \<and> PlayerState.currentLapNum (playerState tyreExampleState) = Some 7
   \<and> Map_get (tyreByLapStart tyreExampleState) 3 = Some (exampleTyres 18 16 2)
   \<and> Map_get (tyreByLapStart (playerLapUpdate tyreExampleState 0 (exampleLapData 3 1000))) 3
       = Some (exampleTyres 17 17 0)
   \<and> TyreSnapshot.tyreActualCompound (exampleTyres 18 16 2) = Some 18
   \<and> TyreSnapshot.tyreActualCompound (exampleTyres 17 17 0) = Some 17"
proof -
  have c: "LapData.currentLapNum (exampleLapData 3 1000) = 3" by (simp add: exampleLapData_def)
  have a: "Map_get (tyreByLapStart (playerLapUpdate tyreExampleState 0 (exampleLapData 3 1000))) 3
       = Some (exampleTyres 17 17 0)"
    using playerLapUpdate_records[of tyreExampleState 0 "exampleLapData 3 1000"]
    by (simp add: c tyreExampleState_fields)
  have b: "Map_get (tyreByLapStart tyreExampleState) 3 = Some (exampleTyres 18 16 2)"
    by (simp add: tyreExampleState_fields Map_get_def)
  have d: "TyreSnapshot.tyreActualCompound (exampleTyres 18 16 2) = Some 18"
    "TyreSnapshot.tyreActualCompound (exampleTyres 17 17 0) = Some 17"
    by (simp_all add: exampleTyres_def)
  from tyreExampleState_inv tyreExampleState_fields(1) b a d show ?thesis by (intro conjI)
qed

text \<open>
  C8, amended: within a session, and as long as the player is not taken back to that lap
  or an earlier one, a recorded snapshot stays recorded and no field of it that is not
  absent changes, whatever datagram arrives; later packets, the car-status backfill among
  them, only fill a snapshot whose fields are all absent. This is proved of every state
  that satisfies \<open>tyreInv\<close>, which every reachable state does (\<open>reachable_tyreInv\<close>), and
  the step keeps \<open>tyreInv\<close>: the current lap always has its snapshot. The snapshot of the
  lap of a live-lap update is the one already recorded, or, when there was none or the
  update is a rewind, the player's current tyres.
\<close>

theorem C8_tyre_snapshot_kept:
  assumes "tyreInv s" and "onMessage s msg = Some s'"
    and "PlayerState.sessionUID (playerState s') = PlayerState.sessionUID (playerState s)"
    and "\<not> rewoundTo s s' k"
    and "Map_get (tyreByLapStart s) k = Some t"
  shows "(\<exists>t'. Map_get (tyreByLapStart s') k = Some t' \<and> keepsKnownFields t t')
    \<and> tyreInv s'
    \<and> Map_get (tyreByLapStart (playerLapUpdate s pci lap)) (LapData.currentLapNum lap) =
        (if (case PlayerState.currentLapNum (playerState s) of
               None \<Rightarrow> False | Some p \<Rightarrow> LapData.currentLapNum lap < p)
            \<or> \<not> Map_has (tyreByLapStart s) (LapData.currentLapNum lap)
         then Some (currentTyres s)
         else Map_get (tyreByLapStart s) (LapData.currentLapNum lap))"
proof -
  from onMessage_stepOk[OF assms(1,2)] assms(3,4)
  have inv: "tyreInv s'" and kept: "snapshotKept s s' k"
    by (auto simp: stepOk_def)
  from kept assms(5) have "\<exists>t'. Map_get (tyreByLapStart s') k = Some t' \<and> keepsKnownFields t t'"
    by (simp add: snapshotKept_def split: option.splits)
  with inv playerLapUpdate_records[of s pci lap] show ?thesis by (intro conjI)
qed

text \<open>
  The witness: a car status with other tyres (19, 18, age 5) arrives on lap 7; the
  player's current tyres change, the snapshot of lap 3 keeps 18, 16 and age 2.
\<close>

theorem C8_tyre_snapshot_kept_witness:
  "tyreInv tyreExampleState
   \<and> Map_get (tyreByLapStart tyreExampleState) 3 = Some (exampleTyres 18 16 2)
   \<and> (\<exists>s'. onMessage tyreExampleState carStatusDatagram = Some s'
        \<and> PlayerState.sessionUID (playerState s') = PlayerState.sessionUID (playerState tyreExampleState)
        \<and> rewoundTo tyreExampleState s' 3 = False
        \<and> currentTyres s' = exampleTyres 19 18 5
        \<and> Map_get (tyreByLapStart s') 3 = Some (exampleTyres 18 16 2))"
proof -
  from carStatus_example obtain st where
    h: "handleCarStatusPacket tyreExampleState carStatusDatagram =
          Some (backfillTyreAtLapStart
                  (playerTyresFromStatus (tyreExampleState\<lparr>carStatusByIndex := [(0, st)]\<rparr>) 0))"
    and f: "actualTyreCompound st = 19" "visualTyreCompound st = 18" "CarStatus.tyresAgeLaps st = 5"
    by blast
  let ?s' = "backfillTyreAtLapStart
                  (playerTyresFromStatus (tyreExampleState\<lparr>carStatusByIndex := [(0, st)]\<rparr>) 0)"
  have om: "onMessage tyreExampleState carStatusDatagram = Some ?s'"
    by (simp add: carStatus_example_onMessage h)
  have p: "playerState ?s' = (playerState tyreExampleState)
             \<lparr>currentTyreActualCompound := Some 19, currentTyreVisualCompound := Some 18,
              currentTyresAgeLaps := Some 5\<rparr>"
    by (simp add: backfill_player playerTyresFromStatus_def NUM_CARS_def Map_get_def f)
  have uid: "PlayerState.sessionUID (playerState ?s') = PlayerState.sessionUID (playerState tyreExampleState)"
    by (simp add: p)
  have rw: "rewoundTo tyreExampleState ?s' 3 = False"
    by (simp add: rewoundTo_def p tyreExampleState_fields)
  have cur: "currentTyres ?s' = exampleTyres 19 18 5"
    by (simp add: currentTyres_def p exampleTyres_def)
  have b: "Map_get (tyreByLapStart tyreExampleState) 3 = Some (exampleTyres 18 16 2)"
    by (simp add: tyreExampleState_fields Map_get_def)
  from C8_tyre_snapshot_kept[OF tyreExampleState_inv om uid _ b] rw
  obtain t' where "Map_get (tyreByLapStart ?s') 3 = Some t'"
    "keepsKnownFields (exampleTyres 18 16 2) t'"
    by auto
  then have "Map_get (tyreByLapStart ?s') 3 = Some (exampleTyres 18 16 2)"
    using keepsKnownFields_known by blast
  with om uid rw cur have "\<exists>s'. onMessage tyreExampleState carStatusDatagram = Some s'
        \<and> PlayerState.sessionUID (playerState s') = PlayerState.sessionUID (playerState tyreExampleState)
        \<and> rewoundTo tyreExampleState s' 3 = False
        \<and> currentTyres s' = exampleTyres 19 18 5
        \<and> Map_get (tyreByLapStart s') 3 = Some (exampleTyres 18 16 2)"
    by blast
  with tyreExampleState_inv b show ?thesis by (intro conjI)
qed

section \<open>C9: who is on the leaderboard\<close>

text \<open>
  C9, as the specification has it: after a lap-data update a car is on the leaderboard
  exactly when it has a known name and is the local player, or is below the active-car
  count with a result status other than invalid; the local player is always included.

  The leaderboard is built from the cars whose lap data is cached, so a car without lap
  data is not on it, the local player included. In the example state the participants
  packet has named car 0, the player, and no lap data has come; a lap-data datagram that
  is only its header leaves the leaderboard empty.
\<close>

theorem C9_named_player_absent:
  "parseHeader headerOnlyLapDatagram = Some (Some lapDatagramHeader)
   \<and> Header.playerCarIndex lapDatagramHeader = 0
   \<and> (\<exists>s'. handleLapDataPacket namedPlayerState headerOnlyLapDatagram = Some s'
         \<and> hasKnownName s' 0
         \<and> onLeaderboard s' 0 = False
         \<and> raceCars (lapsState s') = [])"
proof -
  obtain s' where h: "handleLapDataPacket namedPlayerState headerOnlyLapDatagram = Some s'"
    using handleLapDataPacket_total by blast
  note after = namedPlayer_after[OF h]
  have name: "hasKnownName s' 0"
    by (simp add: hasKnownName_def after Map_get_def)
  have none: "onLeaderboard s' i = False" for i
    using leaderboard_after_lapData[OF h parseHeader_headerOnlyLapDatagram, of i]
    by (simp add: after)
  have empty: "raceCars (lapsState s') = []"
  proof (cases "raceCars (lapsState s')")
    case Nil then show ?thesis .
  next
    case (Cons c cs)
    then have "onLeaderboard s' (carIndex c)" by (simp add: onLeaderboard_def)
    with none show ?thesis by simp
  qed
  have pci: "Header.playerCarIndex lapDatagramHeader = 0" by (simp add: lapDatagramHeader_def)
  from h name none[of 0] empty
  have "\<exists>s'. handleLapDataPacket namedPlayerState headerOnlyLapDatagram = Some s'
         \<and> hasKnownName s' 0 \<and> onLeaderboard s' 0 = False \<and> raceCars (lapsState s') = []"
    by blast
  with parseHeader_headerOnlyLapDatagram pci show ?thesis by (intro conjI)
qed

text \<open>
  C9, amended: after a lap-data update a car is on the published leaderboard exactly when
  it has cached lap data and a known name and is the local player, or is below the
  active-car count (when that is known and positive) with a result status other than 0
  (invalid). The local player with lap data and a known name is on it whatever the
  active-car count and its result status are.
\<close>

theorem C9_leaderboard_inclusion:
  assumes "handleLapDataPacket s buf = Some s'" and "parseHeader buf = Some (Some header)"
  shows "(onLeaderboard s' i \<longleftrightarrow>
           (\<exists>lap. (i, lap) \<in> set (lapDataByIndex s') \<and> hasKnownName s' i
              \<and> (i = Header.playerCarIndex header
                   \<or> (belowActiveCount s' i \<and> resultStatus lap \<noteq> 0))))
       \<and> ((\<exists>lap. (Header.playerCarIndex header, lap) \<in> set (lapDataByIndex s'))
              \<and> hasKnownName s' (Header.playerCarIndex header)
            \<longrightarrow> onLeaderboard s' (Header.playerCarIndex header))"
proof -
  let ?pci = "Header.playerCarIndex header"
  from assms obtain s3 where
    s': "s' = updateRaceCars s3 ?pci \<or> (\<exists>lap. s' = playerLapUpdate (updateRaceCars s3 ?pci) ?pci lap)"
    by (rule handleLapDataPacket_shape)
  let ?u = "updateRaceCars s3 ?pci"
  have same: "onLeaderboard s' = onLeaderboard ?u" "lapDataByIndex s' = lapDataByIndex s3"
    "hasKnownName s' = hasKnownName s3" "belowActiveCount s' = belowActiveCount s3"
    using s'
    by (auto simp: onLeaderboard_def fun_eq_iff playerLapUpdate_frame updateRaceCars_frame
        updateRaceCars_frame2 hasKnownName_def belowActiveCount_def)
  have iff: "onLeaderboard s' j \<longleftrightarrow>
           (\<exists>lap. (j, lap) \<in> set (lapDataByIndex s') \<and> hasKnownName s' j
              \<and> (j = ?pci \<or> (belowActiveCount s' j \<and> resultStatus lap \<noteq> 0)))" for j
    unfolding same by (rule onLeaderboard_updateRaceCars)
  show ?thesis
    using iff[of i] iff[of ?pci] by blast
qed

text \<open>
  The witness: the player in slot 0 is on the leaderboard with result status 0; car 1
  (result status 0) is not; car 2 is; car 3 (not below the count of 3) is not.
\<close>

theorem C9_leaderboard_inclusion_witness:
  "\<exists>s'. handleLapDataPacket exampleBoardState lapDatagram = Some s'
      \<and> parseHeader lapDatagram = Some (Some lapDatagramHeader)
      \<and> onLeaderboard s' 0 \<and> \<not> onLeaderboard s' 1 \<and> onLeaderboard s' 2 \<and> \<not> onLeaderboard s' 3"
proof -
  obtain s' where h: "handleLapDataPacket exampleBoardState lapDatagram = Some s'"
    using handleLapDataPacket_total by blast
  from exampleBoard_after[OF h] obtain l0 where
    after: "lapDataByIndex s' =
           [(1, (exampleLapData 1 0)\<lparr>resultStatus := 0\<rparr>), (2, exampleLapData 1 0),
            (3, exampleLapData 1 0), (0, l0)]"
      "participantsNameByIndex s' = [(0, [0x41]), (1, [0x42]), (2, [0x43]), (3, [0x44])]"
      "numActiveCars s' = Some 3"
    by blast
  note c = C9_leaderboard_inclusion[OF h parseHeader_lapDatagram]
  have "onLeaderboard s' 0" "\<not> onLeaderboard s' 1" "onLeaderboard s' 2" "\<not> onLeaderboard s' 3"
    using c[of 0] c[of 1] c[of 2] c[of 3]
    by (simp_all add: after hasKnownName_def belowActiveCount_def Map_get_def
        lapDatagramHeader_def exampleLapData_def)
  with h parseHeader_lapDatagram show ?thesis by blast
qed

section \<open>C10: the sign of the live delta\<close>

text \<open>
  C10, as the specification has it: whenever a personal best exists and the live lap time
  is positive, the published live delta is the best minus the live lap time.

  The live delta is written only at the end of the player's live-lap update. A
  session-history packet can change the personal best without a live-lap update, and the
  car-damage handler publishes the state as it stands. In the example the best is 90000
  and the live lap time 45000, so the live delta is 45000; the history packet brings lap 2
  down to 89000, and the car-damage datagram then publishes the best 89000, the live lap
  time 45000 and the live delta 45000, not 44000.
\<close>

theorem C10_stale_delta_published:
  "LapsState.bestLapTimeMs (lapsState deltaState) = Some 90000
   \<and> liveDeltaToBestMs (lapsState deltaState) = Some 45000
   \<and> (\<exists>s2 s3. onMessage deltaState historyDatagram = Some s2
         \<and> onMessage s2 headerOnlyDamageDatagram = Some s3
         \<and> LapsState.bestLapTimeMs (lapsState s3) = Some 89000
         \<and> liveLapTimeMs (lapsState s3) = 45000
         \<and> liveDeltaToBestMs (lapsState s3) = Some 45000)"
proof -
  from deltaState_history obtain s2 where
    s2: "handleSessionHistoryPacket deltaState historyDatagram = Some s2"
    "LapsState.bestLapTimeMs (lapsState s2) = Some 89000"
    "liveLapTimeMs (lapsState s2) = 45000"
    "liveDeltaToBestMs (lapsState s2) = Some 45000"
    "PlayerState.sessionUID (playerState s2) = Some 0"
    by blast
  from headerOnlyDamageDatagram_header obtain h where
    h: "parseHeader headerOnlyDamageDatagram = Some (Some h)" "Header.sessionUID h = 0"
    by blast
  have r: "resetIfNewSession s2 h = s2"
    by (simp add: resetIfNewSession_def s2(5) h(2))
  have len: "length headerOnlyDamageDatagram = 29" by (simp add: headerOnlyDamageDatagram_def)
  from handleCarDamagePacket_headerOnly[OF len h(1) r] obtain s3 where
    s3: "handleCarDamagePacket s2 headerOnlyDamageDatagram = Some s3"
    "LapsState.bestLapTimeMs (lapsState s3) = Some 89000"
    "liveLapTimeMs (lapsState s3) = 45000"
    "liveDeltaToBestMs (lapsState s3) = Some 45000"
    by (auto simp: s2)
  have "\<exists>s2 s3. onMessage deltaState historyDatagram = Some s2
         \<and> onMessage s2 headerOnlyDamageDatagram = Some s3
         \<and> LapsState.bestLapTimeMs (lapsState s3) = Some 89000
         \<and> liveLapTimeMs (lapsState s3) = 45000
         \<and> liveDeltaToBestMs (lapsState s3) = Some 45000"
    using s2(1) s3 by (auto simp: onMessage_history_example onMessage_damage_example)
  with deltaState_fields(2,4) show ?thesis by (intro conjI)
qed

text \<open>
  C10, amended: in a state where ledger and published best agree (every reachable state,
  by \<open>reachable_bestsInv\<close>), the snapshot that a live-lap update of the player publishes has
  the live lap time of the packet, a live delta of \<open>best - live\<close> when a personal best
  exists and the live lap time is positive and an absent one otherwise, and for every
  finalized lap a \<open>deltaMs\<close> of \<open>lap time - best\<close>, the opposite sign, against the same best.
  This holds of the player's update and of the state that \<^verbatim>\<open>handleLapDataPacket\<close> returns
  and publishes when the datagram's player has lap data. Between two live-lap updates the
  published live delta is the one of the last update.
\<close>

theorem C10_live_delta_sign:
  assumes "bestsInv s"
  shows "liveLapTimeMs (lapsState (playerLapUpdate s pci lap)) = currentLapTimeInMS lap
    \<and> liveDeltaToBestMs (lapsState (playerLapUpdate s pci lap)) =
        (case LapsState.bestLapTimeMs (lapsState (playerLapUpdate s pci lap)) of
           None \<Rightarrow> None
         | Some best \<Rightarrow>
             if 0 < currentLapTimeInMS lap then Some (best - currentLapTimeInMS lap) else None)
    \<and> (\<forall>(k, l) \<in> set (lapsByNumber (playerLapUpdate s pci lap)).
          deltaMs l =
            (case (LapsState.bestLapTimeMs (lapsState (playerLapUpdate s pci lap)), LapEntry.lapTimeMs l) of
               (Some best, Some t) \<Rightarrow> if LapEntry.valid l \<and> 0 < t then Some (t - best) else None
             | _ \<Rightarrow> None))
    \<and> (handleLapDataPacket s buf = Some s' \<and> parseHeader buf = Some (Some header)
         \<and> Header.playerCarIndex header < NUM_CARS
         \<and> Map_get (lapDataByIndex s') (Header.playerCarIndex header) = Some plap \<longrightarrow>
        liveLapTimeMs (lapsState s') = currentLapTimeInMS plap
        \<and> liveDeltaToBestMs (lapsState s') =
            (case LapsState.bestLapTimeMs (lapsState s') of
               None \<Rightarrow> None
             | Some best \<Rightarrow>
                 if 0 < currentLapTimeInMS plap then Some (best - currentLapTimeInMS plap) else None)
        \<and> (\<forall>(k, l) \<in> set (lapsByNumber s').
              deltaMs l =
                (case (LapsState.bestLapTimeMs (lapsState s'), LapEntry.lapTimeMs l) of
                   (Some best, Some t) \<Rightarrow> if LapEntry.valid l \<and> 0 < t then Some (t - best) else None
                 | _ \<Rightarrow> None)))"
proof -
  have upd: "liveLapTimeMs (lapsState (playerLapUpdate x i y)) = currentLapTimeInMS y
    \<and> liveDeltaToBestMs (lapsState (playerLapUpdate x i y)) =
        (case LapsState.bestLapTimeMs (lapsState (playerLapUpdate x i y)) of
           None \<Rightarrow> None
         | Some best \<Rightarrow>
             if 0 < currentLapTimeInMS y then Some (best - currentLapTimeInMS y) else None)
    \<and> (\<forall>(k, l) \<in> set (lapsByNumber (playerLapUpdate x i y)).
          deltaMs l =
            (case (LapsState.bestLapTimeMs (lapsState (playerLapUpdate x i y)), LapEntry.lapTimeMs l) of
               (Some best, Some t) \<Rightarrow> if LapEntry.valid l \<and> 0 < t then Some (t - best) else None
             | _ \<Rightarrow> None))" if x: "bestsInv x" for x i y
  proof -
    have inv: "bestsInv (playerLapUpdate x i y)"
      using x by (rule playerLapUpdate_inv)
    have live: "liveLapTimeMs (lapsState (playerLapUpdate x i y)) = currentLapTimeInMS y"
      by (rule playerLapUpdate_liveLapTimeMs)
    have delta: "liveDeltaToBestMs (lapsState (playerLapUpdate x i y)) =
        (case LapsState.bestLapTimeMs (lapsState (playerLapUpdate x i y)) of
           None \<Rightarrow> None
         | Some best \<Rightarrow>
             if 0 < currentLapTimeInMS y then Some (best - currentLapTimeInMS y) else None)"
      using playerLapUpdate_liveDelta[of x i y] unfolding live .
    have fin: "\<forall>(k, l) \<in> set (lapsByNumber (playerLapUpdate x i y)).
          deltaMs l =
            (case (LapsState.bestLapTimeMs (lapsState (playerLapUpdate x i y)), LapEntry.lapTimeMs l) of
               (Some best, Some t) \<Rightarrow> if LapEntry.valid l \<and> 0 < t then Some (t - best) else None
             | _ \<Rightarrow> None)"
      using bestsInv_deltaMs[OF inv] by blast
    from live delta fin show ?thesis by (intro conjI)
  qed
  have pkt: "liveLapTimeMs (lapsState s') = currentLapTimeInMS plap
        \<and> liveDeltaToBestMs (lapsState s') =
            (case LapsState.bestLapTimeMs (lapsState s') of
               None \<Rightarrow> None
             | Some best \<Rightarrow>
                 if 0 < currentLapTimeInMS plap then Some (best - currentLapTimeInMS plap) else None)
        \<and> (\<forall>(k, l) \<in> set (lapsByNumber s').
              deltaMs l =
                (case (LapsState.bestLapTimeMs (lapsState s'), LapEntry.lapTimeMs l) of
                   (Some best, Some t) \<Rightarrow> if LapEntry.valid l \<and> 0 < t then Some (t - best) else None
                 | _ \<Rightarrow> None))"
    if a: "handleLapDataPacket s buf = Some s' \<and> parseHeader buf = Some (Some header)
         \<and> Header.playerCarIndex header < NUM_CARS
         \<and> Map_get (lapDataByIndex s') (Header.playerCarIndex header) = Some plap"
  proof -
    from a have a': "handleLapDataPacket s buf = Some s'" "parseHeader buf = Some (Some header)"
      "Header.playerCarIndex header < NUM_CARS"
      "Map_get (lapDataByIndex s') (Header.playerCarIndex header) = Some plap" by simp_all
    from handleLapDataPacket_player[OF assms a'] obtain s4 where
      s4: "bestsInv s4" "s' = playerLapUpdate s4 (Header.playerCarIndex header) plap" by blast
    show ?thesis unfolding s4(2) by (rule upd[OF s4(1)])
  qed
  from upd[OF assms, of pci lap] pkt show ?thesis by blast
qed

text \<open>
  The witness: the example ledger (best 88000) and a live lap time of 45000 ms give
  a live delta of +43000, while the finalized lap of 90000 ms has a delta of +2000.
\<close>

theorem C10_live_delta_sign_witness:
  "bestsInv (recomputeFromLaps exampleState)
   \<and> liveLapTimeMs (lapsState (playerLapUpdate (recomputeFromLaps exampleState) 0 (exampleLapData 4 45000))) = 45000
   \<and> LapsState.bestLapTimeMs (lapsState (playerLapUpdate (recomputeFromLaps exampleState) 0 (exampleLapData 4 45000))) = Some 88000
   \<and> liveDeltaToBestMs (lapsState (playerLapUpdate (recomputeFromLaps exampleState) 0 (exampleLapData 4 45000))) = Some 43000
   \<and> map (\<lambda>kv. deltaMs (snd kv)) (lapsByNumber (playerLapUpdate (recomputeFromLaps exampleState) 0 (exampleLapData 4 45000)))
        = [Some 2000, Some 0, None]"
proof -
  let ?s = "recomputeFromLaps exampleState"
  let ?lap = "exampleLapData 4 45000"
  have inv: "bestsInv ?s" by simp
  have q: "PlayerState.currentLapNum (playerState ?s) = None" "\<not> pitLaneActive (playerState ?s)"
    "pitLaneTimerActive ?lap \<noteq> 1"
    by (simp_all add: recompute_frame exampleState_def initialState_def exampleLapData_def)
  note fl = first_lap_quiet[OF inv q, of 0]
  have cur: "currentLapTimeInMS ?lap = 45000" by (simp add: exampleLapData_def)
  from C10_live_delta_sign[OF inv, of 0 ?lap] inv
  show ?thesis
    by (simp add: fl exampleState_best cur exampleState_recomputed exampleLap_def)
qed

end
